(* ===== verification/Prelude.thy ===== *)
theory Prelude
  imports Main "HOL-Library.Word" "HOL-Library.Code_Target_Nat" "HOL-Library.Monad_Syntax"
begin

unbundle bit_operations_syntax

section \<open>Prelude: machine types, results and shared lemmas\<close>

text \<open>
  The types every component shares. Go's fixed-width integers are words of their width; a
  Go string is a list of bytes, which is what Isabelle's \<^typ>\<open>char list\<close> is (a
  \<^typ>\<open>char\<close> is one of 256 values); a \<open>[]byte\<close> is a \<^typ>\<open>8 word list\<close>. A function
  that returns \<open>(T, error)\<close> returns a value of \<^typ>\<open>'e + 'a\<close>, \<^term>\<open>Inl\<close> being the
  error.
\<close>

type_synonym u8 = "8 word"
type_synonym u16 = "16 word"
type_synonym u32 = "32 word"
type_synonym u64 = "64 word"
type_synonym s8 = "8 word"
type_synonym s16 = "16 word"
type_synonym s32 = "32 word"
type_synonym s64 = "64 word"
type_synonym bytes = "u8 list"

text \<open>
  The errors of \<open>strconv.ParseInt\<close> (a \<open>*NumError\<close> with its fields \<open>Num\<close> and \<open>Err\<close>), and the
  errors the package itself builds, one constructor for each \<open>errors.New\<close> or \<open>fmt.Errorf\<close> of the
  source; \<open>ExternalError\<close> carries an error of code outside the repository.
\<close>

datatype num_err = ErrSyntax | ErrRange

datatype num_error = NumError string num_err

datatype go_error =
    EmptyArgument
  | InvalidArgSize num_error
  | InvalidMemoryOffset num_error
  | InvalidConstant num_error
  | UnknownRegister string
  | UnrecognizedFormat string
  | TooManyArguments nat
  | ParseArgument nat string go_error
  | StoreSpec string string go_error
  | ProgsLength nat nat
  | AttachProbe string u64 go_error
  | LoadCollection go_error
  | Joined "go_error list"
  | ExternalError string

section \<open>Sums\<close>

text \<open>Sequencing of fallible calls: \<open>if err != nil { return nil, wrap(err) }\<close>.\<close>

definition try_wrap :: "('e \<Rightarrow> 'f) \<Rightarrow> 'e + 'a \<Rightarrow> ('a \<Rightarrow> 'f + 'b) \<Rightarrow> 'f + 'b" where
  "try_wrap wrap r k = (case r of Inl e \<Rightarrow> Inl (wrap e) | Inr x \<Rightarrow> k x)"

lemma try_wrap_simps [simp]:
  "try_wrap w (Inl e) k = Inl (w e)"
  "try_wrap w (Inr x) k = k x"
  by (simp_all add: try_wrap_def)

lemma try_wrap_Inr_iff:
  "try_wrap w r k = Inr y \<longleftrightarrow> (\<exists>x. r = Inr x \<and> k x = Inr y)"
  by (cases r) auto

section \<open>Lists\<close>

lemma takeWhile_append_stop:
  "\<forall>x\<in>set xs. P x \<Longrightarrow> (ys = [] \<or> \<not> P (hd ys)) \<Longrightarrow> takeWhile P (xs @ ys) = xs"
  by (cases ys) (simp_all add: takeWhile_append)

lemma append_class_unique:
  assumes "w @ r = w' @ r'"
    and "\<forall>c\<in>set w. P c" and "\<forall>c\<in>set w'. P c"
    and "r = [] \<or> \<not> P (hd r)" and "r' = [] \<or> \<not> P (hd r')"
  shows "w = w' \<and> r = r'"
proof -
  have "w = takeWhile P (w @ r)"
    using takeWhile_append_stop [OF assms(2,4)] by simp
  moreover have "w' = takeWhile P (w' @ r')"
    using takeWhile_append_stop [OF assms(3,5)] by simp
  ultimately show ?thesis using assms(1) by (metis append_eq_append_conv)
qed

lemma dropWhile_idI: "(s = [] \<or> \<not> P (hd s)) \<Longrightarrow> dropWhile P s = s"
  by (cases s) auto

lemma list_update_take_drop:
  "i < length xs \<Longrightarrow> take (Suc i) (xs[i := x]) = take i xs @ [x]"
  by (simp add: take_Suc_conv_app_nth)

text \<open>
  The slice expression \<open>xs[i:j]\<close> and the index expression \<open>xs[i]\<close>; \<^term>\<open>None\<close> is the
  run-time panic. (Go checks \<open>j\<close> against the capacity, which is at least the length: an
  expression this definition accepts never panics.)
\<close>

definition slice :: "nat \<Rightarrow> nat \<Rightarrow> 'a list \<Rightarrow> 'a list option" where
  "slice i j xs = (if i \<le> j \<and> j \<le> length xs then Some (take (j - i) (drop i xs)) else None)"

definition index :: "'a list \<Rightarrow> nat \<Rightarrow> 'a option" where
  "index xs i = (if i < length xs then Some (xs ! i) else None)"

lemma slice_Some: "i \<le> j \<Longrightarrow> j \<le> length xs \<Longrightarrow> slice i j xs = Some (take (j - i) (drop i xs))"
  by (simp add: slice_def)

lemma index_Some: "i < length xs \<Longrightarrow> index xs i = Some (xs ! i)"
  by (simp add: index_def)

lemmas in_bounds = slice_Some index_Some

section \<open>Characters\<close>

definition ascii :: "char \<Rightarrow> bool" where
  "ascii c \<longleftrightarrow> (of_char c :: nat) < 128"

definition is_digit :: "char \<Rightarrow> bool" where
  "is_digit c \<longleftrightarrow> 48 \<le> (of_char c :: nat) \<and> (of_char c :: nat) \<le> 57"

definition is_lower_alnum :: "char \<Rightarrow> bool" where
  "is_lower_alnum c \<longleftrightarrow> is_digit c \<or> (97 \<le> (of_char c :: nat) \<and> (of_char c :: nat) \<le> 122)"

text \<open>The class \<open>\s\<close> of Go's \<open>regexp\<close>: tab, newline, form feed, return and blank.\<close>

definition is_re_space :: "char \<Rightarrow> bool" where
  "is_re_space c \<longleftrightarrow> (of_char c :: nat) \<in> {9, 10, 12, 13, 32}"

lemma ascii_classes:
  "is_digit c \<Longrightarrow> ascii c" "is_lower_alnum c \<Longrightarrow> ascii c" "is_re_space c \<Longrightarrow> ascii c"
  by (auto simp: ascii_def is_digit_def is_lower_alnum_def is_re_space_def)

lemma of_char_lt_256: "(of_char c :: nat) < 256"
proof -
  have "(of_char c :: nat) mod 256 < 256" by (rule mod_less_divisor) simp
  then show ?thesis by simp
qed

end
