(* ===== verification/Go_Std.thy ===== *)
theory Go_Std
  imports Prelude
begin

section \<open>The part of Go's standard library the package uses on strings\<close>

text \<open>
  \<open>strconv.ParseInt(s, 10, 64)\<close>, \<open>strings.TrimSpace\<close>, \<open>strings.Split(s, "\x00")\<close> and the
  rune loop \<open>for _, ch := range s\<close> with \<open>strings.Builder.WriteRune\<close>, on byte strings.
\<close>

subsection \<open>strconv.ParseInt in base 10 with 64 bits\<close>

definition digit_val :: "char \<Rightarrow> nat option" where
  "digit_val c = (if is_digit c then Some (of_char c - 48) else None)"

text \<open>
  \<open>ParseUint\<close> reads digits left to right and stops at the first character that is no digit
  (\<open>ErrSyntax\<close>) or as soon as the value passes \<open>2^64 - 1\<close> (\<open>ErrRange\<close>).
\<close>

fun ParseUint_loop :: "nat \<Rightarrow> string \<Rightarrow> num_err + nat" where
  "ParseUint_loop n [] = Inr n"
| "ParseUint_loop n (c # cs) =
     (case digit_val c of
        None \<Rightarrow> Inl ErrSyntax
      | Some d \<Rightarrow> if 2 ^ 64 \<le> n * 10 + d then Inl ErrRange
                  else ParseUint_loop (n * 10 + d) cs)"

definition ParseUint :: "string \<Rightarrow> num_err + nat" where
  "ParseUint s = (if s = [] then Inl ErrSyntax else ParseUint_loop 0 s)"

definition ParseInt :: "string \<Rightarrow> num_error + s64" where
  "ParseInt s =
     (if s = [] then Inl (NumError s ErrSyntax)
      else
        let neg = (hd s = CHR ''-'');
            s' = (if hd s = CHR ''+'' \<or> hd s = CHR ''-'' then tl s else s)
        in case ParseUint s' of
             Inl e \<Rightarrow> Inl (NumError s e)
           | Inr un \<Rightarrow>
               if \<not> neg \<and> 2 ^ 63 \<le> un then Inl (NumError s ErrRange)
               else if neg \<and> 2 ^ 63 < un then Inl (NumError s ErrRange)
               else Inr (word_of_int (if neg then - int un else int un)))"

text \<open>The number a text of digits, or of an optional minus and digits, denotes.\<close>

definition dec_value :: "string \<Rightarrow> nat" where
  "dec_value s = foldl (\<lambda>n c. n * 10 + (of_char c - 48)) 0 s"

definition int_text :: "string \<Rightarrow> bool" where
  "int_text s \<longleftrightarrow>
     (case s of [] \<Rightarrow> False
      | c # cs \<Rightarrow> if c = CHR ''-'' then cs \<noteq> [] \<and> list_all is_digit cs
                  else list_all is_digit (c # cs))"

definition int_value :: "string \<Rightarrow> int" where
  "int_value s = (if s \<noteq> [] \<and> hd s = CHR ''-'' then - int (dec_value (tl s)) else int (dec_value s))"

definition in_int64 :: "int \<Rightarrow> bool" where
  "in_int64 i \<longleftrightarrow> - (2 ^ 63) \<le> i \<and> i < 2 ^ 63"

lemma digit_not_sign [simp]: "\<not> is_digit (CHR ''-'')" "\<not> is_digit (CHR ''+'')"
  by (simp_all add: is_digit_def)

lemma dec_loop_mono: "(n::nat) \<le> foldl (\<lambda>n c. n * 10 + (of_char c - 48)) n s"
proof (induction s arbitrary: n)
  case (Cons c s)
  have "n \<le> n * 10 + (of_char c - 48)" by simp
  also have "\<dots> \<le> foldl (\<lambda>n c. n * 10 + (of_char c - 48)) (n * 10 + (of_char c - 48)) s"
    by (rule Cons.IH)
  finally show ?case by simp
qed simp

lemma ParseUint_loop_digits:
  assumes "list_all is_digit s" and "n < 2 ^ 64"
  shows "ParseUint_loop n s =
    (let v = foldl (\<lambda>n c. n * 10 + (of_char c - 48)) n s
     in if v < 2 ^ 64 then Inr v else Inl ErrRange)"
  using assms
proof (induction s arbitrary: n)
  case (Cons c s)
  let ?n = "n * 10 + (of_char c - 48 :: nat)"
  show ?case
  proof (cases "2 ^ 64 \<le> ?n")
    case True
    then have "2 ^ 64 \<le> foldl (\<lambda>n c. n * 10 + (of_char c - 48)) ?n s"
      using dec_loop_mono le_trans by blast
    with True Cons.prems show ?thesis by (simp add: digit_val_def Let_def)
  next
    case False
    with Cons show ?thesis by (simp add: digit_val_def Let_def)
  qed
qed simp

lemma ParseUint_digits:
  assumes "list_all is_digit s" and "s \<noteq> []"
  shows "ParseUint s = (if dec_value s < 2 ^ 64 then Inr (dec_value s) else Inl ErrRange)"
  using ParseUint_loop_digits [OF assms(1), of 0] assms(2)
  by (simp add: ParseUint_def dec_value_def Let_def)

lemma ParseInt_text:
  assumes "int_text s"
  shows "ParseInt s = (if in_int64 (int_value s) then Inr (word_of_int (int_value s)) else Inl (NumError s ErrRange))"
proof (cases s)
  case Nil
  with assms show ?thesis by (simp add: int_text_def)
next
  case (Cons c cs)
  show ?thesis
  proof (cases "c = CHR ''-''")
    case True
    then have "list_all is_digit cs" "cs \<noteq> []" using assms Cons by (simp_all add: int_text_def)
    then show ?thesis
      using True Cons by (auto simp: ParseInt_def ParseUint_digits int_value_def in_int64_def)
  next
    case False
    then have d: "list_all is_digit (c # cs)" using assms Cons by (simp add: int_text_def)
    then have "c \<noteq> CHR ''+''" by auto
    then show ?thesis
      using False Cons ParseUint_digits [OF d]
      by (auto simp: ParseInt_def int_value_def in_int64_def)
  qed
qed

text \<open>Decimal printing, \<open>strconv.FormatInt(i, 10)\<close>, used to state round trips.\<close>

fun show_nat :: "nat \<Rightarrow> string" where
  "show_nat n = (if n < 10 then [char_of (48 + n)] else show_nat (n div 10) @ [char_of (48 + n mod 10)])"

declare show_nat.simps [simp del]

definition show_int :: "int \<Rightarrow> string" where
  "show_int i = (if i < 0 then CHR ''-'' # show_nat (nat (- i)) else show_nat (nat i))"

lemma digit_char: "d < 10 \<Longrightarrow> is_digit (char_of (48 + d :: nat)) \<and> (of_char (char_of (48 + d :: nat)) :: nat) = 48 + d"
  by (simp add: is_digit_def)

lemma show_nat_digits: "list_all is_digit (show_nat n) \<and> show_nat n \<noteq> [] \<and> dec_value (show_nat n) = n"
proof (induction n rule: show_nat.induct)
  case (1 n)
  show ?case
  proof (cases "n < 10")
    case True
    then show ?thesis using digit_char [of n]
      by (subst (1 2 3) show_nat.simps) (simp add: dec_value_def)
  next
    case False
    have "dec_value (show_nat (n div 10) @ [char_of (48 + n mod 10)]) = n div 10 * 10 + n mod 10"
      using 1 [OF False] digit_char [of "n mod 10"] by (simp add: dec_value_def)
    then show ?thesis using False 1 [OF False] digit_char [of "n mod 10"]
      by (subst (1 2 3) show_nat.simps) simp
  qed
qed

lemma show_int_text: "int_text (show_int i) \<and> int_value (show_int i) = i"
proof (cases "i < 0")
  case True
  then show ?thesis using show_nat_digits [of "nat (- i)"]
    by (simp add: show_int_def int_text_def int_value_def)
next
  case False
  obtain c cs where s: "show_nat (nat i) = c # cs"
    using show_nat_digits [of "nat i"] by (cases "show_nat (nat i)") auto
  then have "c \<noteq> CHR ''-''" using show_nat_digits [of "nat i"] by auto
  then show ?thesis using False s show_nat_digits [of "nat i"]
    by (simp add: show_int_def int_text_def int_value_def)
qed

subsection \<open>strings.TrimSpace\<close>

text \<open>
  The UTF-8 encodings of the runes \<open>unicode.IsSpace\<close> accepts: six ASCII characters, U+0085,
  U+00A0, U+1680, U+2000 to U+200A, U+2028, U+2029, U+202F, U+205F and U+3000. An encoding is
  recognised at either end of the string exactly where \<open>utf8.DecodeRune\<close> or
  \<open>utf8.DecodeLastRune\<close> finds the rune, since no encoding of a rune is a proper part of
  another's.
\<close>

definition space_encodings :: "string list" where
  "space_encodings = map (map char_of)
     [[9], [10], [11], [12], [13], [32 :: nat], [194, 133], [194, 160], [225, 154, 128],
      [226, 128, 128], [226, 128, 129], [226, 128, 130], [226, 128, 131], [226, 128, 132],
      [226, 128, 133], [226, 128, 134], [226, 128, 135], [226, 128, 136], [226, 128, 137],
      [226, 128, 138], [226, 128, 168], [226, 128, 169], [226, 128, 175], [226, 129, 159],
      [227, 128, 128]]"

definition enc_at :: "string \<Rightarrow> string \<Rightarrow> bool" where
  "enc_at s w \<longleftrightarrow> w \<noteq> [] \<and> take (length w) s = w"

function strip_front :: "string list \<Rightarrow> string \<Rightarrow> string" where
  "strip_front encs s =
     (case List.find (enc_at s) encs of
        None \<Rightarrow> s
      | Some w \<Rightarrow> strip_front encs (drop (length w) s))"
  by pat_completeness auto
termination
proof (relation "measure (\<lambda>(encs, s). length s)")
  fix encs s w
  assume "List.find (enc_at s) encs = Some w"
  then have w: "w \<noteq> []" "take (length w) s = w" by (auto simp: find_Some_iff enc_at_def)
  then have "s \<noteq> []" by auto
  with w(1) show "((encs, drop (length w) s), encs, s) \<in> measure (\<lambda>(encs, s). length s)"
    by (simp add: not_less)
qed simp

declare strip_front.simps [simp del]

definition TrimSpace :: "string \<Rightarrow> string" where
  "TrimSpace s = rev (strip_front (map rev space_encodings) (rev (strip_front space_encodings s)))"

definition is_ascii_space :: "char \<Rightarrow> bool" where
  "is_ascii_space c \<longleftrightarrow> (of_char c :: nat) \<in> {9, 10, 11, 12, 13, 32}"

text \<open>What the proofs use of the table, read in either direction.\<close>

definition space_table :: "string list \<Rightarrow> bool" where
  "space_table encs \<longleftrightarrow>
     (\<forall>w\<in>set encs. w \<noteq> [] \<and> (w = [hd w] \<and> is_ascii_space (hd w) \<or> \<not> ascii (hd w)))
     \<and> (\<forall>c. is_ascii_space c \<longrightarrow> [c] \<in> set encs)"

lemma is_ascii_space_cases:
  "is_ascii_space c \<longleftrightarrow> c \<in> {char_of (9::nat), char_of (10::nat), char_of (11::nat), char_of (12::nat),
     char_of (13::nat), char_of (32::nat)}"
proof
  assume "is_ascii_space c"
  then have "char_of (of_char c :: nat) \<in> char_of ` {9::nat, 10, 11, 12, 13, 32}"
    unfolding is_ascii_space_def by (rule imageI)
  then show "c \<in> {char_of (9::nat), char_of (10::nat), char_of (11::nat), char_of (12::nat),
     char_of (13::nat), char_of (32::nat)}" by simp
qed (auto simp: is_ascii_space_def)

lemma space_table_front: "space_table space_encodings"
  unfolding space_table_def is_ascii_space_cases
  by (simp add: space_encodings_def ascii_def)

lemma space_table_back: "space_table (map rev space_encodings)"
  unfolding space_table_def is_ascii_space_cases
  by (simp add: space_encodings_def ascii_def)

lemma enc_at_append: "enc_at u w \<Longrightarrow> enc_at (u @ v) w"
  by (auto simp: enc_at_def) (metis append_Nil2 diff_is_0_eq length_take min.cobounded1 take_0)

lemma strip_front_stop:
  assumes "space_table encs" and "s = [] \<or> ascii (hd s) \<and> \<not> is_ascii_space (hd s)"
  shows "strip_front encs s = s"
proof -
  have "List.find (enc_at s) encs = None"
    using assms by (cases s) (force simp: find_None_iff enc_at_def space_table_def neq_Nil_conv)+
  then show ?thesis by (simp add: strip_front.simps)
qed

lemma strip_front_space:
  assumes "space_table encs" and "is_ascii_space c"
  shows "strip_front encs (c # s) = strip_front encs s"
proof -
  have a: "ascii c" using assms(2) by (auto simp: is_ascii_space_def ascii_def)
  have "List.find (enc_at (c # s)) encs \<noteq> None"
    using assms by (auto simp: find_None_iff enc_at_def space_table_def)
  then obtain w where w: "List.find (enc_at (c # s)) encs = Some w" by auto
  then have e: "w \<in> set encs" "enc_at (c # s) w" by (auto simp: find_Some_iff)
  have "hd w = c" using e(2) by (cases w) (auto simp: enc_at_def)
  then have "w = [c]" using assms(1) a e(1) by (auto simp: space_table_def)
  with w show ?thesis by (subst strip_front.simps) simp
qed

lemma strip_front_spaces:
  "space_table encs \<Longrightarrow> list_all is_ascii_space ws \<Longrightarrow> strip_front encs (ws @ s) = strip_front encs s"
  by (induction ws) (simp_all add: strip_front_space)

lemma strip_front_suffix: "\<exists>p. s = p @ strip_front encs s"
proof (induction encs s rule: strip_front.induct)
  case (1 encs s)
  show ?case
  proof (cases "List.find (enc_at s) encs")
    case None
    then show ?thesis by (simp add: strip_front.simps)
  next
    case (Some w)
    from 1 [OF Some] obtain p where "drop (length w) s = p @ strip_front encs (drop (length w) s)" ..
    then have "s = (take (length w) s @ p) @ strip_front encs s"
      using Some by (metis append.assoc append_take_drop_id option.simps(5) strip_front.simps)
    then show ?thesis ..
  qed
qed

lemma strip_front_none: "List.find (enc_at (strip_front encs s)) encs = None"
proof (induction encs s rule: strip_front.induct)
  case (1 encs s)
  then show ?case
    by (cases "List.find (enc_at s) encs") (simp_all add: strip_front.simps [of encs s])
qed

lemma strip_front_id: "List.find (enc_at s) encs = None \<Longrightarrow> strip_front encs s = s"
  by (simp add: strip_front.simps)

lemma TrimSpace_stable:
  assumes "s \<noteq> []" and "ascii (hd s)" and "\<not> is_ascii_space (hd s)"
    and "ascii (last s)" and "\<not> is_ascii_space (last s)"
  shows "TrimSpace s = s"
proof -
  have "strip_front space_encodings s = s"
    using assms by (intro strip_front_stop space_table_front) simp
  moreover have "strip_front (map rev space_encodings) (rev s) = rev s"
    using assms by (intro strip_front_stop space_table_back) (simp add: hd_rev)
  ultimately show ?thesis by (simp add: TrimSpace_def)
qed

lemma TrimSpace_Nil [simp]: "TrimSpace [] = []"
  by (simp add: TrimSpace_def strip_front_stop space_table_front space_table_back)

lemma TrimSpace_idem [simp]: "TrimSpace (TrimSpace s) = TrimSpace s"
proof -
  define t where "t = strip_front space_encodings s"
  define u where "u = rev (strip_front (map rev space_encodings) (rev t))"
  obtain p where p: "rev t = p @ rev u"
    using strip_front_suffix [of "rev t" "map rev space_encodings"] by (auto simp: u_def)
  then have t: "t = u @ rev p" by (metis rev_append rev_rev_ident)
  have "List.find (enc_at t) space_encodings = None" by (simp add: t_def strip_front_none)
  then have "\<And>w. w \<in> set space_encodings \<Longrightarrow> \<not> enc_at t w" by (simp add: find_None_iff)
  moreover have "enc_at u w \<Longrightarrow> enc_at t w" for w
    by (simp add: t enc_at_append)
  ultimately have "List.find (enc_at u) space_encodings = None" by (auto simp: find_None_iff)
  then have "strip_front space_encodings u = u" by (rule strip_front_id)
  moreover have "strip_front (map rev space_encodings) (rev u) = rev u"
    by (simp add: u_def strip_front_id strip_front_none)
  ultimately show ?thesis by (simp add: TrimSpace_def t_def [symmetric] u_def [symmetric])
qed

lemma TrimSpace_pad:
  assumes "list_all is_ascii_space ws"
  shows "TrimSpace (ws @ s) = TrimSpace s"
  using assms by (simp add: TrimSpace_def strip_front_spaces space_table_front)

text \<open>Blanks around a text that starts and ends with a visible ASCII character go away.\<close>

lemma TrimSpace_around:
  assumes "list_all is_ascii_space u" "list_all is_ascii_space v" "s \<noteq> []"
    and "ascii (hd s)" "\<not> is_ascii_space (hd s)" "ascii (last s)" "\<not> is_ascii_space (last s)"
  shows "TrimSpace (u @ s @ v) = s"
proof -
  have "strip_front space_encodings (u @ s @ v) = s @ v"
    using assms strip_front_stop [OF space_table_front, of "s @ v"]
    by (simp add: strip_front_spaces space_table_front hd_append)
  moreover have "strip_front (map rev space_encodings) (rev v @ rev s) = rev s"
    using assms strip_front_stop [OF space_table_back, of "rev s"]
    by (simp add: strip_front_spaces space_table_back hd_rev)
  ultimately show ?thesis by (simp add: TrimSpace_def)
qed

end
