(* ===== verification/Utf8.thy ===== *)
theory Utf8
  imports Prelude
begin

section \<open>Runes: the loop \<open>for _, ch := range s\<close> and \<open>Builder.WriteRune\<close>\<close>

text \<open>
  Ranging over a Go string decodes UTF-8; a byte that starts no valid encoding yields
  U+FFFD and a step of one byte. \<open>WriteRune\<close> appends the encoding of a rune. Copying a
  string rune by rune is the identity on valid UTF-8 (\<open>copy_valid\<close>), and replaces each bad
  byte by three others otherwise.
\<close>

definition rune_error :: nat where
  "rune_error = 65533"

text \<open>The width of an encoding and the range of its second byte, from its first byte.\<close>

definition utf8_first :: "nat \<Rightarrow> (nat \<times> nat \<times> nat) option" where
  "utf8_first b =
     (if 194 \<le> b \<and> b \<le> 223 then Some (2, 128, 191)
      else if b = 224 then Some (3, 160, 191)
      else if b = 237 then Some (3, 128, 159)
      else if 225 \<le> b \<and> b \<le> 239 then Some (3, 128, 191)
      else if b = 240 then Some (4, 144, 191)
      else if b = 244 then Some (4, 128, 143)
      else if 241 \<le> b \<and> b \<le> 243 then Some (4, 128, 191)
      else None)"

definition cont_byte :: "nat \<Rightarrow> bool" where
  "cont_byte b \<longleftrightarrow> 128 \<le> b \<and> b \<le> 191"

definition decode_rune :: "nat list \<Rightarrow> nat \<times> nat" where
  "decode_rune bs =
     (case bs of [] \<Rightarrow> (rune_error, 0)
      | b0 # _ \<Rightarrow>
         if b0 < 128 then (b0, 1)
         else (case utf8_first b0 of
                 None \<Rightarrow> (rune_error, 1)
               | Some (n, lo, hi) \<Rightarrow>
                   if length bs < n then (rune_error, 1)
                   else if \<not> (lo \<le> bs ! 1 \<and> bs ! 1 \<le> hi) then (rune_error, 1)
                   else if n = 2 then ((b0 - 192) * 64 + (bs ! 1 - 128), 2)
                   else if \<not> cont_byte (bs ! 2) then (rune_error, 1)
                   else if n = 3 then
                     (((b0 - 224) * 64 + (bs ! 1 - 128)) * 64 + (bs ! 2 - 128), 3)
                   else if \<not> cont_byte (bs ! 3) then (rune_error, 1)
                   else ((((b0 - 240) * 64 + (bs ! 1 - 128)) * 64 + (bs ! 2 - 128)) * 64
                           + (bs ! 3 - 128), 4)))"

definition code_bytes :: "string \<Rightarrow> nat list" where
  "code_bytes s = map of_char s"

lemma decode_rune_width: "bs \<noteq> [] \<Longrightarrow> 0 < snd (decode_rune bs)"
  by (simp add: decode_rune_def split: list.splits option.splits)

function range_runes :: "string \<Rightarrow> nat list" where
  "range_runes [] = []"
| "range_runes (c # s) =
     (let (r, n) = decode_rune (code_bytes (c # s)) in r # range_runes (drop n (c # s)))"
  by pat_completeness auto
termination
proof (relation "measure length")
  fix c s x r n
  assume "x = decode_rune (code_bytes (c # s))" "(r, n) = x"
  then have "0 < n" using decode_rune_width [of "code_bytes (c # s)"]
    by (metis code_bytes_def list.distinct(1) list.simps(9) snd_conv)
  then show "(drop n (c # s), c # s) \<in> measure length" by simp
qed simp

definition write_rune :: "nat \<Rightarrow> string" where
  "write_rune r =
     map char_of
      (if r < 128 then [r]
       else if r < 2048 then [192 + r div 64, 128 + r mod 64]
       else if 1114111 < r \<or> (55296 \<le> r \<and> r \<le> 57343) then [239, 191, 189]
       else if r < 65536 then [224 + r div 4096, 128 + r div 64 mod 64, 128 + r mod 64]
       else [240 + r div 262144, 128 + r div 4096 mod 64, 128 + r div 64 mod 64, 128 + r mod 64])"

text \<open>A string is valid UTF-8 when the loop never falls back to the error rune of width one.\<close>

function valid_utf8 :: "string \<Rightarrow> bool" where
  "valid_utf8 [] = True"
| "valid_utf8 (c # s) =
     (let (r, n) = decode_rune (code_bytes (c # s))
      in (r, n) \<noteq> (rune_error, 1) \<and> valid_utf8 (drop n (c # s)))"
  by pat_completeness auto
termination
proof (relation "measure length")
  fix c s x r n
  assume "x = decode_rune (code_bytes (c # s))" "(r, n) = x"
  then have "0 < n" using decode_rune_width [of "code_bytes (c # s)"]
    by (metis code_bytes_def list.distinct(1) list.simps(9) snd_conv)
  then show "(drop n (c # s), c # s) \<in> measure length" by simp
qed simp

subsection \<open>ASCII strings\<close>

lemma decode_rune_ascii: "ascii c \<Longrightarrow> decode_rune (code_bytes (c # s)) = (of_char c, 1)"
  by (simp add: decode_rune_def code_bytes_def ascii_def)

lemma write_rune_ascii: "ascii c \<Longrightarrow> write_rune (of_char c) = [c]"
  by (simp add: write_rune_def ascii_def)

lemma range_runes_ascii_Cons: "ascii c \<Longrightarrow> range_runes (c # s) = of_char c # range_runes s"
  by (simp add: decode_rune_ascii)

lemma range_runes_ascii: "list_all ascii s \<Longrightarrow> range_runes s = map of_char s"
  by (induction s) (simp_all add: range_runes_ascii_Cons del: range_runes.simps(2))

text \<open>A byte outside ASCII leaves a rune outside ASCII, and such a rune is written so.\<close>

lemma decode_rune_nonascii:
  assumes "\<not> ascii c" and "decode_rune (code_bytes (c # s)) = (r, n)"
  shows "128 \<le> r"
proof -
  have "(128::nat) \<le> (b - 192) * 64 + x" if "194 \<le> b" for b x :: nat
    using that by simp
  moreover have "(128::nat) \<le> ((b - 224) * 64 + (x - 128)) * 64 + y"
    if "b = 224 \<and> 160 \<le> x \<or> 225 \<le> b" for b x y :: nat
    using that by auto
  moreover have "(128::nat) \<le> (((b - 240) * 64 + (x - 128)) * 64 + y) * 64 + z"
    if "b = 240 \<and> 144 \<le> x \<or> 241 \<le> b" for b x y z :: nat
    using that by auto
  ultimately show ?thesis
    using assms
    by (auto simp: decode_rune_def code_bytes_def ascii_def utf8_first_def rune_error_def
        split: if_splits)
qed

lemma range_runes_nonascii: "\<not> list_all ascii s \<Longrightarrow> \<exists>r\<in>set (range_runes s). 128 \<le> r"
proof (induction s rule: range_runes.induct)
  case (2 c s)
  obtain r n where d: "decode_rune (code_bytes (c # s)) = (r, n)" by fastforce
  show ?case
  proof (cases "ascii c")
    case True
    with 2(2) have "\<not> list_all ascii s" by simp
    then show ?thesis using 2(1) [OF refl, of "of_char c" 1] True
      by (simp add: decode_rune_ascii)
  next
    case False
    then have "128 \<le> r" using d by (rule decode_rune_nonascii)
    then show ?thesis using d by simp
  qed
qed simp

lemma write_rune_nonascii: "128 \<le> r \<Longrightarrow> \<exists>c\<in>set (write_rune r). \<not> ascii c"
proof -
  assume r: "128 \<le> r"
  have "\<not> ascii (char_of (128 + r mod 64))" by (simp add: ascii_def)
  moreover have "\<not> ascii (char_of (189::nat))" by (simp add: ascii_def)
  ultimately show ?thesis using r by (auto simp: write_rune_def)
qed

lemma write_rune_nonempty [simp]: "write_rune r \<noteq> []"
  by (simp add: write_rune_def)

subsection \<open>Copying valid UTF-8\<close>

lemma low_six_bits: "z < 64 \<Longrightarrow> (k * 64 + z) mod 64 = (z :: nat)"
  by simp

lemma write_two:
  assumes "2 \<le> x" "x < 32" "y < 64"
  shows "write_rune (x * 64 + y) = map char_of [192 + x, 128 + y]"
proof -
  have "(x * 64 + y) div 64 = x" "(x * 64 + y) mod 64 = y" using assms by simp_all
  with assms show ?thesis by (simp add: write_rune_def)
qed

lemma write_three:
  assumes "x < 16" "y < 64" "z < 64" "x = 0 \<Longrightarrow> 32 \<le> y" "x = 13 \<Longrightarrow> y < 32"
  shows "write_rune ((x * 64 + y) * 64 + z) = map char_of [224 + x, 128 + y, 128 + z]"
proof -
  let ?r = "(x * 64 + y) * 64 + z"
  have d: "?r div 4096 = x" "?r div 64 = x * 64 + y" using assms(1-3) by simp_all
  note m = low_six_bits [OF assms(3), of "x * 64 + y"] low_six_bits [OF assms(2), of x]
  have "2048 \<le> ?r" using assms(2-4) by (cases "x = 0") simp_all
  moreover have "?r < 65536" using assms(1-3) by simp
  moreover have "\<not> (55296 \<le> ?r \<and> ?r \<le> 57343)"
  proof -
    consider "x < 13" | "x = 13" | "13 < x" by linarith
    then show ?thesis using assms(2,3,5) by cases simp_all
  qed
  ultimately show ?thesis unfolding write_rune_def using d m assms by (simp only: if_False if_True simp_thms not_less) simp
qed

lemma write_four:
  assumes "x < 5" "y < 64" "z < 64" "w < 64" "x = 0 \<Longrightarrow> 16 \<le> y" "x = 4 \<Longrightarrow> y < 16"
  shows "write_rune (((x * 64 + y) * 64 + z) * 64 + w) =
    map char_of [240 + x, 128 + y, 128 + z, 128 + w]"
proof -
  let ?r = "((x * 64 + y) * 64 + z) * 64 + w"
  have d: "?r div 262144 = x" "?r div 4096 = x * 64 + y" "?r div 64 = (x * 64 + y) * 64 + z"
    using assms(1-4) by simp_all
  note m = low_six_bits [OF assms(4), of "(x * 64 + y) * 64 + z"]
    low_six_bits [OF assms(3), of "x * 64 + y"] low_six_bits [OF assms(2), of x]
  have "65536 \<le> ?r" using assms(2-5) by (cases "x = 0") simp_all
  moreover have "?r \<le> 1114111"
    using assms by (cases "x = 4") simp_all
  ultimately show ?thesis unfolding write_rune_def using d m assms by (simp only: if_False if_True simp_thms not_less) simp
qed

text \<open>What a decoding that is no error says of the bytes read.\<close>

lemma decode_two:
  assumes "decode_rune bs = (r, n)" "(r, n) \<noteq> (rune_error, 1)" "bs = b0 # bs'" "194 \<le> b0" "b0 \<le> 223"
  shows "\<exists>x y. 2 \<le> x \<and> x < 32 \<and> y < 64 \<and> n = 2 \<and> r = x * 64 + y \<and> take n bs = [192 + x, 128 + y]"
proof (intro exI)
  show "2 \<le> b0 - 192 \<and> b0 - 192 < 32 \<and> bs ! 1 - 128 < 64 \<and> n = 2
    \<and> r = (b0 - 192) * 64 + (bs ! 1 - 128) \<and> take n bs = [192 + (b0 - 192), 128 + (bs ! 1 - 128)]"
    using assms by (cases bs') (auto simp: decode_rune_def utf8_first_def split: if_splits)
qed

lemma decode_three:
  assumes "decode_rune bs = (r, n)" "(r, n) \<noteq> (rune_error, 1)" "bs = b0 # bs'" "224 \<le> b0" "b0 \<le> 239"
  shows "\<exists>x y z. x < 16 \<and> y < 64 \<and> z < 64 \<and> (x = 0 \<longrightarrow> 32 \<le> y) \<and> (x = 13 \<longrightarrow> y < 32) \<and> n = 3
    \<and> r = (x * 64 + y) * 64 + z \<and> take n bs = [224 + x, 128 + y, 128 + z]"
proof -
  have "3 \<le> length bs" using assms
    by (auto simp: decode_rune_def utf8_first_def not_less split: if_splits)
  then obtain b1 b2 bs2 where bs: "bs = [b0, b1, b2] @ bs2" using assms(3)
    by (cases bs'; cases "tl bs'") auto
  have h: "128 \<le> b1" "b1 \<le> 191" "cont_byte b2" "b0 = 224 \<longrightarrow> 160 \<le> b1" "b0 = 237 \<longrightarrow> b1 \<le> 159"
    and r: "n = 3" "r = ((b0 - 224) * 64 + (b1 - 128)) * 64 + (b2 - 128)"
    using assms(1,2,4,5) unfolding bs
    by (auto simp: decode_rune_def utf8_first_def split: if_splits)
  show ?thesis
    by (rule exI [of _ "b0 - 224"], rule exI [of _ "b1 - 128"], rule exI [of _ "b2 - 128"],
      intro conjI r) (use h assms(4,5) r(1) bs in \<open>auto simp: cont_byte_def\<close>)
qed

lemma decode_four:
  assumes "decode_rune bs = (r, n)" "(r, n) \<noteq> (rune_error, 1)" "bs = b0 # bs'" "240 \<le> b0"
  shows "\<exists>x y z w. x < 5 \<and> y < 64 \<and> z < 64 \<and> w < 64 \<and> (x = 0 \<longrightarrow> 16 \<le> y) \<and> (x = 4 \<longrightarrow> y < 16) \<and> n = 4
    \<and> r = ((x * 64 + y) * 64 + z) * 64 + w \<and> take n bs = [240 + x, 128 + y, 128 + z, 128 + w]"
proof -
  have "4 \<le> length bs" using assms
    by (auto simp: decode_rune_def utf8_first_def not_less split: if_splits)
  then obtain b1 b2 b3 bs3 where bs: "bs = [b0, b1, b2, b3] @ bs3" using assms(3)
    by (cases bs'; cases "tl bs'"; cases "tl (tl bs')") auto
  have h: "128 \<le> b1" "b1 \<le> 191" "cont_byte b2" "cont_byte b3" "b0 \<le> 244" "b0 = 240 \<longrightarrow> 144 \<le> b1"
    "b0 = 244 \<longrightarrow> b1 \<le> 143"
    and r: "n = 4" "r = (((b0 - 240) * 64 + (b1 - 128)) * 64 + (b2 - 128)) * 64 + (b3 - 128)"
    using assms(1,2,4) unfolding bs
    by (auto simp: decode_rune_def utf8_first_def numeral_3_eq_3 split: if_splits)
  show ?thesis
    by (rule exI [of _ "b0 - 240"], rule exI [of _ "b1 - 128"], rule exI [of _ "b2 - 128"],
      rule exI [of _ "b3 - 128"], intro conjI r) (use h assms(4) r(1) bs in \<open>auto simp: cont_byte_def\<close>)
qed

lemma decode_one:
  assumes "decode_rune bs = (r, n)" "(r, n) \<noteq> (rune_error, 1)" "bs = b0 # bs'" "b0 < 194"
  shows "n = 1 \<and> r = b0 \<and> b0 < 128"
  using assms by (auto simp: decode_rune_def utf8_first_def split: if_splits)

lemma write_decode_bytes:
  assumes d: "decode_rune bs = (r, n)" "(r, n) \<noteq> (rune_error, 1)" and b: "bs = b0 # bs'"
  shows "write_rune r = map char_of (take n bs)"
proof -
  consider "b0 < 194" | "194 \<le> b0" "b0 \<le> 223" | "224 \<le> b0" "b0 \<le> 239" | "240 \<le> b0" by linarith
  then show ?thesis
  proof cases
    case 1
    then show ?thesis using decode_one [OF d b] b by (simp add: write_rune_def)
  next
    case 2
    then show ?thesis using decode_two [OF d b] write_two by auto
  next
    case 3
    then obtain x y z where "x < 16" "y < 64" "z < 64" "x = 0 \<longrightarrow> 32 \<le> y" "x = 13 \<longrightarrow> y < 32"
      "r = (x * 64 + y) * 64 + z" "take n bs = [224 + x, 128 + y, 128 + z]"
      using decode_three [OF d b] by blast
    then show ?thesis using write_three [of x y z] by (simp only:)
  next
    case 4
    then obtain x y z w where "x < 5" "y < 64" "z < 64" "w < 64" "x = 0 \<longrightarrow> 16 \<le> y"
      "x = 4 \<longrightarrow> y < 16" "r = ((x * 64 + y) * 64 + z) * 64 + w"
      "take n bs = [240 + x, 128 + y, 128 + z, 128 + w]"
      using decode_four [OF d b] by blast
    then show ?thesis using write_four [of x y z w] by (simp only:)
  qed
qed

lemma write_decode_rune:
  assumes "decode_rune (code_bytes s) = (r, n)" "(r, n) \<noteq> (rune_error, 1)" "s \<noteq> []"
  shows "write_rune r = take n s"
proof -
  obtain c s' where "s = c # s'" using assms(3) by (cases s) auto
  then have "write_rune r = map char_of (take n (code_bytes s))"
    using write_decode_bytes [OF assms(1,2)] by (simp add: code_bytes_def)
  also have "\<dots> = take n s" by (simp add: code_bytes_def take_map comp_def)
  finally show ?thesis .
qed

lemma copy_valid: "valid_utf8 s \<Longrightarrow> concat (map write_rune (range_runes s)) = s"
proof (induction s rule: range_runes.induct)
  case (2 c s)
  obtain r n where d: "decode_rune (code_bytes (c # s)) = (r, n)" by fastforce
  with 2(2) have v: "(r, n) \<noteq> (rune_error, 1)" "valid_utf8 (drop n (c # s))" by simp_all
  have "write_rune r = take n (c # s)" using d v(1) by (rule write_decode_rune) simp
  moreover have "concat (map write_rune (range_runes (drop n (c # s)))) = drop n (c # s)"
    using 2(1) [OF d [symmetric] refl v(2)] .
  ultimately have "concat (map write_rune (range_runes (c # s))) = take n (c # s) @ drop n (c # s)"
    using d by simp
  then show ?case by simp
qed simp

end
