(* ===== verification/Go_Cmd.thy ===== *)
theory Go_Cmd
  imports Go_Std Utf8 "HOL-Library.AList"
begin

section \<open>The part of Go's standard library the command uses\<close>

text \<open>
  Packages \<open>flag\<close> (a \<open>FlagSet\<close> with string and boolean flags and \<open>ContinueOnError\<close>),
  \<open>text/tabwriter\<close> (minimal width 0, padding 2, pad character blank, no flags) and the verbs
  \<open>%x\<close>, \<open>%3d\<close>, \<open>%-9s\<close> of \<open>fmt\<close>.
\<close>

subsection \<open>Verbs of \<open>fmt\<close>\<close>

definition RuneCount :: "string \<Rightarrow> nat" where
  "RuneCount s = length (range_runes s)"

definition pad_left :: "nat \<Rightarrow> string \<Rightarrow> string" where
  "pad_left n s = replicate (n - RuneCount s) (CHR '' '') @ s"

definition pad_right :: "nat \<Rightarrow> string \<Rightarrow> string" where
  "pad_right n s = s @ replicate (n - RuneCount s) (CHR '' '')"

fun show_hex :: "nat \<Rightarrow> string" where
  "show_hex n = (if n < 16 then [''0123456789abcdef'' ! n]
     else show_hex (n div 16) @ [''0123456789abcdef'' ! (n mod 16)])"

declare show_hex.simps [simp del]

subsection \<open>Package \<open>flag\<close>\<close>

datatype flag_value = StringFlag string | BoolFlag bool

datatype flag_error =
    BadFlagSyntax string
  | NotDefined string
  | ErrHelp
  | NeedsArgument string
  | InvalidBool string string

definition ParseBool :: "string \<Rightarrow> bool option" where
  "ParseBool s =
     (if s \<in> {''1'', ''t'', ''T'', ''true'', ''TRUE'', ''True''} then Some True
      else if s \<in> {''0'', ''f'', ''F'', ''false'', ''FALSE'', ''False''} then Some False
      else None)"

text \<open>A flag's text after the minus signs, cut at the first equals sign.\<close>

definition cut_equals :: "string \<Rightarrow> string \<times> string option" where
  "cut_equals s =
     (let n = takeWhile (\<lambda>c. c \<noteq> CHR ''='') s
      in (n, if n = s then None else Some (drop (Suc (length n)) s)))"

text \<open>
  \<open>FlagSet.Parse\<close>: the values of the flags by name and the arguments left over.
\<close>

fun flag_Parse ::
  "(string \<times> flag_value) list \<Rightarrow> string list \<Rightarrow> flag_error + (string \<times> flag_value) list \<times> string list" where
  "flag_Parse formal [] = Inr (formal, [])"
| "flag_Parse formal (s # args) =
     (if length s < 2 \<or> hd s \<noteq> CHR ''-'' then Inr (formal, s # args)
      else if s = ''--'' then Inr (formal, args)
      else
        let name0 = drop (if s ! 1 = CHR ''-'' then 2 else 1) s
        in if name0 = [] \<or> hd name0 = CHR ''-'' \<or> hd name0 = CHR ''='' then Inl (BadFlagSyntax s)
           else let name = fst (cut_equals name0); given = snd (cut_equals name0)
           in case map_of formal name of
                None \<Rightarrow> Inl (if name = ''help'' \<or> name = ''h'' then ErrHelp else NotDefined name)
              | Some (BoolFlag _) \<Rightarrow>
                  (case given of
                     None \<Rightarrow> flag_Parse (AList.update name (BoolFlag True) formal) args
                   | Some v \<Rightarrow>
                       (case ParseBool v of
                          None \<Rightarrow> Inl (InvalidBool v name)
                        | Some b \<Rightarrow> flag_Parse (AList.update name (BoolFlag b) formal) args))
              | Some (StringFlag _) \<Rightarrow>
                  (case given of
                     Some v \<Rightarrow> flag_Parse (AList.update name (StringFlag v) formal) args
                   | None \<Rightarrow>
                       (case args of
                          [] \<Rightarrow> Inl (NeedsArgument name)
                        | v # args \<Rightarrow> flag_Parse (AList.update name (StringFlag v) formal) args)))"

subsection \<open>Package \<open>text/tabwriter\<close>\<close>

text \<open>
  A cell is its text and its width in runes. \<open>tw_lines\<close> are the buffered lines, \<open>tw_line\<close> the
  terminated cells of the last one, \<open>tw_cell\<close> the text of the open cell; \<open>tw_escapes\<close> counts the
  escaped stretches in it (their two delimiters, bytes 255, have no width) and \<open>tw_escaping\<close>
  says that one is open.
\<close>

type_synonym tw_cells = "(string \<times> int) list"

record tab_writer =
  tw_out :: string
  tw_lines :: "tw_cells list"
  tw_line :: tw_cells
  tw_cell :: string
  tw_escapes :: int
  tw_escaping :: bool

definition NewWriter :: tab_writer where
  "NewWriter = \<lparr>tw_out = [], tw_lines = [], tw_line = [], tw_cell = [], tw_escapes = 0, tw_escaping = False\<rparr>"

definition write_line :: "int list \<Rightarrow> tw_cells \<Rightarrow> string" where
  "write_line ws cells =
     concat (map (\<lambda>(j, text, n). text @ (if j < length ws then replicate (nat (ws ! j - n)) (CHR '' '') else []))
       (List.enumerate 0 cells))"

text \<open>
  \<open>format\<close>: the lines from the first one with a cell in column \<open>length ws\<close> (the last cell of a
  line is in no column) to the last one in a row get the width of the widest, plus the padding.
\<close>

definition in_column :: "nat \<Rightarrow> tw_cells \<Rightarrow> bool" where
  "in_column k l \<longleftrightarrow> Suc k < length l"

definition column_width :: "nat \<Rightarrow> tw_cells list \<Rightarrow> int" where
  "column_width k block = fold (\<lambda>l w. max (snd (l ! k) + 2) w) block 0"

lemma sum_list_dropWhile_le: "sum_list (map f (dropWhile P xs)) \<le> sum_list (map (f :: 'a \<Rightarrow> nat) xs)"
  by (induction xs) (auto intro: le_trans)

lemma sum_list_takeWhile_less:
  assumes "\<And>x. P x \<Longrightarrow> g x < (f x :: nat)" and "P x"
  shows "sum_list (map g (takeWhile P (x # xs))) < sum_list (map f (x # xs))"
proof -
  have "sum_list (map g (takeWhile P xs)) \<le> sum_list (map f xs)"
    by (induction xs) (auto intro!: add_le_mono less_imp_le [OF assms(1)])
  then show ?thesis using assms(1) [of x] assms(2) by (simp add: add_less_le_mono)
qed

function tw_format :: "int list \<Rightarrow> tw_cells list \<Rightarrow> string list" where
  "tw_format ws [] = []"
| "tw_format ws (l # ls) =
     (if in_column (length ws) l then
        tw_format (ws @ [column_width (length ws) (takeWhile (in_column (length ws)) (l # ls))])
          (takeWhile (in_column (length ws)) (l # ls))
        @ tw_format ws (dropWhile (in_column (length ws)) (l # ls))
      else write_line ws l # tw_format ws ls)"
  by pat_completeness auto

termination
proof (relation "measure (\<lambda>(ws, ls). sum_list (map (\<lambda>l. Suc (length l - length ws)) ls))")
  fix ws :: "int list" and l :: tw_cells and ls
  assume l: "in_column (length ws) l"
  have "Suc (length x - Suc (length ws)) < Suc (length x - length ws)" if "in_column (length ws) x" for x
    using that by (auto simp: in_column_def)
  from sum_list_takeWhile_less [of "in_column (length ws)" "\<lambda>x. Suc (length x - Suc (length ws))"
      "\<lambda>x. Suc (length x - length ws)", OF this l, of ls]
  show "((ws @ [column_width (length ws) (takeWhile (in_column (length ws)) (l # ls))],
      takeWhile (in_column (length ws)) (l # ls)), ws, l # ls)
    \<in> measure (\<lambda>(ws, ls). sum_list (map (\<lambda>l. Suc (length l - length ws)) ls))"
    by simp
  show "((ws, dropWhile (in_column (length ws)) (l # ls)), ws, l # ls)
    \<in> measure (\<lambda>(ws, ls). sum_list (map (\<lambda>l. Suc (length l - length ws)) ls))"
    using l sum_list_dropWhile_le [of "\<lambda>x. Suc (length x - length ws)" "in_column (length ws)" ls]
    by (simp add: less_Suc_eq_le)
qed auto

declare tw_format.simps(2) [simp del]

text \<open>The formatted lines, each but the last one ended; the buffer is empty afterwards.\<close>

definition tw_emit :: "tab_writer \<Rightarrow> tab_writer" where
  "tw_emit w =
     (let ls = tw_format [] (tw_lines w @ [tw_line w])
      in w\<lparr>tw_out := tw_out w @ concat (map (\<lambda>l. l @ [CHR 0x0A]) (butlast ls)) @ last ls,
           tw_lines := [], tw_line := [], tw_cell := [], tw_escapes := 0, tw_escaping := False\<rparr>)"

definition end_cell :: "tab_writer \<Rightarrow> tab_writer" where
  "end_cell w =
     w\<lparr>tw_line := tw_line w @ [(tw_cell w, int (RuneCount (tw_cell w)) - 2 * tw_escapes w)],
       tw_cell := [], tw_escapes := 0\<rparr>"

definition tw_step :: "char \<Rightarrow> tab_writer \<Rightarrow> tab_writer" where
  "tw_step c w =
     (if tw_escaping w then
        (let w = w\<lparr>tw_cell := tw_cell w @ [c]\<rparr>
         in if c = CHR 0xFF then w\<lparr>tw_escaping := False, tw_escapes := tw_escapes w + 1\<rparr> else w)
      else if c = CHR 0xFF then w\<lparr>tw_cell := tw_cell w @ [c], tw_escaping := True\<rparr>
      else if c = CHR 0x09 \<or> c = CHR 0x0B then end_cell w
      else if c = CHR 0x0A \<or> c = CHR 0x0C then
        (let w = end_cell w;
             single = (length (tw_line w) = 1);
             w = w\<lparr>tw_lines := tw_lines w @ [tw_line w], tw_line := []\<rparr>
         in if c = CHR 0x0C \<or> single then tw_emit w else w)
      else w\<lparr>tw_cell := tw_cell w @ [c]\<rparr>)"

definition tw_Write :: "string \<Rightarrow> tab_writer \<Rightarrow> tab_writer" where
  "tw_Write text w = fold tw_step text w"

definition tw_Flush :: "tab_writer \<Rightarrow> tab_writer" where
  "tw_Flush w =
     (let w = (if tw_cell w \<noteq> [] then
                 end_cell (if tw_escaping w then w\<lparr>tw_escapes := tw_escapes w + 1\<rparr> else w)
               else w)
      in tw_emit w)"

subsection \<open>Tables\<close>

text \<open>
  What the writer makes of a table: rows of the same number of cells, each cell ended by a tab
  and each row by a newline. Every column but the last is padded to its widest cell plus two.
\<close>

definition plain_cell :: "string \<Rightarrow> bool" where
  "plain_cell s \<longleftrightarrow> list_all (\<lambda>c. c \<notin> {CHR 0x09, CHR 0x0A, CHR 0x0B, CHR 0x0C, CHR 0xFF}) s"

fun tab_row :: "string list \<Rightarrow> string" where
  "tab_row [] = [CHR 0x0A]"
| "tab_row [c] = c @ [CHR 0x0A]"
| "tab_row (c # d # cs) = c @ CHR 0x09 # tab_row (d # cs)"

definition col_width :: "string list list \<Rightarrow> nat \<Rightarrow> nat" where
  "col_width rows j = Max ((\<lambda>r. RuneCount (r ! j)) ` set rows) + 2"

definition aligned :: "string list list \<Rightarrow> string list \<Rightarrow> string" where
  "aligned rows r = concat (map (\<lambda>j. pad_right (col_width rows j) (r ! j)) [0..<length r - 1]) @ last r"

definition table :: "string list list \<Rightarrow> string" where
  "table rows = concat (map (\<lambda>r. aligned rows r @ [CHR 0x0A]) rows)"

definition is_table :: "string list list \<Rightarrow> bool" where
  "is_table rows \<longleftrightarrow> rows \<noteq> [] \<and> (\<exists>n. list_all (\<lambda>r. length r = n + 2 \<and> list_all plain_cell r) rows)"

definition tw_idle :: "tab_writer \<Rightarrow> bool" where
  "tw_idle w \<longleftrightarrow> tw_cell w = [] \<and> tw_escapes w = 0 \<and> \<not> tw_escaping w"

definition cell_of :: "string \<Rightarrow> string \<times> int" where
  "cell_of c = (c, int (RuneCount c))"

lemma write_plain:
  "plain_cell c \<Longrightarrow> \<not> tw_escaping w \<Longrightarrow> fold tw_step c w = w\<lparr>tw_cell := tw_cell w @ c\<rparr>"
  by (induction c arbitrary: w) (simp_all add: plain_cell_def tw_step_def)

lemma write_cell:
  "plain_cell c \<Longrightarrow> tw_idle w \<Longrightarrow> end_cell (fold tw_step c w) = w\<lparr>tw_line := tw_line w @ [cell_of c]\<rparr>"
  by (simp add: tw_idle_def write_plain end_cell_def cell_of_def)

lemma write_row:
  assumes "list_all plain_cell r" "r \<noteq> []" "tw_idle w" "2 \<le> length (tw_line w) + length r"
  shows "tw_Write (tab_row r) w = w\<lparr>tw_lines := tw_lines w @ [tw_line w @ map cell_of r], tw_line := []\<rparr>"
  using assms
proof (induction r arbitrary: w rule: tab_row.induct)
  case (2 c)
  then have "\<not> tw_escaping (fold tw_step c w)" by (simp add: write_plain tw_idle_def)
  moreover have "tw_line w \<noteq> []" using 2 by auto
  ultimately show ?case using 2 by (simp add: tw_Write_def tw_step_def [of "CHR 0x0A"] write_cell Let_def)
next
  case (3 c d cs)
  then have "\<not> tw_escaping (fold tw_step c w)" by (simp add: write_plain tw_idle_def)
  then have "tw_Write (tab_row (c # d # cs)) w = tw_Write (tab_row (d # cs)) (w\<lparr>tw_line := tw_line w @ [cell_of c]\<rparr>)"
    using 3 by (simp add: tw_Write_def tw_step_def [of "CHR 0x09"] write_cell)
  moreover have "tw_idle (w\<lparr>tw_line := tw_line w @ [cell_of c]\<rparr>)" using 3 by (simp add: tw_idle_def)
  ultimately show ?case using 3 by simp
qed simp

lemma write_rows:
  assumes "list_all (\<lambda>r. 2 \<le> length r \<and> list_all plain_cell r) rows" "tw_idle w" "tw_line w = []"
  shows "tw_Write (concat (map tab_row rows)) w = w\<lparr>tw_lines := tw_lines w @ map (map cell_of) rows\<rparr>"
  using assms
proof (induction rows arbitrary: w)
  case (Cons r rows)
  then have "r \<noteq> []" by auto
  then have "tw_Write (tab_row r) w = w\<lparr>tw_lines := tw_lines w @ [map cell_of r], tw_line := []\<rparr>"
    using write_row [of r w] Cons.prems by simp
  moreover have "tw_idle (w\<lparr>tw_lines := tw_lines w @ [map cell_of r], tw_line := []\<rparr>)"
    using Cons.prems by (simp add: tw_idle_def)
  ultimately show ?case using Cons by (simp add: tw_Write_def)
qed (simp add: tw_Write_def)

lemma fold_max: "fold (\<lambda>x. max (f x)) xs (m :: int) = Max (insert m (f ` set xs))"
proof (induction xs arbitrary: m)
  case (Cons x xs)
  then show ?case by (cases "xs = []") (simp_all add: ac_simps)
qed simp

lemma column_width_eq:
  assumes "rows \<noteq> []" "list_all (\<lambda>r. j < length r) rows"
  shows "column_width j (map (map cell_of) rows) = int (col_width rows j)"
proof -
  let ?N = "(\<lambda>r. RuneCount (r ! j)) ` set rows"
  have "(\<lambda>l. snd (l ! j) + 2) ` set (map (map cell_of) rows) = (\<lambda>n. int n + 2) ` ?N"
    using assms(2) by (force simp: list_all_iff cell_of_def image_image)
  then have "column_width j (map (map cell_of) rows) = Max (insert 0 ((\<lambda>n. int n + 2) ` ?N))"
    unfolding column_width_def by (simp only: fold_max)
  also have "\<dots> = Max ((\<lambda>n. int n + 2) ` ?N)"
    using assms(1) by (auto simp: neq_Nil_conv max_def not_le dest!: iffD1 [OF Max_less_iff, rotated 2])
  also have "\<dots> = int (col_width rows j)"
    using assms(1) mono_Max_commute [of "\<lambda>n. int n + 2" ?N] by (simp add: col_width_def mono_def)
  finally show ?thesis .
qed

lemma tw_format_last_column:
  "list_all (\<lambda>l. \<not> in_column (length ws) l) ls \<Longrightarrow> tw_format ws ls = map (write_line ws) ls"
  by (induction ls) (simp_all add: tw_format.simps(2))

lemma tw_format_column:
  assumes "list_all (in_column (length ws)) ls" "ls \<noteq> []"
  shows "tw_format ws (ls @ rest) =
    (if list_all (\<lambda>l. \<not> in_column (length ws) l) (take 1 rest)
     then tw_format (ws @ [column_width (length ws) ls]) ls @ tw_format ws rest
     else tw_format ws (ls @ rest))"
proof (cases rest)
  case Nil
  then show ?thesis using assms by (cases ls) (simp_all add: tw_format.simps(2) list_all_iff takeWhile_eq_all_conv [THEN iffD2] dropWhile_eq_Nil_conv [THEN iffD2])
next
  case (Cons r rs)
  moreover have "takeWhile (in_column (length ws)) (ls @ r # rs) = ls \<and> dropWhile (in_column (length ws)) (ls @ r # rs) = r # rs"
    if "\<not> in_column (length ws) r"
    using assms(1) that by (induction ls) simp_all
  ultimately show ?thesis using assms by (cases ls) (simp_all add: tw_format.simps(2))
qed

lemma tw_format_uniform:
  assumes "list_all (\<lambda>l. length l = Suc n) ls" "length ws \<le> n"
  shows "tw_format ws ls = map (write_line (ws @ map (\<lambda>j. column_width j ls) [length ws..<n])) ls"
  using assms(2)
proof (induction "n - length ws" arbitrary: ws)
  case 0
  then show ?case using assms(1) by (simp add: tw_format_last_column list_all_iff in_column_def)
next
  case (Suc k)
  show ?case
  proof (cases "ls = []")
    case False
    have "length ws < n" using Suc by simp
    then have "list_all (in_column (length ws)) ls" using assms(1) by (simp add: list_all_iff in_column_def)
    then have "tw_format ws ls = tw_format (ws @ [column_width (length ws) ls]) ls"
      using tw_format_column [of ws ls "[]"] False by simp
    then show ?thesis using Suc by (simp add: upt_conv_Cons [of "length ws" n])
  qed simp
qed

lemma write_line_aligned:
  assumes "length r = Suc n"
  shows "write_line (map (\<lambda>j. int (col_width rows j)) [0..<n]) (map cell_of r) = aligned rows r"
proof -
  have "List.enumerate 0 (map cell_of r) = map (\<lambda>j. (j, cell_of (r ! j))) [0..<Suc n]"
    using assms by (auto intro!: nth_equalityI simp: nth_enumerate_eq simp del: upt_Suc)
  moreover have "last r = r ! n" using assms by (metis diff_Suc_1 last_conv_nth list.size(3) nat.distinct(1))
  ultimately show ?thesis
    using assms by (auto simp: write_line_def aligned_def cell_of_def pad_right_def nat_diff_distrib
        intro!: arg_cong [of _ _ concat])
qed

text \<open>A table written to a new writer and flushed.\<close>

lemma tabwriter_table:
  assumes "is_table rows"
  shows "tw_out (tw_Flush (tw_Write (concat (map tab_row rows)) NewWriter)) = table rows"
proof -
  obtain n where n: "rows \<noteq> []" "list_all (\<lambda>r. length r = n + 2 \<and> list_all plain_cell r) rows"
    using assms by (auto simp: is_table_def)
  define ls where "ls = map (map cell_of) rows"
  have "list_all (\<lambda>r. 2 \<le> length r \<and> list_all plain_cell r) rows" using n(2) by (auto simp: list_all_iff)
  then have w: "tw_Write (concat (map tab_row rows)) NewWriter = NewWriter\<lparr>tw_lines := ls\<rparr>"
    by (simp add: write_rows NewWriter_def tw_idle_def ls_def)
  have ls: "list_all (\<lambda>l. length l = Suc (Suc n)) ls" "ls \<noteq> []"
    using n by (auto simp: ls_def list_all_iff)
  then have "list_all (in_column 0) ls" by (simp add: list_all_iff in_column_def)
  then have "tw_format [] (ls @ [[]]) = tw_format [] ls @ [[]]"
    using tw_format_column [of "[]" ls "[[]]"] tw_format_column [of "[]" ls "[]"] ls(2)
    by (simp add: in_column_def tw_format.simps(2) write_line_def)
  moreover have "tw_format [] ls = map (aligned rows) rows"
  proof -
    have "column_width j ls = int (col_width rows j)" if "j \<in> set [0..<Suc n]" for j
      unfolding ls_def using n that by (intro column_width_eq) (auto simp: list_all_iff)
    then have m: "map (\<lambda>j. column_width j ls) [0..<Suc n] = map (\<lambda>j. int (col_width rows j)) [0..<Suc n]"
      by (rule map_cong [OF refl])
    have "tw_format [] ls = map (write_line (map (\<lambda>j. int (col_width rows j)) [0..<Suc n])) ls"
      using tw_format_uniform [OF ls(1), of "[]"] by (simp only: list.size append_Nil le0 m)
    then show ?thesis
      using n(2) write_line_aligned [of _ "Suc n" rows] by (simp add: ls_def list_all_iff del: upt_Suc)
  qed
  ultimately have "tw_out (tw_Flush (NewWriter\<lparr>tw_lines := ls\<rparr>)) = table rows"
    by (simp add: tw_Flush_def tw_emit_def NewWriter_def table_def comp_def)
  then show ?thesis by (simp only: w)
qed

end
