(* ===== verification/Error_Text.thy ===== *)
theory Error_Text
  imports Go_Cmd "HOL-Library.List_Lexorder" "HOL-Library.Char_ord"
begin

section \<open>What errors print: the methods \<open>Error\<close>\<close>

text \<open>
  The text of every error value, by the formats of \<open>errors.New\<close> and \<open>fmt.Errorf\<close> in \<open>args.go\<close>,
  \<open>attach.go\<close> and the loader, of \<open>NumError.Error\<close> in \<open>strconv\<close> and of \<open>errors.Join\<close>. An error of
  code outside the repository brings its text.
\<close>

definition nl :: string where
  "nl = [CHR 0x0A]"

definition tab :: string where
  "tab = [CHR 0x09]"

text \<open>\<open>strconv.Quote\<close> of printable ASCII: quotes and backslashes get a backslash.\<close>

definition quote_ascii :: "string \<Rightarrow> string" where
  "quote_ascii s =
     [CHR 0x22] @ concat (map (\<lambda>c. if c \<in> {CHR 0x22, CHR 0x5C} then [CHR 0x5C, c] else [c]) s) @ [CHR 0x22]"

fun num_err_text :: "num_err \<Rightarrow> string" where
  "num_err_text ErrSyntax = ''invalid syntax''"
| "num_err_text ErrRange = ''value out of range''"

fun num_error_text :: "num_error \<Rightarrow> string" where
  "num_error_text (NumError num err) =
     ''strconv.ParseInt: parsing '' @ quote_ascii num @ '': '' @ num_err_text err"

fun Error_text :: "go_error \<Rightarrow> string" where
  "Error_text EmptyArgument = ''empty argument string''"
| "Error_text (InvalidArgSize err) = ''invalid arg size: '' @ num_error_text err"
| "Error_text (InvalidMemoryOffset err) = ''invalid memory offset: '' @ num_error_text err"
| "Error_text (InvalidConstant err) = ''invalid constant value: '' @ num_error_text err"
| "Error_text (UnknownRegister regName) = ''unknown register: '' @ regName"
| "Error_text (UnrecognizedFormat argStr) = ''unrecognized argument format: '' @ argStr"
| "Error_text (TooManyArguments n) = ''too many arguments: '' @ show_nat n @ '' (max 12)''"
| "Error_text (ParseArgument i argStr err) =
     ''failed to parse argument '' @ show_nat i @ '' ('' @ argStr @ ''): '' @ Error_text err"
| "Error_text (StoreSpec provider name err) =
     ''store spec for '' @ provider @ '':'' @ name @ '': '' @ Error_text err"
| "Error_text (ProgsLength progs probes) =
     ''len(progs)='' @ show_nat progs @ '' != len(probes)='' @ show_nat probes"
| "Error_text (AttachProbe name location err) =
     ''attach probe '' @ name @ '' at 0x'' @ show_hex (unat location) @ '': '' @ Error_text err"
| "Error_text (LoadCollection err) = ''can'' @ [CHR 0x27] @ ''t load UsdtTest: '' @ Error_text err"
| "Error_text (Joined []) = []"
| "Error_text (Joined [err]) = Error_text err"
| "Error_text (Joined (err # errs)) = Error_text err @ nl @ Error_text (Joined errs)"
| "Error_text (ExternalError text) = text"

end
