(* ===== verification/Codec.thy ===== *)
theory Codec
  imports Prelude
begin

section \<open>Fixed-width codecs\<close>

text \<open>
  Little-endian integers as \<open>encoding/binary\<close> reads them and as amd64 and arm64 hold them in
  memory, and the interface \<open>fixed_codec\<close> that the layouts of the structs shared with the
  kernel and the note descriptors rest on: an encoder of a known width and a decoder that
  inverts it. \<open>array_codec\<close> lifts a codec to an array of a fixed number of elements.
\<close>

subsection \<open>Little-endian integers\<close>

definition word_to_bytes :: "'a::len word \<Rightarrow> bytes" where
  "word_to_bytes w = map (\<lambda>i. ucast (drop_bit (8 * i) w)) [0..<LENGTH('a) div 8]"

fun bytes_to_word :: "bytes \<Rightarrow> 'a::len word" where
  "bytes_to_word [] = 0"
| "bytes_to_word (b # bs) = ucast b OR push_bit 8 (bytes_to_word bs)"

lemma bit_bytes_to_word:
  "bit (bytes_to_word bs :: 'a::len word) i \<longleftrightarrow>
     i < LENGTH('a) \<and> i div 8 < length bs \<and> bit (bs ! (i div 8)) (i mod 8)"
proof (induction bs arbitrary: i)
  case (Cons b bs)
  have small: "bit b i \<Longrightarrow> i < 8" using bit_imp_le_length [of b i] by simp
  show ?case
  proof (cases "i < 8")
    case True
    then show ?thesis using small by (auto simp: bit_or_iff bit_push_bit_iff bit_ucast_iff)
  next
    case False
    then have "i div 8 = Suc ((i - 8) div 8)" "(i - 8) mod 8 = i mod 8"
      by (simp_all add: le_div_geq le_mod_geq)
    with False small Cons.IH [of "i - 8"] show ?thesis
      by (auto simp: bit_or_iff bit_push_bit_iff bit_ucast_iff)
  qed
qed simp

lemma length_word_to_bytes [simp]: "length (word_to_bytes (w :: 'a::len word)) = LENGTH('a) div 8"
  by (simp add: word_to_bytes_def)

lemma bytes_to_word_to_bytes:
  assumes "8 dvd LENGTH('a)"
  shows "bytes_to_word (word_to_bytes w) = (w :: 'a::len word)"
proof (rule bit_word_eqI)
  fix i assume i: "i < LENGTH('a)"
  then have "i div 8 < LENGTH('a) div 8" using assms by (auto elim!: dvdE)
  then show "bit (bytes_to_word (word_to_bytes w) :: 'a word) i = bit w i"
    using i by (simp add: bit_bytes_to_word word_to_bytes_def bit_ucast_iff bit_drop_bit_eq)
qed

subsection \<open>The codec interface\<close>

locale fixed_codec =
  fixes enc :: "'a \<Rightarrow> bytes"
    and dec :: "bytes \<Rightarrow> 'a"
    and width :: nat
    and wf :: "'a \<Rightarrow> bool"
  assumes enc_length: "wf x \<Longrightarrow> length (enc x) = width"
    and dec_enc: "wf x \<Longrightarrow> dec (enc x) = x"
begin

lemma dec_take: "wf x \<Longrightarrow> dec (take width (enc x @ r)) = x"
  using enc_length dec_enc by simp

lemma drop_enc: "wf x \<Longrightarrow> drop width (enc x @ r) = r"
  using enc_length by simp

lemma enc_inj: "wf x \<Longrightarrow> wf y \<Longrightarrow> enc x = enc y \<Longrightarrow> x = y"
  using dec_enc by metis

lemma length_concat_enc: "list_all wf xs \<Longrightarrow> length (concat (map enc xs)) = length xs * width"
  by (induction xs) (simp_all add: enc_length)

end

text \<open>The elements of an array of \<open>n\<close> cells of \<open>width\<close> bytes each.\<close>

definition decode_array :: "(bytes \<Rightarrow> 'a) \<Rightarrow> nat \<Rightarrow> nat \<Rightarrow> bytes \<Rightarrow> 'a list" where
  "decode_array dec width n bs = map (\<lambda>i. dec (take width (drop (i * width) bs))) [0..<n]"

lemma decode_array_Suc:
  "decode_array dec w (Suc n) bs = dec (take w bs) # decode_array dec w n (drop w bs)"
  by (simp add: decode_array_def upt_conv_Cons map_Suc_upt [symmetric] del: upt_Suc
      add: comp_def add.commute)

locale array_codec = fixed_codec +
  fixes n :: nat
begin

lemma decode_array_enc:
  "list_all wf xs \<Longrightarrow> decode_array dec width (length xs) (concat (map enc xs) @ r) = xs"
proof (induction xs)
  case Nil
  show ?case by (simp add: decode_array_def)
next
  case (Cons x xs)
  then show ?case using enc_length dec_enc by (simp add: decode_array_Suc)
qed

end

sublocale array_codec \<subseteq> arr: fixed_codec "\<lambda>xs. concat (map enc xs)" "decode_array dec width n"
  "n * width" "\<lambda>xs. length xs = n \<and> list_all wf xs"
proof
  fix xs :: "'a list"
  assume "length xs = n \<and> list_all wf xs"
  then show "length (concat (map enc xs)) = n * width"
    and "decode_array dec width n (concat (map enc xs)) = xs"
    using length_concat_enc decode_array_enc [of xs "[]"] by auto
qed

interpretation le16: fixed_codec "word_to_bytes :: u16 \<Rightarrow> bytes" bytes_to_word 2 "\<lambda>_. True"
  by unfold_locales (simp_all add: bytes_to_word_to_bytes)

interpretation le32: fixed_codec "word_to_bytes :: u32 \<Rightarrow> bytes" bytes_to_word 4 "\<lambda>_. True"
  by unfold_locales (simp_all add: bytes_to_word_to_bytes)

interpretation le64: fixed_codec "word_to_bytes :: u64 \<Rightarrow> bytes" bytes_to_word 8 "\<lambda>_. True"
  by unfold_locales (simp_all add: bytes_to_word_to_bytes)

end
