(* ===== verification/Types.thy ===== *)
theory Types
  imports Prelude
begin

section \<open>The shared types: \<open>types.go\<close> and \<open>probe.go\<close>\<close>

text \<open>
  The constants and structs of \<open>types.go\<close> (generated from \<open>types_def.go\<close> and
  \<open>ebpf/usdt_defs.h\<close>) and the probe record of \<open>probe.go\<close>. Struct fields keep their names;
  the two \<open>X_pad\<close> fields and the compiler's padding are kept, since \<open>SpecToBytes\<close> copies
  them.
\<close>

subsection \<open>Argument kinds and registers\<close>

definition ArgConst :: u32 where
  "ArgConst = 0"

definition ArgReg :: u32 where
  "ArgReg = 1"

definition ArgRegDeref :: u32 where
  "ArgRegDeref = 2"

definition RegNone :: u8 where
  "RegNone = 0"

definition RegRax :: u8 where
  "RegRax = 1"

definition RegRbx :: u8 where
  "RegRbx = 2"

definition RegRcx :: u8 where
  "RegRcx = 3"

definition RegRdx :: u8 where
  "RegRdx = 4"

definition RegRsi :: u8 where
  "RegRsi = 5"

definition RegRdi :: u8 where
  "RegRdi = 6"

definition RegRbp :: u8 where
  "RegRbp = 7"

definition RegRsp :: u8 where
  "RegRsp = 8"

definition RegR8 :: u8 where
  "RegR8 = 9"

definition RegR9 :: u8 where
  "RegR9 = 10"

definition RegR10 :: u8 where
  "RegR10 = 11"

definition RegR11 :: u8 where
  "RegR11 = 12"

definition RegR12 :: u8 where
  "RegR12 = 13"

definition RegR13 :: u8 where
  "RegR13 = 14"

definition RegR14 :: u8 where
  "RegR14 = 15"

definition RegR15 :: u8 where
  "RegR15 = 16"

definition RegRip :: u8 where
  "RegRip = 17"

definition RegX0 :: u8 where
  "RegX0 = 32"

definition RegX1 :: u8 where
  "RegX1 = 33"

definition RegX2 :: u8 where
  "RegX2 = 34"

definition RegX3 :: u8 where
  "RegX3 = 35"

definition RegX4 :: u8 where
  "RegX4 = 36"

definition RegX5 :: u8 where
  "RegX5 = 37"

definition RegX6 :: u8 where
  "RegX6 = 38"

definition RegX7 :: u8 where
  "RegX7 = 39"

definition RegX8 :: u8 where
  "RegX8 = 40"

definition RegX9 :: u8 where
  "RegX9 = 41"

definition RegX10 :: u8 where
  "RegX10 = 42"

definition RegX11 :: u8 where
  "RegX11 = 43"

definition RegX12 :: u8 where
  "RegX12 = 44"

definition RegX13 :: u8 where
  "RegX13 = 45"

definition RegX14 :: u8 where
  "RegX14 = 46"

definition RegX15 :: u8 where
  "RegX15 = 47"

definition RegX16 :: u8 where
  "RegX16 = 48"

definition RegX17 :: u8 where
  "RegX17 = 49"

definition RegX18 :: u8 where
  "RegX18 = 50"

definition RegX19 :: u8 where
  "RegX19 = 51"

definition RegX20 :: u8 where
  "RegX20 = 52"

definition RegX21 :: u8 where
  "RegX21 = 53"

definition RegX22 :: u8 where
  "RegX22 = 54"

definition RegX23 :: u8 where
  "RegX23 = 55"

definition RegX24 :: u8 where
  "RegX24 = 56"

definition RegX25 :: u8 where
  "RegX25 = 57"

definition RegX26 :: u8 where
  "RegX26 = 58"

definition RegX27 :: u8 where
  "RegX27 = 59"

definition RegX28 :: u8 where
  "RegX28 = 60"

definition RegX29 :: u8 where
  "RegX29 = 61"

definition RegX30 :: u8 where
  "RegX30 = 62"

definition RegSP :: u8 where
  "RegSP = 63"

definition RegPC :: u8 where
  "RegPC = 64"

lemmas arg_type_defs = ArgConst_def ArgReg_def ArgRegDeref_def

lemmas x86_reg_defs =
  RegRax_def RegRbx_def RegRcx_def RegRdx_def RegRsi_def RegRdi_def RegRbp_def RegRsp_def 
  RegR8_def RegR9_def RegR10_def RegR11_def RegR12_def RegR13_def RegR14_def RegR15_def 
  RegRip_def

lemmas arm_reg_defs =
  RegX0_def RegX1_def RegX2_def RegX3_def RegX4_def RegX5_def RegX6_def RegX7_def RegX8_def 
  RegX9_def RegX10_def RegX11_def RegX12_def RegX13_def RegX14_def RegX15_def RegX16_def 
  RegX17_def RegX18_def RegX19_def RegX20_def RegX21_def RegX22_def RegX23_def RegX24_def 
  RegX25_def RegX26_def RegX27_def RegX28_def RegX29_def RegX30_def RegSP_def RegPC_def

subsection \<open>Structs\<close>

lemma arg_types_differ [simp]: "ArgReg \<noteq> ArgConst" "ArgRegDeref \<noteq> ArgConst" "ArgRegDeref \<noteq> ArgReg"
  "ArgConst \<noteq> ArgReg" "ArgConst \<noteq> ArgRegDeref" "ArgReg \<noteq> ArgRegDeref"
  by (simp_all add: arg_type_defs)

record ArgSpec =
  Val_off :: u64
  Arg_type :: u32
  Reg_id :: u8
  Arg_signed :: bool
  Arg_bitshift :: s8
  Arg_is_float :: bool
  Arg_X_pad :: bytes
  Pad_cgo_0 :: bytes

record Spec =
  Args :: "ArgSpec list"
  Usdt_cookie :: u64
  Arg_cnt :: s16
  Spec_X_pad :: bytes

text \<open>The zero values \<open>ArgSpec{}\<close> and \<open>Spec{}\<close>: every field zero, arrays at their length.\<close>

definition zero_ArgSpec :: ArgSpec where
  "zero_ArgSpec = \<lparr>Val_off = 0, Arg_type = 0, Reg_id = 0, Arg_signed = False, Arg_bitshift = 0,
     Arg_is_float = False, Arg_X_pad = [0], Pad_cgo_0 = replicate 7 0\<rparr>"

definition zero_Spec :: Spec where
  "zero_Spec = \<lparr>Args = replicate 12 zero_ArgSpec, Usdt_cookie = 0, Arg_cnt = 0,
     Spec_X_pad = replicate 6 0\<rparr>"

text \<open>Go's array types fix the lengths; every value the package builds has them.\<close>

definition ArgSpec_wf :: "ArgSpec \<Rightarrow> bool" where
  "ArgSpec_wf a \<longleftrightarrow> length (Arg_X_pad a) = 1 \<and> length (Pad_cgo_0 a) = 7"

definition Spec_wf :: "Spec \<Rightarrow> bool" where
  "Spec_wf s \<longleftrightarrow> length (Args s) = 12 \<and> list_all ArgSpec_wf (Args s) \<and> length (Spec_X_pad s) = 6"

lemma zero_ArgSpec_wf [simp]: "ArgSpec_wf zero_ArgSpec"
  by (simp add: ArgSpec_wf_def zero_ArgSpec_def)

lemma zero_Spec_wf [simp]: "Spec_wf zero_Spec"
  by (simp add: Spec_wf_def zero_Spec_def list_all_iff)

record Probe =
  Provider :: string
  Name :: string
  Location :: u64
  Base :: u64
  SemaphoreOffset :: u64
  Arguments :: string

end
