(* ===== verification/Elf_Notes.thy ===== *)
theory Elf_Notes
  imports Elf_Parse
begin

section \<open>What \<open>ParseProbes\<close> reads: notes and their encoding\<close>

text \<open>
  The specification of the note loop. A \<open>Note\<close> is an owner, a type and a descriptor;
  \<open>encode_note\<close> is its encoding in a section and \<open>note_probes\<close> the probes it stands for.
  \<open>parse_notes_encoded\<close>: the loop reads back a sequence of encoded notes, also when the
  section is cut off in the middle of the last one. \<open>buildStapsdtNote\<close> is the note builder of
  \<open>elfparse_test.go\<close>, and \<open>stapsdt_desc\<close> the descriptor that systemtap's \<open>sdt.h\<close> emits.
\<close>

subsection \<open>No run-time panic\<close>

text \<open>The probes of a descriptor and of a note header, with the slices written out.\<close>

definition desc_probes :: "u64 \<Rightarrow> ELFProg list \<Rightarrow> bytes \<Rightarrow> Probe list" where
  "desc_probes b segs desc =
     (let noteBase = bytes_to_word (take 8 (drop 8 desc));
          (l, s) = prelink b noteBase (bytes_to_word (take 8 desc))
                     (bytes_to_word (take 8 (drop 16 desc)))
      in case split_nul (string_of_bytes (drop 24 desc)) of
           p # n # a # _ \<Rightarrow>
             [\<lparr>Provider = p, Name = n, Location = location_offset segs l, Base = noteBase,
               SemaphoreOffset = semaphore_offset segs s, Arguments = a\<rparr>]
         | _ \<Rightarrow> [])"

lemma parse_desc_eq:
  assumes "24 \<le> length desc"
  shows "parse_desc b segs desc = Some (desc_probes b segs desc)"
proof (cases "3 \<le> length (split_nul (string_of_bytes (drop 24 desc)))")
  case True
  then obtain p n a r where "split_nul (string_of_bytes (drop 24 desc)) = p # n # a # r"
    by (auto simp: numeral_3_eq_3 Suc_le_length_iff)
  then show ?thesis using assms
    by (simp add: parse_desc_def desc_probes_def in_bounds Let_def case_prod_beta)
next
  case False
  then have "desc_probes b segs desc = []"
    by (auto simp: desc_probes_def Let_def case_prod_beta split: list.split)
  then show ?thesis using assms False
    by (simp add: parse_desc_def in_bounds Let_def case_prod_beta)
qed

definition u32_at :: "nat \<Rightarrow> bytes \<Rightarrow> u32" where
  "u32_at i data = bytes_to_word (take 4 (drop i data))"

definition name_end :: "nat \<Rightarrow> bytes \<Rightarrow> nat" where
  "name_end i data = i + 12 + unat (align4 (u32_at i data))"

definition header_probes :: "u64 \<Rightarrow> ELFProg list \<Rightarrow> nat \<Rightarrow> bytes \<Rightarrow> Probe list" where
  "header_probes b segs i data =
     (let desc = take (unat (u32_at (i + 4) data)) (drop (name_end i data) data)
      in if u32_at (i + 8) data = 3 \<and> 24 \<le> length desc then desc_probes b segs desc else [])"

lemma parse_notes_eq:
  "parse_notes b segs data i probes =
     (if length data < i + 12 \<or>
         u32_at (i + 8) data = 3 \<and> length data < name_end i data + unat (u32_at (i + 4) data)
      then Some probes
      else parse_notes b segs data (name_end i data + unat (align4 (u32_at (i + 4) data)))
             (probes @ header_probes b segs i data))"
proof (cases "length data < i + 12")
  case True
  then show ?thesis by (subst parse_notes.simps) simp
next
  case False
  then show ?thesis
    by (subst parse_notes.simps)
      (auto simp: in_bounds Let_def parse_desc_eq name_end_def header_probes_def u32_at_def)
qed

lemma parse_notes_total: "\<exists>ps. parse_notes b segs data i probes = Some (probes @ ps)"
proof (induction "length data - i" arbitrary: i probes rule: less_induct)
  case less
  let ?j = "name_end i data + unat (align4 (u32_at (i + 4) data))"
  have "length data \<ge> i + 12 \<Longrightarrow> length data - ?j < length data - i"
    by (simp add: name_end_def)
  then have "length data \<ge> i + 12 \<Longrightarrow>
      \<exists>ps. parse_notes b segs data ?j (probes @ header_probes b segs i data) = Some (probes @ ps)"
    using less by (metis append_assoc)
  then show ?case by (subst parse_notes_eq) (auto simp del: append_assoc)
qed

lemma parse_notes_shift:
  "parse_notes b segs (pre @ data) (length pre + i) probes = parse_notes b segs data i probes"
proof (induction "length data - i" arbitrary: i probes rule: less_induct)
  case less
  let ?j = "name_end i data + unat (align4 (u32_at (i + 4) data))"
  have u: "u32_at (length pre + k) (pre @ data) = u32_at k data" for k by (simp add: u32_at_def)
  have e: "name_end (length pre + i) (pre @ data) = length pre + name_end i data"
    by (simp add: name_end_def u)
  have h: "header_probes b segs (length pre + i) (pre @ data) = header_probes b segs i data"
    by (simp add: header_probes_def e u add.assoc)
  have "length data \<ge> i + 12 \<Longrightarrow> length data - ?j < length data - i"
    by (simp add: name_end_def)
  then have "length data \<ge> i + 12 \<Longrightarrow>
      parse_notes b segs (pre @ data) (length pre + ?j) p = parse_notes b segs data ?j p" for p
    using less by blast
  then show ?case
    by (subst (1 2) parse_notes_eq) (auto simp: u e h add.assoc)
qed

subsection \<open>Encoded notes\<close>

record Note =
  Owner :: bytes
  Note_type :: u32
  Desc :: bytes

definition note_wf :: "Note \<Rightarrow> bool" where
  "note_wf n \<longleftrightarrow> length (Owner n) + 3 < 2 ^ 32 \<and> length (Desc n) + 3 < 2 ^ 32"

definition padded :: "bytes \<Rightarrow> bytes" where
  "padded bs = bs @ replicate (pad4 (length bs) - length bs) 0"

definition encode_note :: "Note \<Rightarrow> bytes" where
  "encode_note n =
     word_to_bytes (of_nat (length (Owner n)) :: u32)
     @ word_to_bytes (of_nat (length (Desc n)) :: u32)
     @ word_to_bytes (Note_type n) @ padded (Owner n) @ padded (Desc n)"

definition note_probes :: "u64 \<Rightarrow> ELFProg list \<Rightarrow> Note \<Rightarrow> Probe list" where
  "note_probes b segs n =
     (if Note_type n = 3 \<and> 24 \<le> length (Desc n) then desc_probes b segs (Desc n) else [])"

text \<open>The end of the descriptor, without its padding.\<close>

definition desc_end :: "Note \<Rightarrow> nat" where
  "desc_end n = 12 + pad4 (length (Owner n)) + length (Desc n)"

lemma length_padded [simp]: "length (padded bs) = pad4 (length bs)"
  using pad4_ge by (simp add: padded_def)

lemma take_padded: "take (length bs) (padded bs @ r) = bs"
  by (simp add: padded_def)

lemma length_encode_note: "length (encode_note n) = 12 + pad4 (length (Owner n)) + pad4 (length (Desc n))"
  by (simp add: encode_note_def)

lemma desc_end_le: "desc_end n \<le> length (encode_note n)"
  using pad4_ge [of "length (Desc n)"] by (simp add: desc_end_def length_encode_note)

lemma encode_note_fields:
  "u32_at 0 (encode_note n) = of_nat (length (Owner n))"
  "u32_at 4 (encode_note n) = of_nat (length (Desc n))"
  "u32_at 8 (encode_note n) = Note_type n"
  "take (length (Desc n)) (drop (12 + pad4 (length (Owner n))) (encode_note n)) = Desc n"
proof -
  define a where "a = word_to_bytes (of_nat (length (Owner n)) :: u32)"
  define d where "d = word_to_bytes (of_nat (length (Desc n)) :: u32)"
  define t where "t = word_to_bytes (Note_type n)"
  have l: "length a = 4" "length d = 4" "length t = 4" by (simp_all add: a_def d_def t_def)
  have e: "encode_note n = a @ d @ t @ padded (Owner n) @ padded (Desc n)"
    by (simp add: encode_note_def a_def d_def t_def)
  have v: "bytes_to_word a = (of_nat (length (Owner n)) :: u32)"
    "bytes_to_word d = (of_nat (length (Desc n)) :: u32)" "bytes_to_word t = Note_type n"
    by (simp_all add: a_def d_def t_def le32.dec_enc)
  show "u32_at 0 (encode_note n) = of_nat (length (Owner n))"
    "u32_at 4 (encode_note n) = of_nat (length (Desc n))"
    "u32_at 8 (encode_note n) = Note_type n"
    using l v by (simp_all add: u32_at_def e)
  show "take (length (Desc n)) (drop (12 + pad4 (length (Owner n))) (encode_note n)) = Desc n"
    using l take_padded [of "Desc n" "[]"] by (simp add: e)
qed

lemma u32_at_take: "take j m = take j m' \<Longrightarrow> i + 4 \<le> j \<Longrightarrow> u32_at i m = u32_at i m'"
  by (metis (no_types, opaque_lifting) add.commute min.absorb1 take_drop take_take u32_at_def)

text \<open>One round of the loop on a section that starts with the first \<open>j\<close> bytes of a note.\<close>

lemma parse_note_prefix:
  assumes "note_wf n" and m: "take j m = take j (encode_note n)" and "12 \<le> j" "12 \<le> length m"
    and complete: "desc_end n \<le> length m \<Longrightarrow> desc_end n \<le> j"
  shows "parse_notes b segs m 0 probes =
    (if Note_type n = 3 \<and> length m < desc_end n then Some probes
     else parse_notes b segs m (length (encode_note n))
            (probes @ (if desc_end n \<le> length m then note_probes b segs n else [])))"
proof -
  have u: "u32_at 0 m = of_nat (length (Owner n))" "u32_at 4 m = of_nat (length (Desc n))"
    "u32_at 8 m = Note_type n"
    using u32_at_take [OF m] \<open>12 \<le> j\<close> by (simp_all add: encode_note_fields)
  have len: "unat (of_nat (length (Desc n)) :: u32) = length (Desc n)"
    using assms(1) by (simp add: note_wf_def unat_of_nat)
  have ne: "name_end 0 m = 12 + pad4 (length (Owner n))"
    "unat (align4 (of_nat (length (Desc n)))) = pad4 (length (Desc n))"
    using assms(1) by (simp_all add: name_end_def u unat_align4 note_wf_def)
  have "take (length (Desc n)) (drop (12 + pad4 (length (Owner n))) m) = Desc n"
    if "desc_end n \<le> length m"
  proof -
    have "take (length (Desc n)) (drop (12 + pad4 (length (Owner n))) m)
      = drop (12 + pad4 (length (Owner n))) (take (desc_end n) (take j m))"
      using complete [OF that] by (simp add: desc_end_def take_drop min_def add.commute)
    also have "\<dots> = Desc n"
      using complete [OF that] encode_note_fields(4) [of n]
      by (simp add: m desc_end_def take_drop min_def add.commute)
    finally show ?thesis .
  qed
  then have "header_probes b segs 0 m = note_probes b segs n" if "desc_end n \<le> length m"
    using that by (auto simp: header_probes_def note_probes_def u ne len Let_def)
  moreover have "header_probes b segs 0 m = []" if "Note_type n \<noteq> 3"
    using that by (simp add: header_probes_def u Let_def)
  ultimately show ?thesis
    using \<open>12 \<le> length m\<close>
    by (subst parse_notes_eq) (auto simp: u ne len length_encode_note desc_end_def note_probes_def)
qed

lemma parse_note:
  assumes "note_wf n"
  shows "parse_notes b segs (encode_note n @ rest) 0 probes =
    parse_notes b segs rest 0 (probes @ note_probes b segs n)"
proof -
  have "12 \<le> length (encode_note n)" by (simp add: length_encode_note)
  then show ?thesis
    using parse_note_prefix [OF assms, of "length (encode_note n)" "encode_note n @ rest"]
      desc_end_le [of n] parse_notes_shift [of b segs "encode_note n" rest 0]
    by simp
qed

lemma parse_notes_end: "length data \<le> i \<Longrightarrow> parse_notes b segs data i probes = Some probes"
  by (subst parse_notes.simps) simp

lemma parse_note_cut:
  assumes "note_wf n"
  shows "parse_notes b segs (take k (encode_note n)) 0 probes =
    Some (probes @ (if desc_end n \<le> k then note_probes b segs n else []))"
proof (cases "k < 12")
  case True
  then have "length (take k (encode_note n)) < 0 + 12" by simp
  then show ?thesis using True by (subst parse_notes_eq) (simp add: desc_end_def)
next
  case False
  have e: "desc_end n \<le> length (take k (encode_note n)) \<longleftrightarrow> desc_end n \<le> k"
    using desc_end_le [of n] by simp
  have "12 \<le> length (take k (encode_note n))" using False by (simp add: length_encode_note)
  then show ?thesis
    using parse_note_prefix [OF assms, of k "take k (encode_note n)"] False e desc_end_le [of n]
    by (auto simp: parse_notes_end not_le min_def)
qed

theorem parse_notes_encoded:
  assumes "list_all note_wf ns" and "note_wf n"
  shows "parse_notes b segs (concat (map encode_note ns) @ take k (encode_note n)) 0 probes =
    Some (probes @ concat (map (note_probes b segs) ns)
          @ (if desc_end n \<le> k then note_probes b segs n else []))"
  using assms(1)
proof (induction ns arbitrary: probes)
  case Nil
  show ?case using parse_note_cut [OF assms(2)] by simp
next
  case (Cons m ms)
  then show ?case by (simp add: parse_note)
qed

subsection \<open>The descriptor of a probe\<close>

text \<open>
  Addresses are \<open>location\<close>, \<open>base\<close> and \<open>semaphore\<close> of the note; the strings hold no NUL.
  Systemtap ends the arguments with a NUL; bytes after it are ignored.
\<close>

definition stapsdt_desc :: "u64 \<Rightarrow> u64 \<Rightarrow> u64 \<Rightarrow> string \<Rightarrow> string \<Rightarrow> string \<Rightarrow> bytes" where
  "stapsdt_desc location base semaphore provider name args =
     word_to_bytes location @ word_to_bytes base @ word_to_bytes semaphore
     @ bytes_of_string (provider @ CHR 0x00 # name @ CHR 0x00 # args @ [CHR 0x00])"

definition no_nul :: "string \<Rightarrow> bool" where
  "no_nul s \<longleftrightarrow> CHR 0x00 \<notin> set s"

definition located :: "u64 \<Rightarrow> ELFProg list \<Rightarrow> u64 \<Rightarrow> u64 \<Rightarrow> u64 \<Rightarrow> string \<Rightarrow> string \<Rightarrow> string \<Rightarrow> Probe" where
  "located baseAddr segs location base semaphore provider name args =
     (let (l, s) = prelink baseAddr base location semaphore
      in \<lparr>Provider = provider, Name = name, Location = location_offset segs l, Base = base,
          SemaphoreOffset = semaphore_offset segs s, Arguments = args\<rparr>)"

lemma stapsdt_desc_fields:
  "take 8 (stapsdt_desc l b s p n a @ x) = word_to_bytes l"
  "take 8 (drop 8 (stapsdt_desc l b s p n a @ x)) = word_to_bytes b"
  "take 8 (drop 16 (stapsdt_desc l b s p n a @ x)) = word_to_bytes s"
  "drop 24 (stapsdt_desc l b s p n a @ x) =
     bytes_of_string (p @ CHR 0x00 # n @ CHR 0x00 # a @ [CHR 0x00]) @ x"
  by (simp_all add: stapsdt_desc_def)

lemma length_stapsdt_desc:
  "length (stapsdt_desc l b s p n a) = 27 + length p + length n + length a"
  by (simp add: stapsdt_desc_def)

lemma desc_probes_stapsdt:
  assumes "no_nul p" "no_nul n" "no_nul a"
  shows "desc_probes baseAddr segs (stapsdt_desc l b s p n a @ x) = [located baseAddr segs l b s p n a]"
proof -
  have "split_nul (string_of_bytes (drop 24 (stapsdt_desc l b s p n a @ x)))
    = p # n # a # split_nul (string_of_bytes x)"
    unfolding stapsdt_desc_fields
    using assms by (simp add: string_of_bytes_append split_nul_plain no_nul_def)
  then show ?thesis
    unfolding desc_probes_def located_def stapsdt_desc_fields le64.dec_enc [simplified]
    by (simp add: Let_def case_prod_beta)
qed

text \<open>\<open>buildStapsdtNote\<close> of \<open>elfparse_test.go\<close>.\<close>

definition buildStapsdtNote :: "u64 \<Rightarrow> u64 \<Rightarrow> u64 \<Rightarrow> string \<Rightarrow> string \<Rightarrow> string \<Rightarrow> bytes" where
  "buildStapsdtNote location base semaphore provider name args =
     (let owner = bytes_of_string (''stapsdt'' @ [CHR 0x00]);
          desc = word_to_bytes location @ word_to_bytes base @ word_to_bytes semaphore
            @ bytes_of_string (provider @ [CHR 0x00] @ name @ [CHR 0x00] @ args @ [CHR 0x00]);
          hdr = word_to_bytes (of_nat (length owner) :: u32)
            @ word_to_bytes (of_nat (length desc) :: u32) @ word_to_bytes (3 :: u32);
          note = hdr @ owner @ desc
      in note @ replicate ((4 - length note mod 4) mod 4) 0)"

lemma pad4_diff: "pad4 n - n = (4 - n mod 4) mod 4"
proof -
  obtain q r where n: "n = 4 * q + r" and "r < 4"
    by (metis mod_less_divisor mult_div_mod_eq zero_less_numeral)
  moreover have "n mod 4 = r" "pad4 n = 4 * q + pad4 r"
    using \<open>r < 4\<close> by (simp_all add: n pad4_def add.assoc)
  moreover have "r \<in> {0, 1, 2, 3}" using \<open>r < 4\<close> by auto
  ultimately show ?thesis by (auto simp: pad4_def)
qed

lemma buildStapsdtNote_eq:
  "buildStapsdtNote l b s p n a =
     encode_note \<lparr>Owner = bytes_of_string (''stapsdt'' @ [CHR 0x00]), Note_type = 3,
                  Desc = stapsdt_desc l b s p n a\<rparr>"
proof -
  have m: "(20 + k) mod 4 = k mod (4 :: nat)" for k
    using mod_mult_self2 [of k 4 5] by (simp add: add.commute)
  have p: "pad4 8 = 8" by (simp add: pad4_def)
  have d: "word_to_bytes l @ word_to_bytes b @ word_to_bytes s
    @ bytes_of_string (p @ [CHR 0x00] @ n @ [CHR 0x00] @ a @ [CHR 0x00]) = stapsdt_desc l b s p n a"
    by (simp add: stapsdt_desc_def)
  show ?thesis
    unfolding buildStapsdtNote_def Let_def d
    by (simp add: encode_note_def padded_def pad4_diff m p)
qed

end
