(* ===== verification/Elf_Reader.thy ===== *)
theory Elf_Reader
  imports Elf_Notes
begin

section \<open>ELF readers: the interface and \<open>elfreader.go\<close>\<close>

text \<open>
  \<^term>\<open>elf_reader\<close> is the contract of the interface \<open>ELFReader\<close>: what \<open>Sections\<close> and
  \<open>LoadSegments\<close> return for a file with given headers. \<open>ParseProbes\<close> is specified under it
  once (\<open>file_probes\<close>) and \<open>StdlibELFReader\<close> interprets it. The second half is the reader's
  life cycle: the open files are explicit state, \<open>elf.NewFile\<close> is a parameter.
\<close>

subsection \<open>The interface\<close>

text \<open>A section header of the file: name, address, and what reading its contents gives.\<close>

record section_header =
  hdr_Name :: string
  hdr_Addr :: u64
  hdr_Contents :: "go_error + bytes"

record program_header =
  prog_Type :: u32
  prog_Vaddr :: u64
  prog_Memsz :: u64
  prog_Off :: u64

definition needed :: "string \<Rightarrow> bool" where
  "needed name \<longleftrightarrow> name = ''.note.stapsdt'' \<or> name = ''.stapsdt.base''"

definition PT_LOAD :: u32 where
  "PT_LOAD = 1"

definition load_segment :: "program_header \<Rightarrow> ELFProg" where
  "load_segment p = \<lparr>Vaddr = prog_Vaddr p, Memsz = prog_Memsz p, Off = prog_Off p\<rparr>"

definition describes :: "section_header \<Rightarrow> ELFSection \<Rightarrow> bool" where
  "describes h s \<longleftrightarrow> sec_Name s = hdr_Name h \<and> sec_Addr s = hdr_Addr h
     \<and> (needed (hdr_Name h) \<longrightarrow> (\<exists>data. hdr_Contents h = Inr data \<and> sec_Data s = Some data))"

text \<open>
  What parsing a file must give: the notes of the last section named \<open>.note.stapsdt\<close>, adjusted
  by the address of the last section named \<open>.stapsdt.base\<close>; an error when one of them cannot
  be read.
\<close>

definition named :: "string \<Rightarrow> section_header list \<Rightarrow> section_header option" where
  "named name hs = List.find (\<lambda>h. hdr_Name h = name) (rev hs)"

definition unreadable :: "section_header list \<Rightarrow> go_error option" where
  "unreadable hs =
     (case List.find (\<lambda>h. needed (hdr_Name h) \<and> isl (hdr_Contents h)) hs of
        None \<Rightarrow> None | Some h \<Rightarrow> Some (projl (hdr_Contents h)))"

definition base_address :: "section_header list \<Rightarrow> u64" where
  "base_address hs = (case named ''.stapsdt.base'' hs of None \<Rightarrow> 0 | Some h \<Rightarrow> hdr_Addr h)"

definition load_segments :: "program_header list \<Rightarrow> ELFProg list" where
  "load_segments ps = map load_segment (filter (\<lambda>p. prog_Type p = PT_LOAD) ps)"

definition file_probes ::
  "section_header list \<Rightarrow> program_header list \<Rightarrow> (go_error + Probe list) option" where
  "file_probes hs ps =
     (case unreadable hs of
        Some err \<Rightarrow> Some (Inl err)
      | None \<Rightarrow>
          (case named ''.note.stapsdt'' hs of
             None \<Rightarrow> Some (Inr [])
           | Some h \<Rightarrow> map_option Inr
               (parse_notes (base_address hs) (load_segments ps) (projr (hdr_Contents h)) 0 [])))"

locale elf_reader =
  fixes Sections :: "'r \<Rightarrow> go_error + ELFSection list"
    and LoadSegments :: "'r \<Rightarrow> ELFProg list"
    and headers :: "'r \<Rightarrow> section_header list"
    and programs :: "'r \<Rightarrow> program_header list"
  assumes sections_err: "unreadable (headers r) = Some err \<Longrightarrow> Sections r = Inl err"
    and sections_ok: "unreadable (headers r) = None \<Longrightarrow>
      \<exists>secs. Sections r = Inr secs \<and> list_all2 describes (headers r) secs"
    and segments: "LoadSegments r = load_segments (programs r)"

lemma scan_sections:
  assumes "list_all2 describes hs secs"
  shows "fold scan_section secs (None, 0) =
    ((case named ''.note.stapsdt'' hs of None \<Rightarrow> None | Some h \<Rightarrow> Some (projr (hdr_Contents h))),
     base_address hs)"
  using assms
proof (induction hs arbitrary: secs rule: rev_induct)
  case Nil
  then show ?case by (simp add: named_def base_address_def)
next
  case (snoc h hs)
  then obtain ss s where secs: "secs = ss @ [s]" and s: "describes h s" and ss: "list_all2 describes hs ss"
    by (auto simp: list_all2_append1 list_all2_Cons1)
  show ?case
    using snoc.IH [OF ss] s
    by (auto simp: secs scan_section_def describes_def needed_def named_def base_address_def)
qed

context elf_reader
begin

lemma ParseProbes_file: "ParseProbes Sections LoadSegments r = file_probes (headers r) (programs r)"
proof (cases "unreadable (headers r)")
  case None
  then obtain secs where s: "Sections r = Inr secs" and d: "list_all2 describes (headers r) secs"
    using sections_ok by blast
  show ?thesis
    using None by (simp add: ParseProbes_def s probes_of_def scan_sections [OF d] file_probes_def segments
        split: option.split)
next
  case (Some err)
  then show ?thesis by (simp add: ParseProbes_def file_probes_def sections_err)
qed

end

subsection \<open>\<open>StdlibELFReader\<close>\<close>

text \<open>
  The fields the package reads of an \<open>elf.File\<close>; \<open>hdr_Contents\<close> is the result of
  \<open>io.ReadAll(s.Open())\<close>, whose slice is never nil. A file handle is a number.
\<close>

record elf_File =
  file_Sections :: "section_header list"
  file_Progs :: "program_header list"

record StdlibELFReader =
  rd_f :: elf_File
  closer :: "nat option"

fun read_sections :: "section_header list \<Rightarrow> ELFSection list \<Rightarrow> go_error + ELFSection list" where
  "read_sections [] sections = Inr sections"
| "read_sections (s # ss) sections =
     (let sec = \<lparr>sec_Name = hdr_Name s, sec_Addr = hdr_Addr s, sec_Data = None\<rparr>
      in if hdr_Name s = ''.note.stapsdt'' \<or> hdr_Name s = ''.stapsdt.base'' then
           case hdr_Contents s of
             Inl err \<Rightarrow> Inl err
           | Inr data \<Rightarrow> read_sections ss (sections @ [sec\<lparr>sec_Data := Some data\<rparr>])
         else read_sections ss (sections @ [sec]))"

definition Stdlib_Sections :: "StdlibELFReader \<Rightarrow> go_error + ELFSection list" where
  "Stdlib_Sections r = read_sections (file_Sections (rd_f r)) []"

fun load_loop :: "program_header list \<Rightarrow> ELFProg list \<Rightarrow> ELFProg list" where
  "load_loop [] segs = segs"
| "load_loop (p # ps) segs =
     (if prog_Type p = PT_LOAD then
        load_loop ps (segs @ [\<lparr>Vaddr = prog_Vaddr p, Memsz = prog_Memsz p, Off = prog_Off p\<rparr>])
      else load_loop ps segs)"

definition Stdlib_LoadSegments :: "StdlibELFReader \<Rightarrow> ELFProg list" where
  "Stdlib_LoadSegments r = load_loop (file_Progs (rd_f r)) []"

lemma read_sections_err:
  "unreadable hs = Some err \<Longrightarrow> read_sections hs secs = Inl err"
  by (induction hs arbitrary: secs)
    (auto simp: unreadable_def needed_def Let_def split: sum.splits if_splits option.splits)

lemma read_sections_ok:
  "unreadable hs = None \<Longrightarrow> \<exists>new. read_sections hs secs = Inr (secs @ new) \<and> list_all2 describes hs new"
proof (induction hs arbitrary: secs)
  case (Cons h hs)
  let ?sec = "\<lparr>sec_Name = hdr_Name h, sec_Addr = hdr_Addr h, sec_Data = None\<rparr>"
  have tail: "unreadable hs = None"
    using Cons.prems by (auto simp: unreadable_def split: if_splits option.splits)
  show ?case
  proof (cases "needed (hdr_Name h)")
    case True
    with Cons.prems obtain data where d: "hdr_Contents h = Inr data"
      by (cases "hdr_Contents h") (auto simp: unreadable_def)
    obtain new where "read_sections hs (secs @ [?sec\<lparr>sec_Data := Some data\<rparr>])
        = Inr ((secs @ [?sec\<lparr>sec_Data := Some data\<rparr>]) @ new)" "list_all2 describes hs new"
      using Cons.IH [OF tail] by blast
    moreover have "describes h (?sec\<lparr>sec_Data := Some data\<rparr>)" using d by (simp add: describes_def)
    ultimately show ?thesis using True d
      by (intro exI [of _ "?sec\<lparr>sec_Data := Some data\<rparr> # new"]) (simp add: needed_def)
  next
    case False
    obtain new where "read_sections hs (secs @ [?sec]) = Inr ((secs @ [?sec]) @ new)"
      "list_all2 describes hs new"
      using Cons.IH [OF tail] by blast
    moreover have "describes h ?sec" using False by (simp add: describes_def)
    ultimately show ?thesis using False
      by (intro exI [of _ "?sec # new"]) (simp add: needed_def)
  qed
qed simp

lemma load_loop_eq: "load_loop ps segs = segs @ load_segments ps"
  by (induction ps arbitrary: segs) (simp_all add: load_segments_def load_segment_def)

interpretation stdlib: elf_reader Stdlib_Sections Stdlib_LoadSegments
  "\<lambda>r. file_Sections (rd_f r)" "\<lambda>r. file_Progs (rd_f r)"
proof
  fix r err
  show "unreadable (file_Sections (rd_f r)) = Some err \<Longrightarrow> Stdlib_Sections r = Inl err"
    by (simp add: Stdlib_Sections_def read_sections_err)
  show "unreadable (file_Sections (rd_f r)) = None \<Longrightarrow>
    \<exists>secs. Stdlib_Sections r = Inr secs \<and> list_all2 describes (file_Sections (rd_f r)) secs"
    using read_sections_ok [of "file_Sections (rd_f r)" "[]"] by (simp add: Stdlib_Sections_def)
  show "Stdlib_LoadSegments r = load_segments (file_Progs (rd_f r))"
    by (simp add: Stdlib_LoadSegments_def load_loop_eq)
qed

subsection \<open>Opening and closing\<close>

text \<open>
  \<open>openf\<close> and \<open>closef\<close> are \<open>os.Open\<close> and the file's \<open>Close\<close> over a state \<open>'w\<close> of the operating
  system, \<open>content\<close> what reading an open file gives, \<open>newfile\<close> the function \<open>elf.NewFile\<close>.
\<close>

definition NewStdlibELFReader ::
  "(bytes \<Rightarrow> go_error + elf_File) \<Rightarrow> bytes \<Rightarrow> go_error + StdlibELFReader" where
  "NewStdlibELFReader newfile data =
     (case newfile data of Inl err \<Rightarrow> Inl err | Inr f \<Rightarrow> Inr \<lparr>rd_f = f, closer = None\<rparr>)"

definition OpenELF ::
  "(string \<Rightarrow> 'w \<Rightarrow> (go_error + nat) \<times> 'w) \<Rightarrow> (nat \<Rightarrow> 'w \<Rightarrow> go_error option \<times> 'w)
    \<Rightarrow> ('w \<Rightarrow> nat \<Rightarrow> bytes) \<Rightarrow> (bytes \<Rightarrow> go_error + elf_File)
    \<Rightarrow> string \<Rightarrow> 'w \<Rightarrow> (go_error + StdlibELFReader) \<times> 'w" where
  "OpenELF openf closef content newfile path w =
     (case openf path w of
        (Inl err, w) \<Rightarrow> (Inl err, w)
      | (Inr file, w) \<Rightarrow>
          (case newfile (content w file) of
             Inl err \<Rightarrow> (let (_, w) = closef file w in (Inl err, w))
           | Inr f \<Rightarrow> (Inr \<lparr>rd_f = f, closer = Some file\<rparr>, w)))"

definition Reader_Close ::
  "(nat \<Rightarrow> 'w \<Rightarrow> go_error option \<times> 'w) \<Rightarrow> StdlibELFReader \<Rightarrow> 'w \<Rightarrow> go_error option \<times> 'w" where
  "Reader_Close closef r w = (case closer r of Some c \<Rightarrow> closef c w | None \<Rightarrow> (None, w))"

definition ParseProbesFromFile ::
  "(string \<Rightarrow> 'w \<Rightarrow> (go_error + nat) \<times> 'w) \<Rightarrow> (nat \<Rightarrow> 'w \<Rightarrow> go_error option \<times> 'w)
    \<Rightarrow> ('w \<Rightarrow> nat \<Rightarrow> bytes) \<Rightarrow> (bytes \<Rightarrow> go_error + elf_File)
    \<Rightarrow> string \<Rightarrow> 'w \<Rightarrow> (go_error + Probe list) option \<times> 'w" where
  "ParseProbesFromFile openf closef content newfile path w =
     (case OpenELF openf closef content newfile path w of
        (Inl err, w) \<Rightarrow> (Some (Inl err), w)
      | (Inr r, w) \<Rightarrow>
          (let result = ParseProbes Stdlib_Sections Stdlib_LoadSegments r;
               (_, w) = Reader_Close closef r w
           in (result, w)))"

text \<open>The result the path's contents determine.\<close>

definition path_probes ::
  "(bytes \<Rightarrow> go_error + elf_File) \<Rightarrow> go_error + bytes \<Rightarrow> (go_error + Probe list) option" where
  "path_probes newfile d =
     (case d of
        Inl err \<Rightarrow> Some (Inl err)
      | Inr data \<Rightarrow>
          (case newfile data of
             Inl err \<Rightarrow> Some (Inl err)
           | Inr f \<Rightarrow> file_probes (file_Sections f) (file_Progs f)))"

locale file_system =
  fixes openf :: "string \<Rightarrow> 'w \<Rightarrow> (go_error + nat) \<times> 'w"
    and closef :: "nat \<Rightarrow> 'w \<Rightarrow> go_error option \<times> 'w"
    and content :: "'w \<Rightarrow> nat \<Rightarrow> bytes"
    and handles :: "'w \<Rightarrow> nat set"
    and files :: "'w \<Rightarrow> string \<Rightarrow> go_error + bytes"
  assumes open_err: "files w path = Inl err \<Longrightarrow> openf path w = (Inl err, w)"
    and open_ok: "files w path = Inr data \<Longrightarrow>
      \<exists>h w'. openf path w = (Inr h, w') \<and> h \<notin> handles w \<and> handles w' = insert h (handles w)
        \<and> content w' h = data \<and> files w' = files w"
    and close_ok: "h \<in> handles w \<Longrightarrow>
      \<exists>w'. closef h w = (None, w') \<and> handles w' = handles w - {h} \<and> files w' = files w"
begin

lemma OpenELF_err:
  assumes "files w path = Inl err \<or> files w path = Inr data \<and> newfile data = Inl err"
  shows "\<exists>w'. OpenELF openf closef content newfile path w = (Inl err, w')
    \<and> handles w' = handles w \<and> files w' = files w"
  using assms
proof
  assume "files w path = Inl err"
  then show ?thesis by (simp add: OpenELF_def open_err)
next
  assume d: "files w path = Inr data \<and> newfile data = Inl err"
  then obtain h w1 where o: "openf path w = (Inr h, w1)" "h \<notin> handles w"
    "handles w1 = insert h (handles w)" "content w1 h = data" "files w1 = files w"
    using open_ok by blast
  then obtain w2 where "closef h w1 = (None, w2)" "handles w2 = handles w1 - {h}" "files w2 = files w1"
    using close_ok [of h w1] by auto
  then show ?thesis using d o by (simp add: OpenELF_def)
qed

lemma OpenELF_ok:
  assumes "files w path = Inr data" "newfile data = Inr f"
  shows "\<exists>h w'. OpenELF openf closef content newfile path w = (Inr \<lparr>rd_f = f, closer = Some h\<rparr>, w')
    \<and> h \<notin> handles w \<and> handles w' = insert h (handles w) \<and> files w' = files w"
proof -
  obtain h w1 where "openf path w = (Inr h, w1)" "h \<notin> handles w"
    "handles w1 = insert h (handles w)" "content w1 h = data" "files w1 = files w"
    using open_ok [OF assms(1)] by blast
  then show ?thesis using assms by (simp add: OpenELF_def)
qed

lemma ParseProbesFromFile_ok:
  "\<exists>w'. ParseProbesFromFile openf closef content newfile path w = (path_probes newfile (files w path), w')
    \<and> handles w' = handles w \<and> files w' = files w"
proof (cases "\<exists>data f. files w path = Inr data \<and> newfile data = Inr f")
  case True
  then obtain data f where d: "files w path = Inr data" "newfile data = Inr f" by blast
  then obtain h w1 where o: "OpenELF openf closef content newfile path w = (Inr \<lparr>rd_f = f, closer = Some h\<rparr>, w1)"
    "h \<notin> handles w" "handles w1 = insert h (handles w)" "files w1 = files w"
    using OpenELF_ok [of w path data newfile f] by blast
  then obtain w2 where "closef h w1 = (None, w2)" "handles w2 = handles w1 - {h}" "files w2 = files w1"
    using close_ok [of h w1] by auto
  then show ?thesis using d o
    by (simp add: ParseProbesFromFile_def Reader_Close_def stdlib.ParseProbes_file path_probes_def)
next
  case False
  then obtain err data where "files w path = Inl err \<or> files w path = Inr data \<and> newfile data = Inl err"
    by (metis sumE)
  moreover from this have "path_probes newfile (files w path) = Some (Inl err)"
    by (auto simp: path_probes_def)
  moreover obtain w' where "OpenELF openf closef content newfile path w = (Inl err, w')"
    "handles w' = handles w" "files w' = files w"
    using OpenELF_err [of w path err data newfile] calculation(1) by blast
  ultimately show ?thesis by (simp add: ParseProbesFromFile_def)
qed

end

text \<open>The operating system's files: contents by path, and the open handles with what they read.\<close>

record os_state =
  os_files :: "string \<Rightarrow> go_error + bytes"
  os_open :: "(nat \<times> bytes) list"

definition os_handles :: "os_state \<Rightarrow> nat set" where
  "os_handles w = fst ` set (os_open w)"

definition os_content :: "os_state \<Rightarrow> nat \<Rightarrow> bytes" where
  "os_content w h = (case map_of (os_open w) h of Some d \<Rightarrow> d | None \<Rightarrow> [])"

definition fresh_handle :: "os_state \<Rightarrow> nat" where
  "fresh_handle w = Suc (fold max (map fst (os_open w)) 0)"

definition os_Open :: "string \<Rightarrow> os_state \<Rightarrow> (go_error + nat) \<times> os_state" where
  "os_Open path w =
     (case os_files w path of
        Inl err \<Rightarrow> (Inl err, w)
      | Inr data \<Rightarrow> (let h = fresh_handle w in (Inr h, w\<lparr>os_open := (h, data) # os_open w\<rparr>)))"

definition os_Close :: "nat \<Rightarrow> os_state \<Rightarrow> go_error option \<times> os_state" where
  "os_Close h w =
     (if h \<in> os_handles w then (None, w\<lparr>os_open := filter (\<lambda>(h', _). h' \<noteq> h) (os_open w)\<rparr>)
      else (Some (ExternalError ''file already closed''), w))"

lemma fresh_handle_new: "fresh_handle w \<notin> os_handles w"
proof -
  have ge: "m \<le> fold max ks m \<and> (\<forall>k\<in>set ks. k \<le> fold max ks m)" for ks and m :: nat
    by (induction ks arbitrary: m) (fastforce simp: le_max_iff_disj)+
  then show ?thesis using ge [of 0 "map fst (os_open w)"] by (fastforce simp: fresh_handle_def os_handles_def)
qed

interpretation os: file_system os_Open os_Close os_content os_handles os_files
proof
  fix w path err data h
  show "os_files w path = Inl err \<Longrightarrow> os_Open path w = (Inl err, w)"
    by (simp add: os_Open_def)
  show "os_files w path = Inr data \<Longrightarrow>
    \<exists>h w'. os_Open path w = (Inr h, w') \<and> h \<notin> os_handles w \<and> os_handles w' = insert h (os_handles w)
      \<and> os_content w' h = data \<and> os_files w' = os_files w"
    using fresh_handle_new [of w] by (simp add: os_Open_def Let_def os_handles_def os_content_def)
  show "h \<in> os_handles w \<Longrightarrow>
    \<exists>w'. os_Close h w = (None, w') \<and> os_handles w' = os_handles w - {h} \<and> os_files w' = os_files w"
    by (auto simp: os_Close_def os_handles_def)
qed

end
