(* ===== verification/Regex.thy ===== *)
theory Regex
  imports Prelude
begin

section \<open>The fragment of Go's \<open>regexp\<close> the argument patterns use\<close>

text \<open>
  Each pattern is anchored (\<open>^\<dots>$\<close>) and is a sequence of greedy atoms over character
  classes, some of them in a capturing group. \<open>run\<close> lists the complete matches in the order
  a backtracking matcher finds them, longest repetition first; \<open>FindStringSubmatch\<close> returns
  the first, which is Go's leftmost-first rule. All classes are ASCII, so matching bytes and
  matching runes agree. \<open>rx_match\<close> is the declarative reading; \<open>run_iff\<close> says that the
  matcher finds exactly its captures, and \<open>rx_unique\<close> that a pattern whose repetitions are
  told apart from what follows (\<open>det\<close>) has one way to match.
\<close>

datatype atom =
    Chr "char \<Rightarrow> bool"
  | Maybe "char \<Rightarrow> bool"
  | Many "char \<Rightarrow> bool"
  | Many1 "char \<Rightarrow> bool"

datatype elem = Atom atom | Group "atom list"

type_synonym regex = "elem list"

subsection \<open>The matcher\<close>

text \<open>The ways to split a string into what an atom consumes and the rest, in priority order.\<close>

fun many_splits :: "(char \<Rightarrow> bool) \<Rightarrow> string \<Rightarrow> (string \<times> string) list" where
  "many_splits p [] = [([], [])]"
| "many_splits p (c # s) =
     (if p c then map (\<lambda>(w, r). (c # w, r)) (many_splits p s) @ [([], c # s)]
      else [([], c # s)])"

definition one_splits :: "(char \<Rightarrow> bool) \<Rightarrow> string \<Rightarrow> (string \<times> string) list" where
  "one_splits p s = (case s of [] \<Rightarrow> [] | c # r \<Rightarrow> if p c then [([c], r)] else [])"

definition many1_splits :: "(char \<Rightarrow> bool) \<Rightarrow> string \<Rightarrow> (string \<times> string) list" where
  "many1_splits p s =
     (case s of [] \<Rightarrow> []
      | c # r \<Rightarrow> if p c then map (\<lambda>(w, r'). (c # w, r')) (many_splits p r) else [])"

fun atom_splits :: "atom \<Rightarrow> string \<Rightarrow> (string \<times> string) list" where
  "atom_splits (Chr p) s = one_splits p s"
| "atom_splits (Maybe p) s = one_splits p s @ [([], s)]"
| "atom_splits (Many p) s = many_splits p s"
| "atom_splits (Many1 p) s = many1_splits p s"

fun atoms_splits :: "atom list \<Rightarrow> string \<Rightarrow> (string \<times> string) list" where
  "atoms_splits [] s = [([], s)]"
| "atoms_splits (a # as) s =
     concat (map (\<lambda>(w, r). map (\<lambda>(w', r'). (w @ w', r')) (atoms_splits as r)) (atom_splits a s))"

fun run :: "regex \<Rightarrow> string \<Rightarrow> string list list" where
  "run [] s = (if s = [] then [[]] else [])"
| "run (Atom a # es) s = concat (map (\<lambda>(w, r). run es r) (atom_splits a s))"
| "run (Group as # es) s =
     concat (map (\<lambda>(w, r). map ((#) w) (run es r)) (atoms_splits as s))"

text \<open>The whole match first, then the groups; \<open>None\<close> for Go's nil slice.\<close>

definition FindStringSubmatch :: "regex \<Rightarrow> string \<Rightarrow> string list option" where
  "FindStringSubmatch re s = (case run re s of [] \<Rightarrow> None | cs # _ \<Rightarrow> Some (s # cs))"

subsection \<open>What a pattern means\<close>

fun atom_ok :: "atom \<Rightarrow> string \<Rightarrow> bool" where
  "atom_ok (Chr p) w \<longleftrightarrow> length w = 1 \<and> list_all p w"
| "atom_ok (Maybe p) w \<longleftrightarrow> length w \<le> 1 \<and> list_all p w"
| "atom_ok (Many p) w \<longleftrightarrow> list_all p w"
| "atom_ok (Many1 p) w \<longleftrightarrow> w \<noteq> [] \<and> list_all p w"

inductive atoms_match :: "atom list \<Rightarrow> string \<Rightarrow> bool" where
  atoms_Nil: "atoms_match [] []"
| atoms_Cons: "atom_ok a w \<Longrightarrow> atoms_match as r \<Longrightarrow> atoms_match (a # as) (w @ r)"

inductive rx_match :: "regex \<Rightarrow> string \<Rightarrow> string list \<Rightarrow> bool" where
  rx_Nil: "rx_match [] [] []"
| rx_Atom: "atom_ok a w \<Longrightarrow> rx_match es r cs \<Longrightarrow> rx_match (Atom a # es) (w @ r) cs"
| rx_Group: "atoms_match as w \<Longrightarrow> rx_match es r cs \<Longrightarrow> rx_match (Group as # es) (w @ r) (w # cs)"

inductive_simps atoms_match_Nil [simp]: "atoms_match [] s"
inductive_simps atoms_match_Cons: "atoms_match (a # as) s"
inductive_simps rx_match_Nil [simp]: "rx_match [] s cs"
inductive_simps rx_match_Atom: "rx_match (Atom a # es) s cs"
inductive_simps rx_match_Group: "rx_match (Group as # es) s cs"

lemma one_splits_iff: "(w, r) \<in> set (one_splits p s) \<longleftrightarrow> s = w @ r \<and> length w = 1 \<and> list_all p w"
  by (auto simp: one_splits_def length_Suc_conv split: list.splits if_splits)

lemma many_splits_iff: "(w, r) \<in> set (many_splits p s) \<longleftrightarrow> s = w @ r \<and> list_all p w"
proof (induction s arbitrary: w)
  case (Cons c s)
  show ?case
  proof (cases w)
    case Nil
    then show ?thesis by auto
  next
    case (Cons d w')
    then show ?thesis using Cons.IH [of w'] by auto
  qed
qed auto

lemma prefix_image:
  "(x, y) \<in> (\<lambda>(w, r). (u @ w, r)) ` S \<longleftrightarrow> (\<exists>w. x = u @ w \<and> (w, y) \<in> S)"
  "(x, y) \<in> (\<lambda>(w, r). (c # w, r)) ` S \<longleftrightarrow> (\<exists>w. x = c # w \<and> (w, y) \<in> S)"
  by force+

lemma many1_splits_iff:
  "(w, r) \<in> set (many1_splits p s) \<longleftrightarrow> s = w @ r \<and> w \<noteq> [] \<and> list_all p w"
proof (cases s)
  case (Cons c t)
  then show ?thesis by (cases w) (auto simp: many1_splits_def many_splits_iff prefix_image)
qed (simp add: many1_splits_def)

lemma atom_splits_iff: "(w, r) \<in> set (atom_splits a s) \<longleftrightarrow> s = w @ r \<and> atom_ok a w"
proof (cases a)
  case (Maybe p)
  have "length w \<le> 1 \<longleftrightarrow> length w = 1 \<or> w = []" by (cases w) auto
  with Maybe show ?thesis by (auto simp: one_splits_iff)
qed (simp_all add: one_splits_iff many_splits_iff many1_splits_iff)

lemma set_concat_splits:
  "(x, y) \<in> set (concat (map (\<lambda>(w, r). map (\<lambda>(w', r'). (w @ w', r')) (f r)) ps)) \<longleftrightarrow>
     (\<exists>w r w'. (w, r) \<in> set ps \<and> (w', y) \<in> set (f r) \<and> x = w @ w')"
  by (auto simp: prefix_image)

lemma atoms_splits_iff: "(w, r) \<in> set (atoms_splits as s) \<longleftrightarrow> s = w @ r \<and> atoms_match as w"
proof (induction as arbitrary: s w)
  case (Cons a as)
  have "(w, r) \<in> set (atoms_splits (a # as) s) \<longleftrightarrow>
      (\<exists>u t v. s = u @ t \<and> atom_ok a u \<and> t = v @ r \<and> atoms_match as v \<and> w = u @ v)"
    by (simp only: atoms_splits.simps set_concat_splits atom_splits_iff Cons.IH conj_assoc)
  also have "\<dots> \<longleftrightarrow> s = w @ r \<and> (\<exists>u v. w = u @ v \<and> atom_ok a u \<and> atoms_match as v)"
  proof
    assume "s = w @ r \<and> (\<exists>u v. w = u @ v \<and> atom_ok a u \<and> atoms_match as v)"
    then obtain u v where "s = u @ v @ r" "atom_ok a u" "atoms_match as v" "w = u @ v" by auto
    then show "\<exists>u t v. s = u @ t \<and> atom_ok a u \<and> t = v @ r \<and> atoms_match as v \<and> w = u @ v"
      by blast
  qed auto
  finally show ?case by (simp only: atoms_match_Cons)
qed auto

lemma run_iff: "cs \<in> set (run es s) \<longleftrightarrow> rx_match es s cs"
proof (induction es arbitrary: s cs)
  case (Cons e es)
  show ?case
  proof (cases e)
    case (Atom a)
    have "cs \<in> set (run (e # es) s) \<longleftrightarrow>
        (\<exists>w r. (w, r) \<in> set (atom_splits a s) \<and> cs \<in> set (run es r))"
      by (auto simp: Atom)
    then show ?thesis by (auto simp: Atom atom_splits_iff Cons.IH rx_match_Atom)
  next
    case (Group as)
    have "cs \<in> set (run (e # es) s) \<longleftrightarrow>
        (\<exists>w r cs'. (w, r) \<in> set (atoms_splits as s) \<and> cs' \<in> set (run es r) \<and> cs = w # cs')"
      by (auto simp: Group)
    then show ?thesis by (auto simp: Group atoms_splits_iff Cons.IH rx_match_Group)
  qed
qed auto

subsection \<open>Patterns with one way to match\<close>

text \<open>\<open>first as f\<close>: the characters a match of \<open>as\<close>, or what follows it (\<open>f\<close>), may start with.\<close>

fun first :: "atom list \<Rightarrow> (char \<Rightarrow> bool) \<Rightarrow> char \<Rightarrow> bool" where
  "first [] f c \<longleftrightarrow> f c"
| "first (Chr p # as) f c \<longleftrightarrow> p c"
| "first (Maybe p # as) f c \<longleftrightarrow> p c \<or> first as f c"
| "first (Many p # as) f c \<longleftrightarrow> p c \<or> first as f c"
| "first (Many1 p # as) f c \<longleftrightarrow> p c"

fun det :: "atom list \<Rightarrow> (char \<Rightarrow> bool) \<Rightarrow> bool" where
  "det [] f \<longleftrightarrow> True"
| "det (Chr p # as) f \<longleftrightarrow> det as f"
| "det (Maybe p # as) f \<longleftrightarrow> (\<forall>c. p c \<longrightarrow> \<not> first as f c) \<and> det as f"
| "det (Many p # as) f \<longleftrightarrow> (\<forall>c. p c \<longrightarrow> \<not> first as f c) \<and> det as f"
| "det (Many1 p # as) f \<longleftrightarrow> (\<forall>c. p c \<longrightarrow> \<not> first as f c) \<and> det as f"

fun flat :: "regex \<Rightarrow> atom list" where
  "flat [] = []"
| "flat (Atom a # es) = a # flat es"
| "flat (Group as # es) = as @ flat es"

lemma first_Nil [simp]: "first [] f = f"
  by (rule ext) simp

lemma first_append [simp]: "first (as @ bs) f c \<longleftrightarrow> first as (first bs f) c"
  by (induction as f c rule: first.induct) simp_all

lemma det_append: "det (as @ bs) f \<longleftrightarrow> det as (first bs f) \<and> det bs f"
  by (induction as f rule: det.induct) auto

text \<open>\<open>heads f r\<close>: the string \<open>r\<close> is empty or starts with a character of \<open>f\<close>.\<close>

definition heads :: "(char \<Rightarrow> bool) \<Rightarrow> string \<Rightarrow> bool" where
  "heads f r \<longleftrightarrow> r = [] \<or> f (hd r)"

lemma atoms_match_first:
  "atoms_match as w \<Longrightarrow> heads f r \<Longrightarrow> heads (first as f) (w @ r)"
proof (induction rule: atoms_match.induct)
  case (atoms_Cons a w as v)
  then show ?case
    by (cases a; cases w) (auto simp: heads_def)
qed simp

lemma rx_match_flat: "rx_match es s cs \<Longrightarrow> heads (first (flat es) f) s"
proof (induction rule: rx_match.induct)
  case rx_Nil
  show ?case by (simp add: heads_def)
next
  case (rx_Atom a w es r cs)
  have "atoms_match [a] w" using rx_Atom(1) by (metis atoms_match.simps append_Nil2)
  from atoms_match_first [OF this rx_Atom(3)] show ?case
    by (cases a) (simp_all add: heads_def)
next
  case (rx_Group as w es r cs)
  from atoms_match_first [OF rx_Group(1,3)] show ?case by (simp add: heads_def)
qed

lemma atom_unique:
  assumes "atom_ok a w" "atom_ok a w'" "w @ r = w' @ r'"
    and "heads g r" "heads g r'" and "det [a] g"
  shows "w = w' \<and> r = r'"
proof (cases a)
  case (Chr p)
  then show ?thesis using assms(1-3) by (simp add: append_eq_append_conv)
next
  case (Maybe p)
  then show ?thesis
    using assms by (intro append_class_unique [of w r w' r' p]) (auto simp: list_all_iff heads_def)
next
  case (Many p)
  then show ?thesis
    using assms by (intro append_class_unique [of w r w' r' p]) (auto simp: list_all_iff heads_def)
next
  case (Many1 p)
  then show ?thesis
    using assms by (intro append_class_unique [of w r w' r' p]) (auto simp: list_all_iff heads_def)
qed

lemma atoms_unique:
  assumes "atoms_match as w" "atoms_match as w'" "w @ r = w' @ r'"
    and "heads f r" "heads f r'" and "det as f"
  shows "w = w' \<and> r = r'"
  using assms
proof (induction as arbitrary: w w')
  case (Cons a as)
  from Cons.prems(1,2) obtain u v u' v' where u: "w = u @ v" "atom_ok a u" "atoms_match as v"
    and u': "w' = u' @ v'" "atom_ok a u'" "atoms_match as v'"
    by (auto simp: atoms_match_Cons)
  have "det ([a] @ as) f" using Cons.prems(6) by simp
  then have d: "det [a] (first as f)" "det as f" by (simp_all only: det_append)
  have "u = u' \<and> v @ r = v' @ r'"
    using u u' Cons.prems d(1) atoms_match_first
    by (intro atom_unique [of a u u' "v @ r" "v' @ r'" "first as f"]) auto
  moreover from this have "v = v' \<and> r = r'"
    using Cons.IH [of v v'] u u' Cons.prems(4,5) d(2) by simp
  ultimately show ?case using u u' by simp
qed simp

lemma atoms_match_single: "atoms_match [a] w \<longleftrightarrow> atom_ok a w"
  by (auto simp: atoms_match_Cons)

text \<open>
  Two patterns with a common prefix: a string that both match is cut at the same place, and
  the prefix captures the same.
\<close>

lemma rx_prefix_unique:
  assumes "rx_match (pre @ es) s cs" and "rx_match (pre @ es') s cs'"
    and "det (flat pre) f" and "\<And>c. first (flat es) (\<lambda>_. False) c \<Longrightarrow> f c"
    and "\<And>c. first (flat es') (\<lambda>_. False) c \<Longrightarrow> f c"
  shows "\<exists>w r ps ds ds'. s = w @ r \<and> rx_match pre w ps \<and> rx_match es r ds \<and> cs = ps @ ds
    \<and> rx_match es' r ds' \<and> cs' = ps @ ds'"
  using assms
proof (induction pre arbitrary: s cs cs')
  case Nil
  then show ?case by (metis append_Nil rx_Nil)
next
  case (Cons e pre)
  define as where "as = (case e of Atom a \<Rightarrow> [a] | Group as \<Rightarrow> as)"
  obtain w r d where w: "s = w @ r" "atoms_match as w" "rx_match (pre @ es) r d"
    "cs = (case e of Atom _ \<Rightarrow> d | Group _ \<Rightarrow> w # d)"
    using Cons.prems(1) by (cases e)
      (auto simp: rx_match_Atom rx_match_Group as_def atoms_match_single)
  obtain w' r' d' where w': "s = w' @ r'" "atoms_match as w'" "rx_match (pre @ es') r' d'"
    "cs' = (case e of Atom _ \<Rightarrow> d' | Group _ \<Rightarrow> w' # d')"
    using Cons.prems(2) by (cases e)
      (auto simp: rx_match_Atom rx_match_Group as_def atoms_match_single)
  have fl: "flat (e # pre) = as @ flat pre" by (cases e) (simp_all add: as_def)
  have fa: "flat (xs @ ys) = flat xs @ flat ys" for xs ys
    by (induction xs rule: flat.induct) simp_all
  have mono: "first as g c \<Longrightarrow> (\<And>c. g c \<Longrightarrow> h c) \<Longrightarrow> first as h c" for as g h c
    by (induction as g c rule: first.induct) auto
  have "heads (first (flat pre) f) r" "heads (first (flat pre) f) r'"
    using rx_match_flat [OF w(3), of "\<lambda>_. False"] rx_match_flat [OF w'(3), of "\<lambda>_. False"]
      Cons.prems(4,5) mono by (auto simp: heads_def fa)
  then have eq: "w = w' \<and> r = r'"
    using w w' Cons.prems(3) unfolding fl det_append by (intro atoms_unique) auto
  have "\<exists>v t ps ds ds'. r = v @ t \<and> rx_match pre v ps \<and> rx_match es t ds \<and> d = ps @ ds
    \<and> rx_match es' t ds' \<and> d' = ps @ ds'"
    using Cons.IH [OF w(3)] w'(3) eq Cons.prems(3-5) unfolding fl det_append by blast
  then obtain v t ps ds ds' where v: "r = v @ t" "rx_match pre v ps" "rx_match es t ds" "d = ps @ ds"
    "rx_match es' t ds'" "d' = ps @ ds'" by blast
  have "rx_match (e # pre) (w @ v) (case e of Atom _ \<Rightarrow> ps | Group _ \<Rightarrow> w # ps)"
    using w(2) v(2) by (cases e) (auto simp: as_def atoms_match_single intro: rx_match.intros)
  then show ?case
    using v w w' eq by (intro exI [of _ "w @ v"] exI [of _ t]) (cases e; auto)
qed

lemma rx_unique:
  assumes "rx_match es s cs" and "rx_match es s cs'" and "det (flat es) (\<lambda>_. False)"
  shows "cs = cs'"
  using rx_prefix_unique [of es "[]" s cs "[]" cs' "\<lambda>_. False"] assms by auto

lemma Find_None_iff: "FindStringSubmatch re s = None \<longleftrightarrow> (\<forall>cs. \<not> rx_match re s cs)"
proof -
  have "FindStringSubmatch re s = None \<longleftrightarrow> run re s = []"
    by (simp add: FindStringSubmatch_def split: list.splits)
  also have "\<dots> \<longleftrightarrow> (\<forall>cs. cs \<notin> set (run re s))" by (cases "run re s") auto
  finally show ?thesis by (simp add: run_iff)
qed

lemma Find_Some:
  assumes "FindStringSubmatch re s = Some ms"
  shows "\<exists>cs. ms = s # cs \<and> rx_match re s cs"
  using assms run_iff [of "hd (run re s)" re s]
  by (auto simp: FindStringSubmatch_def split: list.splits)

lemma Find_match:
  assumes "rx_match re s cs" and "det (flat re) (\<lambda>_. False)"
  shows "FindStringSubmatch re s = Some (s # cs)"
  using assms Find_None_iff [of re s] Find_Some [of re s] rx_unique [OF _ assms(1) assms(2)]
  by (metis option.exhaust)

text \<open>A match cut into one piece for each element of the pattern.\<close>

fun elem_ok :: "elem \<Rightarrow> string \<Rightarrow> bool" where
  "elem_ok (Atom a) w \<longleftrightarrow> atom_ok a w"
| "elem_ok (Group as) w \<longleftrightarrow> atoms_match as w"

fun group_pieces :: "regex \<Rightarrow> string list \<Rightarrow> string list" where
  "group_pieces (Group as # es) (w # ws) = w # group_pieces es ws"
| "group_pieces (Atom a # es) (w # ws) = group_pieces es ws"
| "group_pieces _ _ = []"

lemma rx_pieces:
  "rx_match re s cs \<Longrightarrow> \<exists>ps. list_all2 elem_ok re ps \<and> s = concat ps \<and> cs = group_pieces re ps"
proof (induction rule: rx_match.induct)
  case rx_Nil
  show ?case by simp
next
  case (rx_Atom a w es r cs)
  then obtain ps where "list_all2 elem_ok es ps" "r = concat ps" "cs = group_pieces es ps" by blast
  with rx_Atom(1) show ?case by (intro exI [of _ "w # ps"]) simp
next
  case (rx_Group as w es r cs)
  then obtain ps where "list_all2 elem_ok es ps" "r = concat ps" "cs = group_pieces es ps" by blast
  with rx_Group(1) show ?case by (intro exI [of _ "w # ps"]) simp
qed

end
