(* ===== verification/Registers.thy ===== *)
theory Registers
  imports Types
begin

section \<open>Register names: the tables and \<open>lookupRegister\<close> of \<open>args.go\<close>\<close>

text \<open>
  A Go map literal is an association list read with \<^const>\<open>map_of\<close>; the compiler rejects
  duplicate keys, and \<open>table_keys_distinct\<close> checks that there are none. The architecture is
  the value of \<open>runtime.GOARCH\<close>, an argument of every function that depends on it.
\<close>

definition x86_64RegNameToID :: "(string \<times> u8) list" where
  "x86_64RegNameToID =
    [(''rax'', RegRax), (''eax'', RegRax), (''ax'', RegRax), (''al'', RegRax),
     (''rbx'', RegRbx), (''ebx'', RegRbx), (''bx'', RegRbx), (''bl'', RegRbx),
     (''rcx'', RegRcx), (''ecx'', RegRcx), (''cx'', RegRcx), (''cl'', RegRcx),
     (''rdx'', RegRdx), (''edx'', RegRdx), (''dx'', RegRdx), (''dl'', RegRdx),
     (''rsi'', RegRsi), (''esi'', RegRsi), (''si'', RegRsi), (''sil'', RegRsi),
     (''rdi'', RegRdi), (''edi'', RegRdi), (''di'', RegRdi), (''dil'', RegRdi),
     (''rbp'', RegRbp), (''ebp'', RegRbp), (''bp'', RegRbp), (''bpl'', RegRbp),
     (''rsp'', RegRsp), (''esp'', RegRsp), (''sp'', RegRsp), (''spl'', RegRsp),
     (''r8'', RegR8), (''r8d'', RegR8), (''r8w'', RegR8), (''r8b'', RegR8),
     (''r9'', RegR9), (''r9d'', RegR9), (''r9w'', RegR9), (''r9b'', RegR9),
     (''r10'', RegR10), (''r10d'', RegR10), (''r10w'', RegR10), (''r10b'', RegR10),
     (''r11'', RegR11), (''r11d'', RegR11), (''r11w'', RegR11), (''r11b'', RegR11),
     (''r12'', RegR12), (''r12d'', RegR12), (''r12w'', RegR12), (''r12b'', RegR12),
     (''r13'', RegR13), (''r13d'', RegR13), (''r13w'', RegR13), (''r13b'', RegR13),
     (''r14'', RegR14), (''r14d'', RegR14), (''r14w'', RegR14), (''r14b'', RegR14),
     (''r15'', RegR15), (''r15d'', RegR15), (''r15w'', RegR15), (''r15b'', RegR15),
     (''rip'', RegRip), (''eip'', RegRip), (''ip'', RegRip)]"

definition arm64RegNameToID :: "(string \<times> u8) list" where
  "arm64RegNameToID =
    [(''x0'', RegX0), (''w0'', RegX0),
     (''x1'', RegX1), (''w1'', RegX1),
     (''x2'', RegX2), (''w2'', RegX2),
     (''x3'', RegX3), (''w3'', RegX3),
     (''x4'', RegX4), (''w4'', RegX4),
     (''x5'', RegX5), (''w5'', RegX5),
     (''x6'', RegX6), (''w6'', RegX6),
     (''x7'', RegX7), (''w7'', RegX7),
     (''x8'', RegX8), (''w8'', RegX8),
     (''x9'', RegX9), (''w9'', RegX9),
     (''x10'', RegX10), (''w10'', RegX10),
     (''x11'', RegX11), (''w11'', RegX11),
     (''x12'', RegX12), (''w12'', RegX12),
     (''x13'', RegX13), (''w13'', RegX13),
     (''x14'', RegX14), (''w14'', RegX14),
     (''x15'', RegX15), (''w15'', RegX15),
     (''x16'', RegX16), (''w16'', RegX16),
     (''x17'', RegX17), (''w17'', RegX17),
     (''x18'', RegX18), (''w18'', RegX18),
     (''x19'', RegX19), (''w19'', RegX19),
     (''x20'', RegX20), (''w20'', RegX20),
     (''x21'', RegX21), (''w21'', RegX21),
     (''x22'', RegX22), (''w22'', RegX22),
     (''x23'', RegX23), (''w23'', RegX23),
     (''x24'', RegX24), (''w24'', RegX24),
     (''x25'', RegX25), (''w25'', RegX25),
     (''x26'', RegX26), (''w26'', RegX26),
     (''x27'', RegX27), (''w27'', RegX27),
     (''x28'', RegX28), (''w28'', RegX28),
     (''x29'', RegX29), (''w29'', RegX29), (''fp'', RegX29),
     (''x30'', RegX30), (''w30'', RegX30), (''lr'', RegX30),
     (''sp'', RegSP), (''wsp'', RegSP),
     (''pc'', RegPC)]"

text \<open>\<open>None\<close> stands for the result \<open>(0, false)\<close>.\<close>

definition lookupRegister :: "string \<Rightarrow> string \<Rightarrow> u8 option" where
  "lookupRegister goarch regName =
     (if goarch = ''amd64'' then map_of x86_64RegNameToID regName
      else if goarch = ''arm64'' then map_of arm64RegNameToID regName
      else None)"

lemma table_keys_distinct:
  "distinct (map fst x86_64RegNameToID)" "distinct (map fst arm64RegNameToID)"
  by (simp_all add: x86_64RegNameToID_def arm64RegNameToID_def)

text \<open>Facts about every entry are checked by going through the tables.\<close>

lemma lookup_all:
  assumes "lookupRegister goarch n = Some r"
    and "list_all (\<lambda>(n, r). P n r) x86_64RegNameToID" and "list_all (\<lambda>(n, r). P n r) arm64RegNameToID"
  shows "P n r"
  using assms by (auto simp: lookupRegister_def list_all_iff dest!: map_of_SomeD split: if_splits)

lemma lookup_name_syntax:
  assumes "lookupRegister goarch n = Some r"
  shows "n \<noteq> [] \<and> list_all is_lower_alnum n \<and> \<not> is_digit (hd n)"
  using assms
  by (rule lookup_all) (simp_all add: x86_64RegNameToID_def arm64RegNameToID_def is_lower_alnum_def is_digit_def)

lemma lookup_amd64_range: "lookupRegister ''amd64'' n = Some r \<Longrightarrow> 1 \<le> r \<and> r \<le> 17"
proof -
  assume "lookupRegister ''amd64'' n = Some r"
  then have "(n, r) \<in> set x86_64RegNameToID" by (simp add: lookupRegister_def map_of_SomeD)
  moreover have "list_all (\<lambda>(n, r). 1 \<le> r \<and> r \<le> 17) x86_64RegNameToID"
    by (simp add: x86_64RegNameToID_def x86_reg_defs)
  ultimately show ?thesis by (auto simp: list_all_iff)
qed

lemma lookup_arm64_range: "lookupRegister ''arm64'' n = Some r \<Longrightarrow> 32 \<le> r \<and> r \<le> 64"
proof -
  assume "lookupRegister ''arm64'' n = Some r"
  then have "(n, r) \<in> set arm64RegNameToID" by (simp add: lookupRegister_def map_of_SomeD)
  moreover have "list_all (\<lambda>(n, r). 32 \<le> r \<and> r \<le> 64) arm64RegNameToID"
    by (simp add: arm64RegNameToID_def arm_reg_defs)
  ultimately show ?thesis by (auto simp: list_all_iff)
qed

lemma lookup_not_none: "lookupRegister goarch n = Some r \<Longrightarrow> r \<noteq> RegNone"
  by (erule lookup_all)
    (simp_all add: x86_64RegNameToID_def arm64RegNameToID_def x86_reg_defs arm_reg_defs RegNone_def)

end
