(* ===== verification/Arg_Parser.thy ===== *)
theory Arg_Parser
  imports Go_Std Regex Registers
begin

section \<open>One argument: the patterns and \<open>ParseUSDTArgSpec\<close> of \<open>args.go\<close>\<close>

text \<open>
  The seven patterns in the order they are tried, one definition for each branch of
  \<open>ParseUSDTArgSpec\<close>, and the function itself. The lines each branch repeats at its end
  (sign, float flag, absolute value, bit shift) are \<open>set_size\<close>. The specification is a
  concrete syntax with free white space (\<open>render\<close>) and its meaning (\<open>denote\<close>);
  \<open>parse_render\<close>, \<open>parse_unrecognized\<close> and \<open>parse_empty\<close> together say what the
  function returns on every input.
\<close>

subsection \<open>Patterns\<close>

abbreviation sp :: elem where "sp \<equiv> Atom (Many is_re_space)"
abbreviation chr :: "char \<Rightarrow> elem" where "chr c \<equiv> Atom (Chr ((=) c))"
abbreviation int_group :: elem where "int_group \<equiv> Group [Maybe ((=) CHR ''-''), Many1 is_digit]"
abbreviation float_group :: elem where "float_group \<equiv> Group [Maybe ((=) CHR ''f'')]"
abbreviation name_group :: elem where "name_group \<equiv> Group [Many1 is_lower_alnum]"

definition regexRegDerefWithOffset :: regex where
  "regexRegDerefWithOffset =
     [sp, int_group, float_group, sp, chr (CHR ''@''), sp, int_group, sp, chr (CHR ''(''), sp,
      chr (CHR ''%''), name_group, sp, chr (CHR '')''), sp]"

definition regexRegDerefWithOffsetARM :: regex where
  "regexRegDerefWithOffsetARM =
     [sp, int_group, float_group, sp, chr (CHR ''@''), sp, chr (CHR ''[''), sp, name_group, sp,
      chr (CHR '',''), sp, int_group, sp, chr (CHR '']''), sp]"

definition regexRegDerefNoOffset :: regex where
  "regexRegDerefNoOffset =
     [sp, int_group, float_group, sp, chr (CHR ''@''), sp, chr (CHR ''(''), sp, chr (CHR ''%''),
      name_group, sp, chr (CHR '')''), sp]"

definition regexRegDerefNoOffsetARM :: regex where
  "regexRegDerefNoOffsetARM =
     [sp, int_group, float_group, sp, chr (CHR ''@''), sp, chr (CHR ''[''), sp, name_group, sp,
      chr (CHR '']''), sp]"

definition regexConst :: regex where
  "regexConst =
     [sp, int_group, float_group, sp, chr (CHR ''@''), sp, chr (CHR ''$''), int_group, sp]"

definition regexBareConst :: regex where
  "regexBareConst = [sp, int_group, float_group, sp, chr (CHR ''@''), sp, int_group, sp]"

definition regexReg :: regex where
  "regexReg =
     [sp, int_group, float_group, sp, chr (CHR ''@''), sp, Atom (Maybe ((=) CHR ''%'')), name_group, sp]"

subsection \<open>The branches\<close>

definition set_size :: "ArgSpec \<Rightarrow> s64 \<Rightarrow> bool \<Rightarrow> ArgSpec" where
  "set_size spec argSz isFloat =
     (let spec = spec\<lparr>Arg_signed := argSz <s 0, Arg_is_float := isFloat\<rparr>;
          argSz = (if argSz <s 0 then - argSz else argSz)
      in spec\<lparr>Arg_bitshift := ucast (64 - argSz * 8)\<rparr>)"

definition parse_deref_offset :: "string \<Rightarrow> string list \<Rightarrow> go_error + ArgSpec" where
  "parse_deref_offset goarch matches =
     try_wrap InvalidArgSize (ParseInt (matches ! 1)) (\<lambda>argSz.
       let isFloat = (matches ! 2 = ''f'') in
       try_wrap InvalidMemoryOffset (ParseInt (matches ! 3)) (\<lambda>offset.
         let regName = matches ! 4;
             spec = zero_ArgSpec\<lparr>Arg_type := ArgRegDeref, Val_off := offset\<rparr>
         in case lookupRegister goarch regName of
              None \<Rightarrow> Inl (UnknownRegister regName)
            | Some regID \<Rightarrow> Inr (set_size (spec\<lparr>Reg_id := regID\<rparr>) argSz isFloat)))"

definition parse_deref_offset_arm :: "string \<Rightarrow> string list \<Rightarrow> go_error + ArgSpec" where
  "parse_deref_offset_arm goarch matches =
     try_wrap InvalidArgSize (ParseInt (matches ! 1)) (\<lambda>argSz.
       let isFloat = (matches ! 2 = ''f''); regName = matches ! 3 in
       try_wrap InvalidMemoryOffset (ParseInt (matches ! 4)) (\<lambda>offset.
         let spec = zero_ArgSpec\<lparr>Arg_type := ArgRegDeref, Val_off := offset\<rparr>
         in case lookupRegister goarch regName of
              None \<Rightarrow> Inl (UnknownRegister regName)
            | Some regID \<Rightarrow> Inr (set_size (spec\<lparr>Reg_id := regID\<rparr>) argSz isFloat)))"

definition parse_deref :: "string \<Rightarrow> string list \<Rightarrow> go_error + ArgSpec" where
  "parse_deref goarch matches =
     try_wrap InvalidArgSize (ParseInt (matches ! 1)) (\<lambda>argSz.
       let isFloat = (matches ! 2 = ''f''); regName = matches ! 3;
           spec = zero_ArgSpec\<lparr>Arg_type := ArgRegDeref, Val_off := 0\<rparr>
       in case lookupRegister goarch regName of
            None \<Rightarrow> Inl (UnknownRegister regName)
          | Some regID \<Rightarrow> Inr (set_size (spec\<lparr>Reg_id := regID\<rparr>) argSz isFloat))"

definition parse_deref_arm :: "string \<Rightarrow> string list \<Rightarrow> go_error + ArgSpec" where
  "parse_deref_arm goarch matches =
     try_wrap InvalidArgSize (ParseInt (matches ! 1)) (\<lambda>argSz.
       let isFloat = (matches ! 2 = ''f''); regName = matches ! 3;
           spec = zero_ArgSpec\<lparr>Arg_type := ArgRegDeref, Val_off := 0\<rparr>
       in case lookupRegister goarch regName of
            None \<Rightarrow> Inl (UnknownRegister regName)
          | Some regID \<Rightarrow> Inr (set_size (spec\<lparr>Reg_id := regID\<rparr>) argSz isFloat))"

definition parse_const :: "string list \<Rightarrow> go_error + ArgSpec" where
  "parse_const matches =
     try_wrap InvalidArgSize (ParseInt (matches ! 1)) (\<lambda>argSz.
       let isFloat = (matches ! 2 = ''f'') in
       try_wrap InvalidConstant (ParseInt (matches ! 3)) (\<lambda>constVal.
         let spec = zero_ArgSpec\<lparr>Arg_type := ArgConst, Val_off := constVal, Reg_id := RegNone\<rparr>
         in Inr (set_size spec argSz isFloat)))"

definition parse_bare_const :: "string list \<Rightarrow> go_error + ArgSpec" where
  "parse_bare_const matches =
     try_wrap InvalidArgSize (ParseInt (matches ! 1)) (\<lambda>argSz.
       let isFloat = (matches ! 2 = ''f'') in
       try_wrap InvalidConstant (ParseInt (matches ! 3)) (\<lambda>constVal.
         let spec = zero_ArgSpec\<lparr>Arg_type := ArgConst, Val_off := constVal, Reg_id := RegNone\<rparr>
         in Inr (set_size spec argSz isFloat)))"

definition parse_reg :: "string \<Rightarrow> string list \<Rightarrow> go_error + ArgSpec" where
  "parse_reg goarch matches =
     try_wrap InvalidArgSize (ParseInt (matches ! 1)) (\<lambda>argSz.
       let isFloat = (matches ! 2 = ''f''); regName = matches ! 3;
           spec = zero_ArgSpec\<lparr>Arg_type := ArgReg, Val_off := 0\<rparr>
       in case lookupRegister goarch regName of
            None \<Rightarrow> Inl (UnknownRegister regName)
          | Some regID \<Rightarrow> Inr (set_size (spec\<lparr>Reg_id := regID\<rparr>) argSz isFloat))"

definition ParseUSDTArgSpec :: "string \<Rightarrow> string \<Rightarrow> go_error + ArgSpec" where
  "ParseUSDTArgSpec goarch argStr0 =
     (let argStr = TrimSpace argStr0 in
      if argStr = [] then Inl EmptyArgument
      else case FindStringSubmatch regexRegDerefWithOffset argStr of
        Some matches \<Rightarrow> parse_deref_offset goarch matches
      | None \<Rightarrow>
      (case FindStringSubmatch regexRegDerefWithOffsetARM argStr of
        Some matches \<Rightarrow> parse_deref_offset_arm goarch matches
      | None \<Rightarrow>
      (case FindStringSubmatch regexRegDerefNoOffset argStr of
        Some matches \<Rightarrow> parse_deref goarch matches
      | None \<Rightarrow>
      (case FindStringSubmatch regexRegDerefNoOffsetARM argStr of
        Some matches \<Rightarrow> parse_deref_arm goarch matches
      | None \<Rightarrow>
      (case FindStringSubmatch regexConst argStr of
        Some matches \<Rightarrow> parse_const matches
      | None \<Rightarrow>
      (case FindStringSubmatch regexBareConst argStr of
        Some matches \<Rightarrow> parse_bare_const matches
      | None \<Rightarrow>
      (case FindStringSubmatch regexReg argStr of
        Some matches \<Rightarrow> parse_reg goarch matches
      | None \<Rightarrow> Inl (UnrecognizedFormat argStr))))))))"

subsection \<open>The syntax and its meaning\<close>

datatype location =
    DerefOffset string string   \<comment> \<open>offset, register: \<open>-24(%rbp)\<close>\<close>
  | DerefOffsetArm string string   \<comment> \<open>register, offset: \<open>[sp, 60]\<close>\<close>
  | Deref string   \<comment> \<open>\<open>(%rsp)\<close>\<close>
  | DerefArm string   \<comment> \<open>\<open>[x0]\<close>\<close>
  | DollarConst string   \<comment> \<open>\<open>$5\<close>\<close>
  | BareConst string   \<comment> \<open>\<open>100\<close>\<close>
  | InReg bool string   \<comment> \<open>with or without the percent sign: \<open>%rax\<close>, \<open>x0\<close>\<close>

datatype arg_syntax = ArgSyntax (size_text: string) (float_flag: bool) (location_of: location)

definition reg_text :: "string \<Rightarrow> bool" where
  "reg_text n \<longleftrightarrow> n \<noteq> [] \<and> list_all is_lower_alnum n"

fun location_wf :: "location \<Rightarrow> bool" where
  "location_wf (DerefOffset off n) \<longleftrightarrow> int_text off \<and> reg_text n"
| "location_wf (DerefOffsetArm n off) \<longleftrightarrow> int_text off \<and> reg_text n"
| "location_wf (Deref n) \<longleftrightarrow> reg_text n"
| "location_wf (DerefArm n) \<longleftrightarrow> reg_text n"
| "location_wf (DollarConst k) \<longleftrightarrow> int_text k"
| "location_wf (BareConst k) \<longleftrightarrow> int_text k"
| "location_wf (InReg pct n) \<longleftrightarrow> reg_text n \<and> (pct \<or> \<not> list_all is_digit n)"

definition arg_wf :: "arg_syntax \<Rightarrow> bool" where
  "arg_wf a \<longleftrightarrow> int_text (size_text a) \<and> location_wf (location_of a)"

text \<open>\<open>g 0\<close>, \<open>g 1\<close>, \<dots> are the runs of white space, all possibly empty.\<close>

fun render_location :: "(nat \<Rightarrow> string) \<Rightarrow> location \<Rightarrow> string" where
  "render_location g (DerefOffset off n) = off @ g 3 @ ''('' @ g 4 @ ''%'' @ n @ g 5 @ '')''"
| "render_location g (DerefOffsetArm n off) =
     ''['' @ g 3 @ n @ g 4 @ '','' @ g 5 @ off @ g 6 @ '']''"
| "render_location g (Deref n) = ''('' @ g 3 @ ''%'' @ n @ g 4 @ '')''"
| "render_location g (DerefArm n) = ''['' @ g 3 @ n @ g 4 @ '']''"
| "render_location g (DollarConst k) = ''$'' @ k"
| "render_location g (BareConst k) = k"
| "render_location g (InReg pct n) = (if pct then ''%'' else []) @ n"

definition float_text :: "bool \<Rightarrow> string" where
  "float_text f = (if f then ''f'' else [])"

definition render :: "(nat \<Rightarrow> string) \<Rightarrow> arg_syntax \<Rightarrow> string" where
  "render g a = g 0 @ size_text a @ float_text (float_flag a) @ g 1 @ ''@'' @ g 2
     @ render_location g (location_of a) @ g 7"

definition gaps :: "(nat \<Rightarrow> string) \<Rightarrow> bool" where
  "gaps g \<longleftrightarrow> (\<forall>i<8. list_all is_re_space (g i))"

text \<open>The spec an argument of \<open>sz\<close> bytes (negative for signed) stands for.\<close>

definition spec_of :: "u32 \<Rightarrow> int \<Rightarrow> u8 \<Rightarrow> int \<Rightarrow> bool \<Rightarrow> ArgSpec" where
  "spec_of ty off r sz f = zero_ArgSpec\<lparr>Val_off := word_of_int off, Arg_type := ty, Reg_id := r,
     Arg_signed := sz < 0, Arg_bitshift := word_of_int (64 - 8 * \<bar>sz\<bar>), Arg_is_float := f\<rparr>"

definition with_int :: "(num_error \<Rightarrow> go_error) \<Rightarrow> string \<Rightarrow> (int \<Rightarrow> go_error + 'a) \<Rightarrow> go_error + 'a" where
  "with_int err txt k = (if in_int64 (int_value txt) then k (int_value txt) else Inl (err (NumError txt ErrRange)))"

definition with_reg :: "string \<Rightarrow> string \<Rightarrow> (u8 \<Rightarrow> ArgSpec) \<Rightarrow> go_error + ArgSpec" where
  "with_reg goarch n k =
     (case lookupRegister goarch n of None \<Rightarrow> Inl (UnknownRegister n) | Some r \<Rightarrow> Inr (k r))"

fun denote :: "string \<Rightarrow> arg_syntax \<Rightarrow> go_error + ArgSpec" where
  "denote goarch (ArgSyntax szt f loc) =
     with_int InvalidArgSize szt (\<lambda>sz.
       case loc of
         DerefOffset off n \<Rightarrow> with_int InvalidMemoryOffset off
           (\<lambda>k. with_reg goarch n (\<lambda>r. spec_of ArgRegDeref k r sz f))
       | DerefOffsetArm n off \<Rightarrow> with_int InvalidMemoryOffset off
           (\<lambda>k. with_reg goarch n (\<lambda>r. spec_of ArgRegDeref k r sz f))
       | Deref n \<Rightarrow> with_reg goarch n (\<lambda>r. spec_of ArgRegDeref 0 r sz f)
       | DerefArm n \<Rightarrow> with_reg goarch n (\<lambda>r. spec_of ArgRegDeref 0 r sz f)
       | DollarConst k \<Rightarrow> with_int InvalidConstant k (\<lambda>c. Inr (spec_of ArgConst c RegNone sz f))
       | BareConst k \<Rightarrow> with_int InvalidConstant k (\<lambda>c. Inr (spec_of ArgConst c RegNone sz f))
       | InReg pct n \<Rightarrow> with_reg goarch n (\<lambda>r. spec_of ArgReg 0 r sz f))"

subsection \<open>What each pattern matches\<close>

lemma int_group_match: "atoms_match [Maybe ((=) CHR ''-''), Many1 is_digit] w \<longleftrightarrow> int_text w"
proof
  assume "atoms_match [Maybe ((=) CHR ''-''), Many1 is_digit] w"
  then obtain u v where w: "w = u @ v" "length u \<le> 1" "list_all ((=) CHR ''-'') u"
    "v \<noteq> []" "list_all is_digit v"
    by (auto simp: atoms_match_Cons)
  then show "int_text w" by (cases u) (auto simp: int_text_def neq_Nil_conv)
next
  assume t: "int_text w"
  then obtain c cs where w: "w = c # cs" by (cases w) (auto simp: int_text_def)
  show "atoms_match [Maybe ((=) CHR ''-''), Many1 is_digit] w"
  proof (cases "c = CHR ''-''")
    case True
    then have "atoms_match [Maybe ((=) CHR ''-''), Many1 is_digit] ([c] @ cs @ [])"
      using t w by (intro atoms_Cons atoms_Nil) (auto simp: int_text_def)
    then show ?thesis by (simp add: w)
  next
    case False
    then have "atoms_match [Maybe ((=) CHR ''-''), Many1 is_digit] ([] @ (c # cs) @ [])"
      using t w by (intro atoms_Cons atoms_Nil) (auto simp: int_text_def)
    then show ?thesis by (simp add: w)
  qed
qed

lemma float_group_match:
  "atoms_match [Maybe ((=) CHR ''f'')] w \<longleftrightarrow> (\<exists>f. w = float_text f)"
  by (cases w) (auto simp: atoms_match_single float_text_def intro: exI [of _ True] exI [of _ False])

lemma name_group_match: "atoms_match [Many1 is_lower_alnum] w \<longleftrightarrow> reg_text w"
  by (simp add: atoms_match_single reg_text_def)

lemma chr_ok: "atom_ok (Chr ((=) c)) w \<longleftrightarrow> w = [c]"
  by (cases w) auto

lemma percent_ok: "atom_ok (Maybe ((=) c)) w \<longleftrightarrow> (\<exists>b. w = (if b then [c] else []))"
  by (cases w) (auto intro: exI [of _ True] exI [of _ False])

lemmas rx_steps = rx_match_Atom rx_match_Group int_group_match float_group_match name_group_match
  chr_ok percent_ok atom_ok.simps(3)

text \<open>Build the runs of white space of a rendering from a list.\<close>

definition gap_list :: "string list \<Rightarrow> nat \<Rightarrow> string" where
  "gap_list ws i = (if i < length ws then ws ! i else [])"

lemma gaps_gap_list: "list_all (list_all is_re_space) ws \<Longrightarrow> gaps (gap_list ws)"
  by (auto simp: gaps_def gap_list_def list_all_length)

lemma gapsD: "gaps g \<Longrightarrow> i < 8 \<Longrightarrow> list_all is_re_space (g i)"
  by (simp add: gaps_def)

text \<open>The pattern a location is matched by, as its place in the order they are tried, and what
  it captures.\<close>

definition patterns :: "regex list" where
  "patterns = [regexRegDerefWithOffset, regexRegDerefWithOffsetARM, regexRegDerefNoOffset,
     regexRegDerefNoOffsetARM, regexConst, regexBareConst, regexReg]"

fun kind :: "location \<Rightarrow> nat" where
  "kind (DerefOffset _ _) = 0"
| "kind (DerefOffsetArm _ _) = 1"
| "kind (Deref _) = 2"
| "kind (DerefArm _) = 3"
| "kind (DollarConst _) = 4"
| "kind (BareConst _) = 5"
| "kind (InReg _ _) = 6"

lemma nth_patterns:
  "patterns ! 0 = regexRegDerefWithOffset" "patterns ! 1 = regexRegDerefWithOffsetARM"
  "patterns ! 2 = regexRegDerefNoOffset" "patterns ! 3 = regexRegDerefNoOffsetARM"
  "patterns ! 4 = regexConst" "patterns ! 5 = regexBareConst" "patterns ! 6 = regexReg"
  by (simp_all add: patterns_def)

fun captures :: "location \<Rightarrow> string list" where
  "captures (DerefOffset off n) = [off, n]"
| "captures (DerefOffsetArm n off) = [n, off]"
| "captures (Deref n) = [n]"
| "captures (DerefArm n) = [n]"
| "captures (DollarConst k) = [k]"
| "captures (BareConst k) = [k]"
| "captures (InReg pct n) = [n]"

text \<open>Well-formed but for the rule that tells a bare register from a bare constant.\<close>

fun location_lex :: "location \<Rightarrow> bool" where
  "location_lex (InReg pct n) \<longleftrightarrow> reg_text n"
| "location_lex l \<longleftrightarrow> location_wf l"

lemmas pattern_defs = regexRegDerefWithOffset_def regexRegDerefWithOffsetARM_def
  regexRegDerefNoOffset_def regexRegDerefNoOffsetARM_def regexConst_def regexBareConst_def
  regexReg_def

lemma rx_chr: "rx_match es r cs \<Longrightarrow> rx_match (chr c # es) (c # r) cs"
  using rx_Atom [of "Chr ((=) c)" "[c]"] by simp

lemma rx_chr_append: "rx_match es r cs \<Longrightarrow> rx_match (chr c # es) ([c] @ r) cs"
  by (simp add: rx_chr)

lemma rx_sp: "list_all is_re_space w \<Longrightarrow> rx_match es r cs \<Longrightarrow> rx_match (sp # es) (w @ r) cs"
  by (rule rx_Atom) simp_all

lemma rx_sp_end: "list_all is_re_space w \<Longrightarrow> rx_match [sp] w []"
  using rx_sp [of w "[]" "[]" "[]"] by simp

lemma rx_int: "int_text w \<Longrightarrow> rx_match es r cs \<Longrightarrow> rx_match (int_group # es) (w @ r) (w # cs)"
  by (rule rx_Group) (simp_all add: int_group_match)

lemma rx_float: "rx_match es r cs \<Longrightarrow> rx_match (float_group # es) (float_text f @ r) (float_text f # cs)"
  by (rule rx_Group) (auto simp add: float_group_match)

lemma rx_name: "reg_text w \<Longrightarrow> rx_match es r cs \<Longrightarrow> rx_match (name_group # es) (w @ r) (w # cs)"
  by (rule rx_Group) (simp_all add: name_group_match)

lemma rx_percent: "rx_match es r cs \<Longrightarrow>
    rx_match (Atom (Maybe ((=) CHR ''%'')) # es) ((if b then ''%'' else []) @ r) cs"
  by (rule rx_Atom) auto

lemmas rx_build = rx_chr_append rx_sp rx_sp_end rx_int rx_float rx_name rx_percent

lemma render_matches:
  assumes "gaps g" and "int_text sz" and "location_lex l"
  shows "rx_match (patterns ! kind l) (render g (ArgSyntax sz f l)) (sz # float_text f # captures l)"
  using assms unfolding render_def
  by (cases l; simp only: kind.simps nth_patterns pattern_defs captures.simps arg_syntax.sel
      render_location.simps append_assoc; intro rx_build; simp add: gapsD)

text \<open>Conversely, what a pattern matches is a rendering of a location of its kind.\<close>

definition matched_as :: "nat \<Rightarrow> string \<Rightarrow> string list \<Rightarrow> bool" where
  "matched_as k s cs \<longleftrightarrow> (\<exists>g sz f l. gaps g \<and> int_text sz \<and> location_lex l \<and> kind l = k
     \<and> s = render g (ArgSyntax sz f l) \<and> cs = sz # float_text f # captures l)"

lemma matched_asI:
  assumes "list_all (list_all is_re_space) ws" "int_text sz" "location_lex l" "kind l = k"
    and "s = render (gap_list ws) (ArgSyntax sz f l)" "cs = sz # float_text f # captures l"
  shows "matched_as k s cs"
  unfolding matched_as_def using assms gaps_gap_list by blast

lemma float_text_back: "float_text (float_text f \<noteq> []) = float_text f"
  by (simp add: float_text_def)

lemmas piece_simps = render_def gap_list_def int_group_match float_group_match name_group_match
  percent_ok chr_ok float_text_back

lemma match_deref_offset:
  assumes "rx_match regexRegDerefWithOffset s cs"
  shows "matched_as 0 s cs"
proof -
  from rx_pieces [OF assms] obtain ps where ps: "list_all2 elem_ok regexRegDerefWithOffset ps" "s = concat ps"
    "cs = group_pieces regexRegDerefWithOffset ps" by blast
  then obtain g0 sz f g1 a g2 off g3 b g4 c n g5 d g7 where "ps = [g0, sz, f, g1, a, g2, off, g3, b, g4, c, n, g5, d, g7]"
    unfolding regexRegDerefWithOffset_def by (auto simp only: list_all2_Cons1 list_all2_Nil)
  with ps show ?thesis
    by (intro matched_asI [where ws = "[g0, g1, g2, g3, g4, g5, [], g7]" and sz = sz
          and f = "f \<noteq> []" and l = "DerefOffset off n"])
      (auto simp: regexRegDerefWithOffset_def piece_simps simp del: atom_ok.simps(1,2))
qed

lemma match_deref_offset_arm:
  assumes "rx_match regexRegDerefWithOffsetARM s cs"
  shows "matched_as 1 s cs"
proof -
  from rx_pieces [OF assms] obtain ps where ps: "list_all2 elem_ok regexRegDerefWithOffsetARM ps" "s = concat ps"
    "cs = group_pieces regexRegDerefWithOffsetARM ps" by blast
  then obtain g0 sz f g1 a g2 b g3 n g4 c g5 off g6 d g7 where "ps = [g0, sz, f, g1, a, g2, b, g3, n, g4, c, g5, off, g6, d, g7]"
    unfolding regexRegDerefWithOffsetARM_def by (auto simp only: list_all2_Cons1 list_all2_Nil)
  with ps show ?thesis
    by (intro matched_asI [where ws = "[g0, g1, g2, g3, g4, g5, g6, g7]" and sz = sz
          and f = "f \<noteq> []" and l = "DerefOffsetArm n off"])
      (auto simp: regexRegDerefWithOffsetARM_def piece_simps simp del: atom_ok.simps(1,2))
qed

lemma match_deref:
  assumes "rx_match regexRegDerefNoOffset s cs"
  shows "matched_as 2 s cs"
proof -
  from rx_pieces [OF assms] obtain ps where ps: "list_all2 elem_ok regexRegDerefNoOffset ps" "s = concat ps"
    "cs = group_pieces regexRegDerefNoOffset ps" by blast
  then obtain g0 sz f g1 a g2 b g3 c n g4 d g7 where "ps = [g0, sz, f, g1, a, g2, b, g3, c, n, g4, d, g7]"
    unfolding regexRegDerefNoOffset_def by (auto simp only: list_all2_Cons1 list_all2_Nil)
  with ps show ?thesis
    by (intro matched_asI [where ws = "[g0, g1, g2, g3, g4, [], [], g7]" and sz = sz
          and f = "f \<noteq> []" and l = "Deref n"])
      (auto simp: regexRegDerefNoOffset_def piece_simps simp del: atom_ok.simps(1,2))
qed

lemma match_deref_arm:
  assumes "rx_match regexRegDerefNoOffsetARM s cs"
  shows "matched_as 3 s cs"
proof -
  from rx_pieces [OF assms] obtain ps where ps: "list_all2 elem_ok regexRegDerefNoOffsetARM ps" "s = concat ps"
    "cs = group_pieces regexRegDerefNoOffsetARM ps" by blast
  then obtain g0 sz f g1 a g2 b g3 n g4 d g7 where "ps = [g0, sz, f, g1, a, g2, b, g3, n, g4, d, g7]"
    unfolding regexRegDerefNoOffsetARM_def by (auto simp only: list_all2_Cons1 list_all2_Nil)
  with ps show ?thesis
    by (intro matched_asI [where ws = "[g0, g1, g2, g3, g4, [], [], g7]" and sz = sz
          and f = "f \<noteq> []" and l = "DerefArm n"])
      (auto simp: regexRegDerefNoOffsetARM_def piece_simps simp del: atom_ok.simps(1,2))
qed

lemma match_const:
  assumes "rx_match regexConst s cs"
  shows "matched_as 4 s cs"
proof -
  from rx_pieces [OF assms] obtain ps where ps: "list_all2 elem_ok regexConst ps" "s = concat ps"
    "cs = group_pieces regexConst ps" by blast
  then obtain g0 sz f g1 a g2 b k g7 where "ps = [g0, sz, f, g1, a, g2, b, k, g7]"
    unfolding regexConst_def by (auto simp only: list_all2_Cons1 list_all2_Nil)
  with ps show ?thesis
    by (intro matched_asI [where ws = "[g0, g1, g2, [], [], [], [], g7]" and sz = sz
          and f = "f \<noteq> []" and l = "DollarConst k"])
      (auto simp: regexConst_def piece_simps simp del: atom_ok.simps(1,2))
qed

lemma match_bare_const:
  assumes "rx_match regexBareConst s cs"
  shows "matched_as 5 s cs"
proof -
  from rx_pieces [OF assms] obtain ps where ps: "list_all2 elem_ok regexBareConst ps" "s = concat ps"
    "cs = group_pieces regexBareConst ps" by blast
  then obtain g0 sz f g1 a g2 k g7 where "ps = [g0, sz, f, g1, a, g2, k, g7]"
    unfolding regexBareConst_def by (auto simp only: list_all2_Cons1 list_all2_Nil)
  with ps show ?thesis
    by (intro matched_asI [where ws = "[g0, g1, g2, [], [], [], [], g7]" and sz = sz
          and f = "f \<noteq> []" and l = "BareConst k"])
      (auto simp: regexBareConst_def piece_simps simp del: atom_ok.simps(1,2))
qed

lemma match_reg:
  assumes "rx_match regexReg s cs"
  shows "matched_as 6 s cs"
proof -
  from rx_pieces [OF assms] obtain ps where ps: "list_all2 elem_ok regexReg ps" "s = concat ps"
    "cs = group_pieces regexReg ps" by blast
  then obtain g0 sz f g1 a g2 pc n g7 where "ps = [g0, sz, f, g1, a, g2, pc, n, g7]"
    unfolding regexReg_def by (auto simp only: list_all2_Cons1 list_all2_Nil)
  with ps show ?thesis
    by (intro matched_asI [where ws = "[g0, g1, g2, [], [], [], [], g7]" and sz = sz
          and f = "f \<noteq> []" and l = "InReg (pc \<noteq> []) n"])
      (auto simp: regexReg_def piece_simps simp del: atom_ok.simps(1,2) split: if_splits)
qed

lemma less_seven: "k < (7::nat) \<Longrightarrow> k = 0 \<or> k = 1 \<or> k = 2 \<or> k = 3 \<or> k = 4 \<or> k = 5 \<or> k = 6"
  by linarith

lemma pattern_match:
  assumes "rx_match (patterns ! k) s cs" and "k < 7"
  shows "matched_as k s cs"
  using less_seven [OF assms(2)] assms(1)
  by (elim disjE; simp only: nth_patterns match_deref_offset match_deref_offset_arm match_deref
      match_deref_arm match_const match_bare_const match_reg)

lemma det_patterns:
  assumes "k < 7"
  shows "det (flat (patterns ! k)) (\<lambda>_. False)"
  using less_seven [OF assms]
  by (elim disjE; simp only: nth_patterns pattern_defs)
    (auto simp: is_re_space_def is_digit_def is_lower_alnum_def)

subsection \<open>No string is rendered by two arguments\<close>

lemma int_text_chars: "int_text w \<Longrightarrow> c \<in> set w \<Longrightarrow> c = CHR ''-'' \<or> is_digit c"
  by (cases w) (auto simp: int_text_def list_all_iff split: if_splits)

lemma reg_text_chars: "reg_text w \<Longrightarrow> c \<in> set w \<Longrightarrow> is_lower_alnum c"
  by (simp add: reg_text_def list_all_iff)

lemma gap_chars: "gaps g \<Longrightarrow> i < 8 \<Longrightarrow> c \<in> set (g i) \<Longrightarrow> is_re_space c"
  by (simp add: gaps_def list_all_iff)

lemma gap_set: "gaps g \<Longrightarrow> i < 8 \<Longrightarrow> \<forall>c\<in>set (g i). is_re_space c"
  using gap_chars by blast

text \<open>The characters that tell most kinds apart occur in no number, name or white space.\<close>

definition special :: "char set" where
  "special = {CHR ''('', CHR ''['', CHR '','', CHR ''$''}"

fun marks :: "location \<Rightarrow> char set" where
  "marks (DerefOffset _ _) = {CHR ''(''}"
| "marks (DerefOffsetArm _ _) = {CHR ''['', CHR '',''}"
| "marks (Deref _) = {CHR ''(''}"
| "marks (DerefArm _) = {CHR ''[''}"
| "marks (DollarConst _) = {CHR ''$''}"
| "marks (BareConst _) = {}"
| "marks (InReg _ _) = {}"

lemma special_not_plain:
  assumes "c \<in> special \<union> {CHR ''@''}"
  shows "\<not> is_digit c \<and> \<not> is_lower_alnum c \<and> \<not> is_re_space c \<and> c \<noteq> CHR ''-'' \<and> c \<noteq> CHR ''f''
    \<and> c \<noteq> CHR ''%'' \<and> c \<noteq> CHR '')'' \<and> c \<noteq> CHR '']''"
  using assms by (auto simp: special_def is_digit_def is_lower_alnum_def is_re_space_def)

lemma plain_parts:
  assumes "c \<in> special \<union> {CHR ''@''}"
  shows "int_text w \<Longrightarrow> c \<notin> set w" "reg_text w \<Longrightarrow> c \<notin> set w" "c \<notin> set (float_text f)"
    "gaps g \<Longrightarrow> i < 8 \<Longrightarrow> c \<notin> set (g i)"
  using special_not_plain [OF assms] int_text_chars reg_text_chars gap_chars
  by (auto simp: float_text_def)

lemma location_marks:
  assumes "gaps g" "location_lex l" "c \<in> special"
  shows "c \<in> set (render_location g l) \<longleftrightarrow> c \<in> marks l"
proof -
  have c: "c \<in> special \<union> {CHR ''@''}" using assms(3) by simp
  note p = plain_parts [OF c] special_not_plain [OF c]
  show ?thesis using assms(1,2) p by (cases l) auto
qed

lemma location_no_at:
  assumes "gaps g" "location_lex l"
  shows "CHR ''@'' \<notin> set (render_location g l)"
proof -
  have c: "CHR ''@'' \<in> special \<union> {CHR ''@''}" by simp
  note p = plain_parts [OF c]
  show ?thesis using assms p by (cases l) auto
qed

lemma not_space: "is_digit c \<Longrightarrow> \<not> is_re_space c" "is_lower_alnum c \<Longrightarrow> \<not> is_re_space c"
  "\<not> is_re_space (CHR ''-'')"
  by (auto simp: is_re_space_def is_digit_def is_lower_alnum_def)

lemma int_text_head: "int_text w \<Longrightarrow> w \<noteq> [] \<and> \<not> is_re_space (hd w)"
  by (cases w) (auto simp: int_text_def not_space split: if_splits)

lemma reg_text_head: "reg_text w \<Longrightarrow> w \<noteq> [] \<and> \<not> is_re_space (hd w)"
  by (cases w) (auto simp: reg_text_def not_space)

lemma location_head:
  assumes "location_lex l"
  shows "render_location g l \<noteq> [] \<and> \<not> is_re_space (hd (render_location g l))"
  using assms int_text_head reg_text_head
  by (cases l) (auto simp: is_re_space_def hd_append)

text \<open>Two renderings of one string agree before and after the at sign.\<close>

lemma render_cut:
  assumes "gaps g" "int_text sz" "location_lex l" "gaps g'" "int_text sz'" "location_lex l'"
    and eq: "render g (ArgSyntax sz f l) = render g' (ArgSyntax sz' f' l')"
  shows "render_location g l @ g 7 = render_location g' l' @ g' 7"
proof -
  have c: "CHR ''@'' \<in> special \<union> {CHR ''@''}" by simp
  note p = plain_parts [OF c]
  let ?w = "g 0 @ sz @ float_text f @ g 1" and ?r = "g 2 @ render_location g l @ g 7"
  let ?w' = "g' 0 @ sz' @ float_text f' @ g' 1" and ?r' = "g' 2 @ render_location g' l' @ g' 7"
  have "?w @ (CHR ''@'' # ?r) = ?w' @ (CHR ''@'' # ?r')"
    using eq by (simp add: render_def)
  moreover have "\<forall>c\<in>set ?w. c \<noteq> CHR ''@''" "\<forall>c\<in>set ?w'. c \<noteq> CHR ''@''"
    using assms p by auto
  ultimately have "CHR ''@'' # ?r = CHR ''@'' # ?r'"
    by (rule append_class_unique [THEN conjunct2]) simp_all
  then have "g 2 @ (render_location g l @ g 7) = g' 2 @ (render_location g' l' @ g' 7)" by simp
  moreover have "\<forall>c\<in>set (g 2). is_re_space c" "\<forall>c\<in>set (g' 2). is_re_space c"
    using gap_set [OF assms(1), of 2] gap_set [OF assms(4), of 2] by simp_all
  ultimately show ?thesis
    by (rule append_class_unique [THEN conjunct2])
      (use assms(3,6) location_head in \<open>simp_all add: hd_append\<close>)
qed

text \<open>The kind is told by the marks, by what follows the at sign where both locations have a
  parenthesis, and by the rule on bare numbers.\<close>

lemma int_not_paren: "int_text w \<Longrightarrow> w @ u = CHR ''('' # v \<Longrightarrow> False"
  using int_text_chars [of w "CHR ''(''"] by (cases w) (auto simp: int_text_def is_digit_def)

lemma int_not_name:
  assumes "int_text k" "reg_text n" "pct \<or> \<not> list_all is_digit n"
    and "k @ u = (if pct then ''%'' else []) @ n @ v"
    and "\<forall>c\<in>set u. is_re_space c" "\<forall>c\<in>set v. is_re_space c"
  shows False
proof (cases pct)
  case True
  then show False using assms(1,4) int_text_chars [OF assms(1), of "CHR ''%''"]
    by (cases k) (auto simp: int_text_def is_digit_def)
next
  case False
  have "\<forall>c\<in>set k. \<not> is_re_space c" "\<forall>c\<in>set n. \<not> is_re_space c"
    using int_text_chars [OF assms(1)] reg_text_chars [OF assms(2)] not_space by auto
  moreover have "k @ u = n @ v" using False assms(4) by simp
  moreover have "u = [] \<or> \<not> \<not> is_re_space (hd u)" "v = [] \<or> \<not> \<not> is_re_space (hd v)"
    using assms(5,6) hd_in_set by fast+
  ultimately have "k = n" by (intro append_class_unique [THEN conjunct1, of k u n v])
  moreover have "CHR ''-'' \<notin> set n"
    using reg_text_chars [OF assms(2), of "CHR ''-''"] by (auto simp: is_lower_alnum_def is_digit_def)
  ultimately have "\<forall>c\<in>set n. is_digit c" using int_text_chars [OF assms(1)] by metis
  then show False using assms(3) False by (simp add: list_all_iff)
qed

lemma location_eq_kind:
  assumes "gaps g" "location_wf l" "gaps g'" "location_wf l'"
    and eq: "render_location g l @ g 7 = render_location g' l' @ g' 7"
  shows "kind l = kind l'"
proof -
  have lex: "location_wf l \<Longrightarrow> location_lex l" for l by (cases l) auto
  have m: "c \<in> special \<Longrightarrow> c \<in> marks l \<longleftrightarrow> c \<in> marks l'" for c
  proof -
    assume c: "c \<in> special"
    have "c \<in> set (render_location g l @ g 7) \<longleftrightarrow> c \<in> set (render_location g' l' @ g' 7)"
      using eq by simp
    moreover have "c \<notin> set (g 7)" "c \<notin> set (g' 7)" using plain_parts(4) c assms(1,3) by simp_all
    ultimately show ?thesis
      using location_marks [OF assms(1) lex [OF assms(2)] c] location_marks [OF assms(3) lex [OF assms(4)] c]
      by simp
  qed
  have sp: "\<forall>c\<in>set (g 7). is_re_space c" "\<forall>c\<in>set (g' 7). is_re_space c"
    using gap_set [OF assms(1), of 7] gap_set [OF assms(3), of 7] by simp_all
  note par = int_not_paren and num = int_not_name
  show ?thesis
    using assms(2,4) eq m [of "CHR ''(''"] m [of "CHR ''[''"] m [of "CHR '',''"] m [of "CHR ''$''"]
    by (cases l; cases l') (auto simp: special_def dest: par par [OF _ sym] num [OF _ _ _ _ sp] num [OF _ _ _ sym sp(2,1)])
qed

lemma render_kind:
  assumes "gaps g" "arg_wf a" "gaps g'" "arg_wf a'" "render g a = render g' a'"
  shows "kind (location_of a) = kind (location_of a')"
proof -
  obtain sz f l where a: "a = ArgSyntax sz f l" by (cases a)
  obtain sz' f' l' where a': "a' = ArgSyntax sz' f' l'" by (cases a')
  have lex: "location_wf l \<Longrightarrow> location_lex l" for l by (cases l) auto
  have "render_location g l @ g 7 = render_location g' l' @ g' 7"
    using assms lex by (intro render_cut [of g sz l g' sz' l' f f']) (auto simp: arg_wf_def a a')
  then show ?thesis using assms location_eq_kind [of g l g' l'] by (simp add: arg_wf_def a a')
qed

text \<open>A match of any pattern is a well-formed rendering, if perhaps of the bare-constant kind.\<close>

lemma location_normalise:
  assumes "location_lex l"
  shows "\<exists>l'. location_wf l' \<and> (\<forall>g. render_location g l' = render_location g l)
    \<and> (kind l' = kind l \<or> kind l = 6 \<and> kind l' = 5)"
proof (cases l)
  case (InReg pct n)
  show ?thesis
  proof (cases "\<not> pct \<and> list_all is_digit n")
    case True
    then have "int_text n" using assms InReg by (cases n) (auto simp: int_text_def reg_text_def)
    then show ?thesis using True InReg by (intro exI [of _ "BareConst n"]) simp
  next
    case False
    then show ?thesis using assms InReg by (intro exI [of _ l]) auto
  qed
qed (use assms in \<open>auto intro: exI [of _ l]\<close>)

lemma matched_render:
  assumes "rx_match (patterns ! k) s cs" and "k < 7"
  shows "\<exists>g a. gaps g \<and> arg_wf a \<and> s = render g a
    \<and> (kind (location_of a) = k \<or> k = 6 \<and> kind (location_of a) = 5)"
proof -
  from pattern_match [OF assms] obtain g sz f l where m: "gaps g" "int_text sz" "location_lex l"
    "kind l = k" "s = render g (ArgSyntax sz f l)" unfolding matched_as_def by blast
  obtain l' where l': "location_wf l'" "\<forall>g. render_location g l' = render_location g l"
    "kind l' = kind l \<or> kind l = 6 \<and> kind l' = 5" using location_normalise [OF m(3)] by blast
  show ?thesis
    by (rule exI [of _ g], rule exI [of _ "ArgSyntax sz f l'"])
      (use m l' in \<open>simp add: arg_wf_def render_def\<close>)
qed

lemma earlier_None:
  assumes "gaps g" "arg_wf a" "k < kind (location_of a)"
  shows "FindStringSubmatch (patterns ! k) (render g a) = None"
proof -
  have "kind (location_of a) \<le> 6" by (cases "location_of a") simp_all
  then have k: "k < 6" using assms(3) by linarith
  have "\<not> rx_match (patterns ! k) (render g a) cs" for cs
  proof
    assume "rx_match (patterns ! k) (render g a) cs"
    then obtain g' a' where "gaps g'" "arg_wf a'" "render g a = render g' a'" "kind (location_of a') = k"
      using matched_render k by fastforce
    then have "kind (location_of a) = k" using render_kind assms by metis
    then show False using assms(3) by simp
  qed
  then show ?thesis by (simp add: Find_None_iff)
qed

lemma own_Some:
  assumes "gaps g" "arg_wf (ArgSyntax sz f l)"
  shows "FindStringSubmatch (patterns ! kind l) (render g (ArgSyntax sz f l)) =
    Some (render g (ArgSyntax sz f l) # sz # float_text f # captures l)"
proof (rule Find_match)
  have "location_lex l" using assms(2) by (cases l) (simp_all add: arg_wf_def)
  then show "rx_match (patterns ! kind l) (render g (ArgSyntax sz f l)) (sz # float_text f # captures l)"
    using assms by (intro render_matches) (simp_all add: arg_wf_def)
  show "det (flat (patterns ! kind l)) (\<lambda>_. False)" by (rule det_patterns) (cases l; simp)
qed

subsection \<open>The numbers\<close>

lemma sint_of_int64: "in_int64 i \<Longrightarrow> sint (word_of_int i :: s64) = i"
  by (simp add: in_int64_def int_word_sint)

lemma ucast_word_of_int: "LENGTH('b::len) \<le> LENGTH('a::len) \<Longrightarrow>
    (ucast (word_of_int i :: 'a word) :: 'b word) = word_of_int i"
  by (rule bit_word_eqI) (simp add: bit_ucast_iff bit_word_of_int_iff)

lemma bitshift_value: "(ucast (64 - word_of_int n * 8 :: u64) :: u8) = word_of_int (64 - 8 * n)"
proof -
  have "64 - word_of_int n * 8 = (word_of_int (64 - 8 * n) :: u64)" by (simp add: mult.commute)
  then show ?thesis by (simp only: ucast_word_of_int [where 'a = 64 and 'b = 8, simplified])
qed

lemma set_size_value:
  assumes "in_int64 i"
  shows "set_size spec (word_of_int i) f = spec\<lparr>Arg_signed := i < 0, Arg_is_float := f,
    Arg_bitshift := word_of_int (64 - 8 * \<bar>i\<bar>)\<rparr>"
proof (cases "i < 0")
  case True
  have "- word_of_int i = (word_of_int (- i) :: s64)" by simp
  then show ?thesis using True assms bitshift_value [of "- i"]
    by (simp add: set_size_def word_sless_alt sint_of_int64)
next
  case False
  then show ?thesis using assms bitshift_value [of i]
    by (simp add: set_size_def word_sless_alt sint_of_int64)
qed

lemma try_ParseInt:
  assumes "int_text w"
  shows "try_wrap err (ParseInt w) k = with_int err w (\<lambda>i. k (word_of_int i))"
  by (simp add: ParseInt_text [OF assms] with_int_def)

lemma with_int_cong:
  "(\<And>i. in_int64 i \<Longrightarrow> i = int_value w \<Longrightarrow> k i = k' i) \<Longrightarrow> with_int err w k = with_int err w k'"
  by (simp add: with_int_def)

lemma float_text_eq: "float_text f = ''f'' \<longleftrightarrow> f"
  by (simp add: float_text_def)

subsection \<open>What \<open>ParseUSDTArgSpec\<close> returns\<close>

lemma branch_deref_offset:
  assumes "int_text sz" "location_lex (DerefOffset off n)"
  shows "parse_deref_offset goarch [s, sz, float_text f, off, n] = denote goarch (ArgSyntax sz f (DerefOffset off n))"
  using assms by (auto simp: parse_deref_offset_def try_ParseInt with_reg_def set_size_value spec_of_def
      float_text_eq intro!: with_int_cong split: option.split)

lemma branch_deref_offset_arm:
  assumes "int_text sz" "location_lex (DerefOffsetArm n off)"
  shows "parse_deref_offset_arm goarch [s, sz, float_text f, n, off] = denote goarch (ArgSyntax sz f (DerefOffsetArm n off))"
  using assms by (auto simp: parse_deref_offset_arm_def try_ParseInt with_reg_def set_size_value spec_of_def
      float_text_eq intro!: with_int_cong split: option.split)

lemma branch_deref:
  assumes "int_text sz"
  shows "parse_deref goarch [s, sz, float_text f, n] = denote goarch (ArgSyntax sz f (Deref n))"
    and "parse_deref_arm goarch [s, sz, float_text f, n] = denote goarch (ArgSyntax sz f (DerefArm n))"
    and "parse_reg goarch [s, sz, float_text f, n] = denote goarch (ArgSyntax sz f (InReg pct n))"
  using assms by (auto simp: parse_deref_def parse_deref_arm_def parse_reg_def try_ParseInt with_reg_def
      set_size_value spec_of_def float_text_eq intro!: with_int_cong split: option.split)

lemma branch_const:
  assumes "int_text sz" "int_text k"
  shows "parse_const [s, sz, float_text f, k] = denote goarch (ArgSyntax sz f (DollarConst k))"
    and "parse_bare_const [s, sz, float_text f, k] = denote goarch (ArgSyntax sz f (BareConst k))"
  using assms by (auto simp: parse_const_def parse_bare_const_def try_ParseInt
      set_size_value spec_of_def float_text_eq intro!: with_int_cong)

lemma render_nonempty [simp]: "render g a \<noteq> []"
  by (simp add: render_def)

lemma parse_render:
  assumes "gaps g" "arg_wf a" "TrimSpace s = render g a"
  shows "ParseUSDTArgSpec goarch s = denote goarch a"
proof -
  obtain sz f l where a: "a = ArgSyntax sz f l" by (cases a)
  have sz: "int_text sz" and l: "location_lex l" using assms(2) a
    by (auto simp: arg_wf_def) (cases l; simp)
  have none: "k < kind l \<Longrightarrow> FindStringSubmatch (patterns ! k) (render g a) = None" for k
    using earlier_None [OF assms(1,2)] a by simp
  have some: "FindStringSubmatch (patterns ! kind l) (render g a) =
      Some (render g a # sz # float_text f # captures l)"
    using own_Some [of g sz f l] assms(1,2) a by simp
  note n = none [of 0] none [of 1] none [of 2] none [of 3] none [of 4] none [of 5]
  note branches = branch_deref_offset branch_deref_offset_arm branch_deref branch_const
  show ?thesis
    using n some sz l
    by (cases l; simp only: kind.simps nth_patterns captures.simps ParseUSDTArgSpec_def assms(3) Let_def
        render_nonempty if_False option.case a branches location_lex.simps location_wf.simps
        arith_simps rel_simps zero_less_one zero_less_numeral one_less_numeral_iff)
qed

lemma parse_unrecognized:
  assumes "TrimSpace s \<noteq> []" and "\<And>g a. gaps g \<Longrightarrow> arg_wf a \<Longrightarrow> TrimSpace s \<noteq> render g a"
  shows "ParseUSDTArgSpec goarch s = Inl (UnrecognizedFormat (TrimSpace s))"
proof -
  have "FindStringSubmatch (patterns ! k) (TrimSpace s) = None" if "k < 7" for k
    using assms(2) matched_render [OF _ that, of "TrimSpace s"] by (fastforce simp: Find_None_iff)
  note none = this [of 0] this [of 1] this [of 2] this [of 3] this [of 4] this [of 5] this [of 6]
  show ?thesis
    using assms(1) none by (simp add: ParseUSDTArgSpec_def Let_def nth_patterns nth_patterns(2) [simplified])
qed

lemma parse_empty: "TrimSpace s = [] \<Longrightarrow> ParseUSDTArgSpec goarch s = Inl EmptyArgument"
  by (simp add: ParseUSDTArgSpec_def)

text \<open>The three outcomes exclude each other and leave nothing out.\<close>

lemma parse_cases:
  obtains (blank) "TrimSpace s = []" "ParseUSDTArgSpec goarch s = Inl EmptyArgument"
  | (form) g a where "gaps g" "arg_wf a" "TrimSpace s = render g a"
      "ParseUSDTArgSpec goarch s = denote goarch a"
  | (other) "TrimSpace s \<noteq> []" "\<And>g a. gaps g \<Longrightarrow> arg_wf a \<Longrightarrow> TrimSpace s \<noteq> render g a"
      "ParseUSDTArgSpec goarch s = Inl (UnrecognizedFormat (TrimSpace s))"
  using parse_empty parse_render parse_unrecognized by metis

subsection \<open>The syntax is unambiguous\<close>

lemma captures_inj:
  assumes "kind l = kind l'" "captures l = captures l'" "kind l \<noteq> 6"
  shows "l = l'"
  using assms by (cases l; cases l') auto

lemma percent_inj:
  assumes "(if p then ''%'' else []) @ n @ u = (if q then ''%'' else []) @ n @ v" "reg_text n"
  shows "p = q"
  using assms reg_text_chars [OF assms(2), of "CHR ''%''"]
  by (cases n) (auto simp: reg_text_def is_lower_alnum_def is_digit_def split: if_splits)

lemma render_inj:
  assumes "gaps g" "arg_wf a" "gaps g'" "arg_wf a'" "render g a = render g' a'"
  shows "a = a'"
proof -
  obtain sz f l where a: "a = ArgSyntax sz f l" by (cases a)
  obtain sz' f' l' where a': "a' = ArgSyntax sz' f' l'" by (cases a')
  have k: "kind l = kind l'" using render_kind [OF assms] by (simp add: a a')
  have eq: "sz = sz'" "float_text f = float_text f'" "captures l = captures l'"
    using own_Some [of g sz f l] own_Some [of g' sz' f' l'] assms k by (simp_all add: a a')
  from eq(2) have f: "f = f'" using float_text_eq by metis
  have "l = l'"
  proof (cases "kind l = 6")
    case True
    then obtain p n q m where l: "l = InReg p n" "l' = InReg q m" using k by (cases l; cases l') auto
    then have "render_location g l @ g 7 = render_location g' l' @ g' 7"
      using assms by (intro render_cut [of g sz l g' sz' l' f f']) (auto simp: arg_wf_def a a')
    then show ?thesis using l eq(3) assms(2) percent_inj [of p n "g 7" q "g' 7"]
      by (simp add: arg_wf_def a)
  next
    case False
    then show ?thesis using captures_inj k eq(3) by blast
  qed
  then show ?thesis using eq(1) f by (simp add: a a')
qed

subsection \<open>Valid specs\<close>

definition arch_regs :: "string \<Rightarrow> u8 set" where
  "arch_regs goarch = (if goarch = ''amd64'' then {1..17} else if goarch = ''arm64'' then {32..64} else {})"

definition ArgSpec_valid :: "string \<Rightarrow> ArgSpec \<Rightarrow> bool" where
  "ArgSpec_valid goarch a \<longleftrightarrow>
     (Arg_type a = ArgConst \<and> Reg_id a = RegNone
      \<or> Arg_type a = ArgReg \<and> Val_off a = 0 \<and> Reg_id a \<in> arch_regs goarch
      \<or> Arg_type a = ArgRegDeref \<and> Reg_id a \<in> arch_regs goarch)
     \<and> 8 dvd uint (Arg_bitshift a)
     \<and> Arg_X_pad a = Arg_X_pad zero_ArgSpec \<and> Pad_cgo_0 a = Pad_cgo_0 zero_ArgSpec"

lemma lookup_arch_regs: "lookupRegister goarch n = Some r \<Longrightarrow> r \<in> arch_regs goarch"
  using lookup_amd64_range [of n r] lookup_arm64_range [of n r]
  by (auto simp: arch_regs_def lookupRegister_def split: if_splits)

lemma bitshift_dvd: "8 dvd uint (64 - 8 * word_of_int i :: u8)"
proof -
  have "(8::int) dvd (64 - 8 * i) mod 256" by (intro dvd_mod) simp_all
  moreover have "64 - 8 * word_of_int i = (word_of_int (64 - 8 * i) :: u8)" by simp
  ultimately show ?thesis by (simp only: uint_word_of_int) simp
qed

lemma spec_of_valid:
  "ty = ArgConst \<and> r = RegNone \<or> ty = ArgReg \<and> off = 0 \<and> r \<in> arch_regs goarch
     \<or> ty = ArgRegDeref \<and> r \<in> arch_regs goarch \<Longrightarrow> ArgSpec_valid goarch (spec_of ty off r sz f)"
  by (auto simp: ArgSpec_valid_def spec_of_def bitshift_dvd)

lemma with_int_Inr: "with_int err w k = Inr x \<longleftrightarrow> in_int64 (int_value w) \<and> k (int_value w) = Inr x"
  by (simp add: with_int_def)

lemma with_reg_Inr: "with_reg goarch n k = Inr x \<longleftrightarrow> (\<exists>r. lookupRegister goarch n = Some r \<and> x = k r)"
  by (auto simp: with_reg_def split: option.splits)

lemma denote_valid: "denote goarch a = Inr x \<Longrightarrow> ArgSpec_valid goarch x"
  by (cases a; cases "location_of a")
    (auto simp: with_int_Inr with_reg_Inr lookup_arch_regs intro!: spec_of_valid)

lemma parse_Inr_iff:
  "ParseUSDTArgSpec goarch s = Inr x \<longleftrightarrow>
     (\<exists>g a. gaps g \<and> arg_wf a \<and> TrimSpace s = render g a \<and> denote goarch a = Inr x)"
proof
  assume x: "ParseUSDTArgSpec goarch s = Inr x"
  show "\<exists>g a. gaps g \<and> arg_wf a \<and> TrimSpace s = render g a \<and> denote goarch a = Inr x"
    by (rule parse_cases [of s goarch]) (use x in auto)
qed (auto simp: parse_render)

lemma parse_valid: "ParseUSDTArgSpec goarch s = Inr x \<Longrightarrow> ArgSpec_valid goarch x"
  using denote_valid by (auto simp: parse_Inr_iff)

lemma ArgSpec_valid_wf: "ArgSpec_valid goarch a \<Longrightarrow> ArgSpec_wf a"
  by (simp add: ArgSpec_valid_def ArgSpec_wf_def zero_ArgSpec_def)

end
