(* ===== verification/Arguments.thy ===== *)
theory Arguments
  imports Arg_Parser Utf8
begin

section \<open>The argument string: \<open>splitUSDTArgs\<close> and \<open>ParseUSDTArguments\<close> of \<open>args.go\<close>\<close>

text \<open>
  The splitter is a state machine over the runes of the string: the arguments cut so far, the
  one being built and whether a bracket is open. \<open>scan\<close> says what a stretch of text without a
  separator outside brackets does to the flag, \<open>field\<close> what one argument text is; a join of
  fields with non-empty separators is split into them. \<open>parse_args_loop\<close> is the loop of
  \<open>ParseUSDTArguments\<close>.
\<close>

subsection \<open>Definitions\<close>

record split_state =
  split_args :: "string list"
  split_current :: string
  split_inBrackets :: bool

definition split_step :: "nat \<Rightarrow> split_state \<Rightarrow> split_state" where
  "split_step ch st =
     (if ch = 91 then st\<lparr>split_inBrackets := True, split_current := split_current st @ write_rune ch\<rparr>
      else if ch = 93 then
        st\<lparr>split_inBrackets := False, split_current := split_current st @ write_rune ch\<rparr>
      else if ch \<in> {32, 9, 10, 13} then
        (if split_inBrackets st then st\<lparr>split_current := split_current st @ write_rune ch\<rparr>
         else if split_current st \<noteq> [] then
           st\<lparr>split_args := split_args st @ [split_current st], split_current := []\<rparr>
         else st)
      else st\<lparr>split_current := split_current st @ write_rune ch\<rparr>)"

definition split_init :: split_state where
  "split_init = \<lparr>split_args = [], split_current = [], split_inBrackets = False\<rparr>"

definition split_finish :: "split_state \<Rightarrow> string list" where
  "split_finish st =
     (if split_current st \<noteq> [] then split_args st @ [split_current st] else split_args st)"

definition splitUSDTArgs :: "string \<Rightarrow> string list" where
  "splitUSDTArgs argString = split_finish (fold split_step (range_runes argString) split_init)"

fun parse_args_loop :: "string \<Rightarrow> nat \<Rightarrow> string list \<Rightarrow> Spec \<Rightarrow> go_error + Spec" where
  "parse_args_loop goarch i [] spec = Inr spec"
| "parse_args_loop goarch i (argStr # rest) spec =
     (case ParseUSDTArgSpec goarch argStr of
        Inl err \<Rightarrow> Inl (ParseArgument i argStr err)
      | Inr argSpec \<Rightarrow> parse_args_loop goarch (Suc i) rest (spec\<lparr>Args := (Args spec)[i := argSpec]\<rparr>))"

definition ParseUSDTArguments :: "string \<Rightarrow> string \<Rightarrow> go_error + Spec" where
  "ParseUSDTArguments goarch argString0 =
     (let argString = TrimSpace argString0 in
      if argString = [] then Inr (zero_Spec\<lparr>Arg_cnt := 0\<rparr>)
      else
        let argStrs = splitUSDTArgs argString in
        if 12 < length argStrs then Inl (TooManyArguments (length argStrs))
        else parse_args_loop goarch 0 argStrs (zero_Spec\<lparr>Arg_cnt := of_nat (length argStrs)\<rparr>))"

subsection \<open>Splitting\<close>

definition is_sep :: "char \<Rightarrow> bool" where
  "is_sep c \<longleftrightarrow> (of_char c :: nat) \<in> {32, 9, 10, 13}"

text \<open>The bracket flag after a text, \<open>None\<close> when a separator occurs outside brackets.\<close>

fun scan :: "bool \<Rightarrow> string \<Rightarrow> bool option" where
  "scan b [] = Some b"
| "scan b (c # s) =
     (if c = CHR ''['' then scan True s
      else if c = CHR '']'' then scan False s
      else if is_sep c \<and> \<not> b then None
      else scan b s)"

definition field :: "string \<Rightarrow> bool" where
  "field f \<longleftrightarrow> f \<noteq> [] \<and> list_all ascii f \<and> scan False f = Some False"

definition separator :: "string \<Rightarrow> bool" where
  "separator w \<longleftrightarrow> w \<noteq> [] \<and> list_all is_sep w"

text \<open>A first field and then, any number of times, a separator and a field.\<close>

definition join :: "string \<Rightarrow> (string \<times> string) list \<Rightarrow> string" where
  "join f rest = f @ concat (map (\<lambda>(w, f). w @ f) rest)"

definition char_step :: "char \<Rightarrow> split_state \<Rightarrow> split_state" where
  "char_step c = split_step (of_char c)"

lemma of_char_brackets:
  "(of_char c :: nat) = 91 \<longleftrightarrow> c = CHR ''[''" "(of_char c :: nat) = 93 \<longleftrightarrow> c = CHR '']''"
proof -
  have "(of_char c :: nat) = of_char d \<longleftrightarrow> c = d" for d by (rule of_char_eq_iff)
  from this [of "CHR ''[''"] this [of "CHR '']''"] show
    "(of_char c :: nat) = 91 \<longleftrightarrow> c = CHR ''[''" "(of_char c :: nat) = 93 \<longleftrightarrow> c = CHR '']''" by simp_all
qed

lemma is_sep_ascii: "is_sep c \<Longrightarrow> ascii c"
  by (auto simp: is_sep_def ascii_def)

lemma is_sep_brackets [simp]: "\<not> is_sep (CHR ''['')" "\<not> is_sep (CHR '']'')"
  by (simp_all add: is_sep_def)

lemma char_step_ascii:
  assumes "ascii c"
  shows "char_step c st =
     (if c = CHR ''['' then st\<lparr>split_inBrackets := True, split_current := split_current st @ [c]\<rparr>
      else if c = CHR '']'' then
        st\<lparr>split_inBrackets := False, split_current := split_current st @ [c]\<rparr>
      else if is_sep c \<and> \<not> split_inBrackets st then
        (if split_current st \<noteq> [] then
           st\<lparr>split_args := split_args st @ [split_current st], split_current := []\<rparr>
         else st)
      else st\<lparr>split_current := split_current st @ [c]\<rparr>)"
  unfolding char_step_def split_step_def write_rune_ascii [OF assms] of_char_brackets is_sep_def
  by simp

lemma fold_runes_ascii:
  "list_all ascii s \<Longrightarrow> fold split_step (range_runes s) st = fold char_step s st"
  by (simp add: range_runes_ascii fold_map comp_def char_step_def [abs_def])

lemma fold_scan:
  assumes "scan b f = Some b'" "list_all ascii f"
  shows "fold char_step f \<lparr>split_args = as, split_current = cur, split_inBrackets = b\<rparr> =
    \<lparr>split_args = as, split_current = cur @ f, split_inBrackets = b'\<rparr>"
  using assms
  by (induction f arbitrary: b cur) (auto simp: char_step_ascii split: if_splits)

lemma fold_seps:
  assumes "list_all is_sep w"
  shows "fold char_step w \<lparr>split_args = as, split_current = [], split_inBrackets = False\<rparr> =
    \<lparr>split_args = as, split_current = [], split_inBrackets = False\<rparr>"
  using assms by (induction w) (auto simp: char_step_ascii is_sep_ascii)

lemma fold_separator:
  assumes "separator w" "cur \<noteq> []"
  shows "fold char_step w \<lparr>split_args = as, split_current = cur, split_inBrackets = False\<rparr> =
    \<lparr>split_args = as @ [cur], split_current = [], split_inBrackets = False\<rparr>"
proof -
  obtain c w' where w: "w = c # w'" "is_sep c" "list_all is_sep w'"
    using assms(1) by (cases w) (auto simp: separator_def)
  have "c \<noteq> CHR ''['' \<and> c \<noteq> CHR '']''" using w(2) by auto
  then show ?thesis
    using w assms(2) fold_seps [OF w(3), of "as @ [cur]"]
    by (simp add: char_step_ascii [OF is_sep_ascii [OF w(2)]])
qed

lemma fold_rest:
  assumes "cur \<noteq> []" "\<forall>(w, f)\<in>set rest. separator w \<and> field f"
  shows "split_finish (fold char_step (concat (map (\<lambda>(w, f). w @ f) rest))
      \<lparr>split_args = as, split_current = cur, split_inBrackets = False\<rparr>) = as @ cur # map snd rest"
  using assms
proof (induction rest arbitrary: as cur)
  case Nil
  then show ?case by (simp add: split_finish_def)
next
  case (Cons p rest)
  obtain w f where p: "p = (w, f)" by fastforce
  with Cons.prems have w: "separator w" and f: "field f" by auto
  from f have "scan False f = Some False" "list_all ascii f" "f \<noteq> []" by (auto simp: field_def)
  then show ?case
    using Cons.IH [of f "as @ [cur]"] Cons.prems
    by (simp add: p fold_separator [OF w] fold_scan)
qed

lemma join_ascii:
  assumes "field f" "\<forall>(w, f)\<in>set rest. separator w \<and> field f"
  shows "list_all ascii (join f rest)"
proof -
  have "separator w \<Longrightarrow> list_all ascii w" for w
    using is_sep_ascii by (auto simp: separator_def list_all_iff)
  then show ?thesis
    using assms by (induction rest) (auto simp: join_def field_def)
qed

lemma split_join:
  assumes "field f" "\<forall>(w, f)\<in>set rest. separator w \<and> field f"
  shows "splitUSDTArgs (join f rest) = f # map snd rest"
proof -
  have f: "scan False f = Some False" "list_all ascii f" "f \<noteq> []"
    using assms(1) by (auto simp: field_def)
  have "fold char_step (join f rest) split_init =
      fold char_step (concat (map (\<lambda>(w, f). w @ f) rest))
        \<lparr>split_args = [], split_current = f, split_inBrackets = False\<rparr>"
    using fold_scan [OF f(1,2), of "[]" "[]"] by (simp add: join_def split_init_def)
  then show ?thesis
    using fold_rest [OF f(3) assms(2), of "[]"] fold_runes_ascii [OF join_ascii [OF assms]]
    by (simp add: splitUSDTArgs_def)
qed

text \<open>Every piece is non-empty, whatever the input.\<close>

lemma split_step_nonempty:
  "[] \<notin> set (split_args st) \<Longrightarrow> [] \<notin> set (split_args (split_step ch st))"
  by (auto simp: split_step_def)

lemma split_fold_nonempty:
  "[] \<notin> set (split_args st) \<Longrightarrow> [] \<notin> set (split_args (fold split_step cs st))"
  by (induction cs arbitrary: st) (simp_all add: split_step_nonempty)

lemma split_nonempty: "[] \<notin> set (splitUSDTArgs s)"
  using split_fold_nonempty [of split_init "range_runes s"]
  by (auto simp: splitUSDTArgs_def split_finish_def split_init_def)

text \<open>Only separators are dropped: without them the pieces spell the string again.\<close>

definition visible :: "string \<Rightarrow> string" where
  "visible s = filter (\<lambda>c. \<not> is_sep c) s"

lemma visible_Nil [simp]: "visible [] = []"
  by (simp add: visible_def)

lemma visible_append [simp]: "visible (a @ b) = visible a @ visible b"
  by (simp add: visible_def)

lemma visible_concat: "visible (concat xs) = concat (map visible xs)"
  by (induction xs) (simp_all add: visible_def)

definition split_text :: "split_state \<Rightarrow> string" where
  "split_text st = concat (split_args st) @ split_current st"

lemma visible_sep_rune: "r \<in> {32, 9, 10, 13} \<Longrightarrow> visible (write_rune r) = []"
  by (auto simp: write_rune_def visible_def is_sep_def)

lemma split_step_visible:
  "visible (split_text (split_step r st)) = visible (split_text st) @ visible (write_rune r)"
  by (auto simp: split_step_def split_text_def visible_sep_rune)

lemma split_fold_visible:
  "visible (split_text (fold split_step rs st)) = visible (split_text st @ concat (map write_rune rs))"
  by (induction rs arbitrary: st) (simp_all add: split_step_visible)

lemma split_visible: "visible (concat (splitUSDTArgs s)) = visible (concat (map write_rune (range_runes s)))"
  using split_fold_visible [of "range_runes s" split_init]
  by (auto simp: splitUSDTArgs_def split_finish_def split_text_def split_init_def)

lemma split_visible_utf8: "valid_utf8 s \<Longrightarrow> visible (concat (splitUSDTArgs s)) = visible s"
  by (simp add: split_visible copy_valid)

subsection \<open>The loop over the arguments\<close>

lemma parse_args_loop_ok:
  assumes "list_all2 (\<lambda>s a. ParseUSDTArgSpec goarch s = Inr a) ss as"
    and "i + length ss \<le> length (Args spec)"
  shows "parse_args_loop goarch i ss spec =
    Inr (spec\<lparr>Args := take i (Args spec) @ as @ drop (i + length ss) (Args spec)\<rparr>)"
  using assms
proof (induction ss as arbitrary: i spec rule: list_all2_induct)
  case Nil
  then show ?case by simp
next
  case (Cons s ss a as)
  have "parse_args_loop goarch (Suc i) ss (spec\<lparr>Args := (Args spec)[i := a]\<rparr>) =
    Inr (spec\<lparr>Args := take (Suc i) ((Args spec)[i := a]) @ as @ drop (Suc i + length ss) ((Args spec)[i := a])\<rparr>)"
    using Cons.IH [of "Suc i" "spec\<lparr>Args := (Args spec)[i := a]\<rparr>"] Cons.prems by simp
  then show ?case using Cons.hyps(1) Cons.prems by (simp add: list_update_take_drop)
qed

lemma parse_args_loop_err:
  assumes "list_all2 (\<lambda>s a. ParseUSDTArgSpec goarch s = Inr a) ss as"
    and "ParseUSDTArgSpec goarch s = Inl e"
  shows "parse_args_loop goarch i (ss @ s # rest) spec = Inl (ParseArgument (i + length ss) s e)"
  using assms by (induction ss as arbitrary: i spec rule: list_all2_induct) simp_all

text \<open>Either all parse, or a first one does not.\<close>

lemma all_or_first_error:
  obtains (all) as where "list_all2 (\<lambda>s a. ParseUSDTArgSpec goarch s = Inr a) ss as"
  | (first) ss1 as s e ss2 where "ss = ss1 @ s # ss2" "ParseUSDTArgSpec goarch s = Inl e"
      "list_all2 (\<lambda>s a. ParseUSDTArgSpec goarch s = Inr a) ss1 as"
proof (induction ss arbitrary: thesis)
  case Nil
  then show ?case by simp
next
  case (Cons s ss)
  show ?case
  proof (cases "ParseUSDTArgSpec goarch s")
    case (Inl e)
    then show ?thesis using Cons.prems(2) [of "[]" s ss e "[]"] by simp
  next
    case (Inr a)
    show ?thesis
    proof (rule Cons.IH)
      fix as assume "list_all2 (\<lambda>s a. ParseUSDTArgSpec goarch s = Inr a) ss as"
      then show ?thesis using Cons.prems(1) [of "a # as"] Inr by simp
    next
      fix ss1 as s' e ss2
      assume "ss = ss1 @ s' # ss2" "ParseUSDTArgSpec goarch s' = Inl e"
        "list_all2 (\<lambda>s a. ParseUSDTArgSpec goarch s = Inr a) ss1 as"
      then show ?thesis using Cons.prems(2) [of "s # ss1" s' ss2 e "a # as"] Inr by simp
    qed
  qed
qed

definition spec_with :: "ArgSpec list \<Rightarrow> Spec" where
  "spec_with as = zero_Spec\<lparr>Args := as @ replicate (12 - length as) zero_ArgSpec,
     Arg_cnt := of_nat (length as)\<rparr>"

lemma ParseUSDTArguments_all:
  assumes "TrimSpace s \<noteq> []" "length (splitUSDTArgs (TrimSpace s)) \<le> 12"
    and "list_all2 (\<lambda>s a. ParseUSDTArgSpec goarch s = Inr a) (splitUSDTArgs (TrimSpace s)) as"
  shows "ParseUSDTArguments goarch s = Inr (spec_with as)"
  using assms list_all2_lengthD [OF assms(3)]
  by (simp add: ParseUSDTArguments_def Let_def parse_args_loop_ok spec_with_def zero_Spec_def)

lemma ParseUSDTArguments_first_error:
  assumes "TrimSpace s \<noteq> []" "splitUSDTArgs (TrimSpace s) = ss @ t # rest"
    and "length (splitUSDTArgs (TrimSpace s)) \<le> 12"
    and "list_all2 (\<lambda>s a. ParseUSDTArgSpec goarch s = Inr a) ss as" "ParseUSDTArgSpec goarch t = Inl e"
  shows "ParseUSDTArguments goarch s = Inl (ParseArgument (length ss) t e)"
  using assms parse_args_loop_err [OF assms(4,5), of 0 rest]
  by (simp add: ParseUSDTArguments_def Let_def)

lemma ParseUSDTArguments_too_many:
  assumes "12 < length (splitUSDTArgs (TrimSpace s))"
  shows "ParseUSDTArguments goarch s = Inl (TooManyArguments (length (splitUSDTArgs (TrimSpace s))))"
proof -
  have "splitUSDTArgs [] = []" by (simp add: splitUSDTArgs_def split_finish_def split_init_def)
  then show ?thesis using assms by (auto simp: ParseUSDTArguments_def Let_def)
qed

lemma ParseUSDTArguments_Inr:
  assumes "ParseUSDTArguments goarch s = Inr spec"
  shows "\<exists>as. length as \<le> 12 \<and> spec = spec_with as
    \<and> (TrimSpace s = [] \<and> as = [] \<or> TrimSpace s \<noteq> []
       \<and> list_all2 (\<lambda>s a. ParseUSDTArgSpec goarch s = Inr a) (splitUSDTArgs (TrimSpace s)) as)"
proof (cases "TrimSpace s = []")
  case True
  then show ?thesis using assms
    by (intro exI [of _ "[]"]) (auto simp: ParseUSDTArguments_def spec_with_def zero_Spec_def)
next
  case False
  have len: "length (splitUSDTArgs (TrimSpace s)) \<le> 12"
  proof (rule ccontr)
    assume "\<not> ?thesis"
    then show False using assms ParseUSDTArguments_too_many [of s goarch] by simp
  qed
  show ?thesis
  proof (rule all_or_first_error [of goarch "splitUSDTArgs (TrimSpace s)"])
    fix as assume a: "list_all2 (\<lambda>s a. ParseUSDTArgSpec goarch s = Inr a) (splitUSDTArgs (TrimSpace s)) as"
    then show ?thesis
      using ParseUSDTArguments_all [OF False len a] assms len False list_all2_lengthD [OF a]
      by (intro exI [of _ as]) simp
  next
    fix ss as t e rest
    assume "splitUSDTArgs (TrimSpace s) = ss @ t # rest" "ParseUSDTArgSpec goarch t = Inl e"
      "list_all2 (\<lambda>s a. ParseUSDTArgSpec goarch s = Inr a) ss as"
    then show ?thesis using ParseUSDTArguments_first_error [OF False _ len] assms by fastforce
  qed
qed

subsection \<open>Renderings as fields\<close>

text \<open>White space may stand inside brackets only, so that the splitter keeps an argument whole.\<close>

fun tight_location :: "(nat \<Rightarrow> string) \<Rightarrow> location \<Rightarrow> bool" where
  "tight_location g (DerefOffset _ _) \<longleftrightarrow> g 3 = [] \<and> g 4 = [] \<and> g 5 = []"
| "tight_location g (Deref _) \<longleftrightarrow> g 3 = [] \<and> g 4 = []"
| "tight_location g _ \<longleftrightarrow> True"

definition tight :: "(nat \<Rightarrow> string) \<Rightarrow> arg_syntax \<Rightarrow> bool" where
  "tight g a \<longleftrightarrow> gaps g \<and> g 0 = [] \<and> g 1 = [] \<and> g 2 = [] \<and> g 7 = [] \<and> tight_location g (location_of a)"

definition no_gaps :: "nat \<Rightarrow> string" where
  "no_gaps = (\<lambda>_. [])"

lemma no_gaps_ok [simp]: "gaps no_gaps" "no_gaps i = []"
  by (simp_all add: gaps_def no_gaps_def)

lemma tight_no_gaps [simp]: "tight no_gaps a"
  by (cases "location_of a") (simp_all add: tight_def)

lemma scan_append: "scan b s = Some b' \<Longrightarrow> scan b (s @ t) = scan b' t"
  by (induction s arbitrary: b) (auto split: if_splits)

text \<open>Text without brackets and, outside them, without separators leaves the flag.\<close>

lemma scan_plain:
  assumes "\<forall>c\<in>set w. c \<noteq> CHR ''['' \<and> c \<noteq> CHR '']'' \<and> (is_sep c \<longrightarrow> b)"
  shows "scan b (w @ t) = scan b t"
  using assms by (induction w) auto

lemma plain_no_sep:
  "is_digit c \<Longrightarrow> \<not> is_sep c" "is_lower_alnum c \<Longrightarrow> \<not> is_sep c" "\<not> is_sep (CHR ''-'')" "\<not> is_sep (CHR ''f'')"
  by (auto simp: is_sep_def is_digit_def is_lower_alnum_def)

lemma plain_no_bracket:
  "is_digit c \<Longrightarrow> c \<noteq> CHR ''['' \<and> c \<noteq> CHR '']''" "is_lower_alnum c \<Longrightarrow> c \<noteq> CHR ''['' \<and> c \<noteq> CHR '']''"
  "is_re_space c \<Longrightarrow> c \<noteq> CHR ''['' \<and> c \<noteq> CHR '']''"
  by (auto simp: is_digit_def is_lower_alnum_def is_re_space_def)

lemma scan_int: "int_text w \<Longrightarrow> scan b (w @ t) = scan b t"
  using int_text_chars [of w] plain_no_sep plain_no_bracket by (intro scan_plain) fastforce

lemma scan_reg: "reg_text w \<Longrightarrow> scan b (w @ t) = scan b t"
  using reg_text_chars [of w] plain_no_sep plain_no_bracket by (intro scan_plain) fastforce

lemma scan_float: "scan b (float_text f @ t) = scan b t"
  by (intro scan_plain) (auto simp: float_text_def plain_no_sep)

lemma scan_gap: "gaps g \<Longrightarrow> i < 8 \<Longrightarrow> scan True (g i @ t) = scan True t"
  using gap_chars [of g i] plain_no_bracket by (intro scan_plain) fastforce

lemmas scan_parts = scan_int scan_reg scan_float scan_gap
  scan_int [where t = "[]", simplified] scan_reg [where t = "[]", simplified]

lemma no_sep_marks [simp]:
  "\<not> is_sep (CHR ''@'')" "\<not> is_sep (CHR ''('')" "\<not> is_sep (CHR '')'')" "\<not> is_sep (CHR ''%'')"
  "\<not> is_sep (CHR ''$'')" "\<not> is_sep (CHR '','')"
  by (simp_all add: is_sep_def)

lemma scan_render:
  assumes "tight g a" "arg_wf a"
  shows "scan False (render g a) = Some False"
proof -
  obtain sz f l where a: "a = ArgSyntax sz f l" by (cases a)
  have "scan False (render_location g l) = Some False"
    using assms by (cases l) (auto simp: a tight_def arg_wf_def scan_parts)
  then show ?thesis using assms
    by (simp add: a render_def tight_def arg_wf_def scan_parts)
qed

lemma render_ascii:
  assumes "gaps g" "arg_wf a"
  shows "list_all ascii (render g a)"
proof -
  have sym: "ascii c" if "c \<in> {CHR ''@'', CHR ''('', CHR '')'', CHR ''['', CHR '']'', CHR ''%'',
      CHR ''$'', CHR '','', CHR ''-'', CHR ''f''}" for c
    using that by (auto simp: ascii_def)
  have i: "int_text w \<Longrightarrow> list_all ascii w" for w
    using int_text_chars [of w] ascii_classes(1) sym by (fastforce simp: list_all_iff)
  have r: "reg_text w \<Longrightarrow> list_all ascii w" for w
    using reg_text_chars [of w] ascii_classes(2) by (auto simp: list_all_iff)
  have g: "k < 8 \<Longrightarrow> list_all ascii (g k)" for k
    using gap_chars [OF assms(1)] ascii_classes(3) by (auto simp: list_all_iff)
  have f: "list_all ascii (float_text b)" for b
    using sym by (simp add: float_text_def)
  obtain sz b l where a: "a = ArgSyntax sz b l" by (cases a)
  have "list_all ascii (render_location g l)"
    using assms(2) i r g sym by (cases l) (auto simp: a arg_wf_def)
  then show ?thesis using assms(2) i g f sym by (simp add: a render_def arg_wf_def)
qed

lemma render_field: "tight g a \<Longrightarrow> arg_wf a \<Longrightarrow> field (render g a)"
  using scan_render render_ascii by (simp add: field_def tight_def)

text \<open>A tight rendering starts and ends with a visible character, so trimming leaves it.\<close>

lemma re_space_not_other: "\<not> is_re_space c \<Longrightarrow> of_char c \<noteq> (11::nat) \<Longrightarrow> \<not> is_ascii_space c"
  by (auto simp: is_re_space_def is_ascii_space_def)

lemma not_ascii_space:
  "is_digit c \<Longrightarrow> \<not> is_ascii_space c" "is_lower_alnum c \<Longrightarrow> \<not> is_ascii_space c"
  "\<not> is_ascii_space (CHR ''-'')" "\<not> is_ascii_space (CHR '')'')" "\<not> is_ascii_space (CHR '']'')"
  by (auto simp: is_ascii_space_def is_digit_def is_lower_alnum_def)

lemma tight_ends:
  assumes "tight g a" "arg_wf a"
  shows "\<not> is_ascii_space (hd (render g a)) \<and> \<not> is_ascii_space (last (render g a))"
proof -
  obtain sz f l where a: "a = ArgSyntax sz f l" by (cases a)
  have ih: "int_text w \<Longrightarrow> w \<noteq> [] \<and> \<not> is_ascii_space (hd w) \<and> \<not> is_ascii_space (last w)" for w
    using int_text_chars [of w "hd w"] int_text_chars [of w "last w"] not_ascii_space
    by (cases "w = []") (auto simp: int_text_def)
  have rh: "reg_text w \<Longrightarrow> w \<noteq> [] \<and> \<not> is_ascii_space (last w)" for w
    using reg_text_chars [of w "last w"] not_ascii_space
    by (cases "w = []") (auto simp: reg_text_def)
  have "render_location g l \<noteq> [] \<and> \<not> is_ascii_space (last (render_location g l))"
    using assms ih rh by (cases l) (auto simp: a arg_wf_def not_ascii_space)
  then show ?thesis using assms ih [of sz]
    by (auto simp: a render_def tight_def arg_wf_def last_append hd_append)
qed

lemma TrimSpace_render:
  assumes "tight g a" "arg_wf a"
  shows "TrimSpace (render g a) = render g a"
proof -
  have "list_all ascii (render g a)" using assms render_ascii by (simp add: tight_def)
  then have "ascii (hd (render g a))" "ascii (last (render g a))" by (simp_all add: list_all_iff)
  then show ?thesis using tight_ends [OF assms] by (intro TrimSpace_stable) simp_all
qed

lemma parse_tight:
  assumes "tight g a" "arg_wf a"
  shows "ParseUSDTArgSpec goarch (render g a) = denote goarch a"
  using assms parse_render [OF _ assms(2) TrimSpace_render] by (simp add: tight_def)

text \<open>An argument string: rendered arguments with separators between and blanks around.\<close>

type_synonym item = "string \<times> (nat \<Rightarrow> string) \<times> arg_syntax"

definition item_ok :: "item \<Rightarrow> bool" where
  "item_ok it = (case it of (w, g, a) \<Rightarrow> separator w \<and> tight g a \<and> arg_wf a)"

definition item_texts :: "item list \<Rightarrow> (string \<times> string) list" where
  "item_texts its = map (\<lambda>(w, g, a). (w, render g a)) its"

definition item_args :: "item list \<Rightarrow> arg_syntax list" where
  "item_args its = map (\<lambda>(w, g, a). a) its"

definition args_text :: "string \<Rightarrow> (nat \<Rightarrow> string) \<Rightarrow> arg_syntax \<Rightarrow> item list \<Rightarrow> string \<Rightarrow> string" where
  "args_text u g a its v = u @ join (render g a) (item_texts its) @ v"

lemma item_texts_fields:
  "list_all item_ok its \<Longrightarrow> \<forall>(w, f)\<in>set (item_texts its). separator w \<and> field f"
  by (auto simp: item_texts_def item_ok_def list_all_iff render_field)

lemma last_join: "fs \<noteq> [] \<Longrightarrow> (\<forall>(w, f)\<in>set fs. f \<noteq> []) \<Longrightarrow> last (join f fs) = last (snd (last fs))"
  by (induction fs rule: rev_induct) (auto simp: join_def)

lemma TrimSpace_args_text:
  assumes "tight g a" "arg_wf a" "list_all item_ok its"
    and "list_all is_ascii_space u" "list_all is_ascii_space v"
  shows "TrimSpace (args_text u g a its v) = join (render g a) (item_texts its)"
proof -
  let ?j = "join (render g a) (item_texts its)"
  have f: "field (render g a)" using assms by (simp add: render_field)
  note fs = item_texts_fields [OF assms(3)]
  have asc: "list_all ascii ?j" using join_ascii [OF f fs] .
  have ne: "?j \<noteq> []" by (simp add: join_def)
  have "hd ?j = hd (render g a)" by (simp add: join_def)
  then have hd: "\<not> is_ascii_space (hd ?j)" using tight_ends assms by simp
  have lst: "\<not> is_ascii_space (last ?j)"
  proof (cases its rule: rev_cases)
    case Nil
    then show ?thesis using tight_ends assms by (simp add: join_def item_texts_def)
  next
    case (snoc its' it)
    obtain w g' a' where it: "it = (w, g', a')" by (cases it)
    have "last ?j = last (render g' a')"
      using fs by (subst last_join) (auto simp: snoc it item_texts_def field_def)
    then show ?thesis using tight_ends [of g' a'] assms(3) by (simp add: snoc it item_ok_def)
  qed
  show ?thesis unfolding args_text_def
    using assms ne hd lst asc by (intro TrimSpace_around) (simp_all add: list_all_iff)
qed

lemma split_args_text:
  assumes "tight g a" "arg_wf a" "list_all item_ok its"
  shows "splitUSDTArgs (join (render g a) (item_texts its)) = render g a # map snd (item_texts its)"
  using split_join [OF render_field item_texts_fields] assms by blast

lemma parse_items:
  assumes "list_all item_ok its"
  shows "map (ParseUSDTArgSpec goarch) (map snd (item_texts its)) = map (denote goarch) (item_args its)"
  using assms
  by (induction its) (auto simp: item_texts_def item_args_def item_ok_def parse_tight)

lemma list_all2_by_map:
  "map p ss = map d as \<Longrightarrow> list_all2 (\<lambda>a x. d a = Inr x) as xs \<Longrightarrow> list_all2 (\<lambda>s x. p s = Inr x) ss xs"
proof (induction ss arbitrary: as xs)
  case (Cons s ss)
  then obtain a as' where "as = a # as'" "p s = d a" "map p ss = map d as'" by auto
  with Cons show ?case by (auto simp: list_all2_Cons1)
qed auto

lemma parse_args_text:
  assumes ok: "tight g a" "arg_wf a" "list_all item_ok its"
    and blanks: "list_all is_ascii_space u" "list_all is_ascii_space v"
    and len: "length its \<le> 11"
    and vals: "list_all2 (\<lambda>a x. denote goarch a = Inr x) (a # item_args its) xs"
  shows "ParseUSDTArguments goarch (args_text u g a its v) = Inr (spec_with xs)"
proof -
  let ?s = "args_text u g a its v"
  have t: "TrimSpace ?s = join (render g a) (item_texts its)"
    using TrimSpace_args_text [OF ok blanks] .
  have sp: "splitUSDTArgs (TrimSpace ?s) = render g a # map snd (item_texts its)"
    using split_args_text [OF ok] by (simp add: t)
  have "map (ParseUSDTArgSpec goarch) (render g a # map snd (item_texts its)) = map (denote goarch) (a # item_args its)"
    using parse_items [OF ok(3), of goarch] ok
    by (simp add: parse_tight)
  from list_all2_by_map [OF this vals]
  have "list_all2 (\<lambda>s x. ParseUSDTArgSpec goarch s = Inr x) (splitUSDTArgs (TrimSpace ?s)) xs"
    by (simp add: sp)
  moreover have "length (splitUSDTArgs (TrimSpace ?s)) \<le> 12" using len by (simp add: sp item_texts_def)
  moreover have "TrimSpace ?s \<noteq> []" by (simp add: t join_def)
  ultimately show ?thesis by (intro ParseUSDTArguments_all)
qed

lemma spec_with_wf:
  assumes "length as \<le> 12" "list_all ArgSpec_wf as"
  shows "Spec_wf (spec_with as)"
proof -
  have "list_all ArgSpec_wf (replicate n zero_ArgSpec)" for n by (simp add: list_all_length)
  then show ?thesis using assms by (simp add: Spec_wf_def spec_with_def zero_Spec_def)
qed

lemma ParseUSDTArguments_valid:
  assumes "ParseUSDTArguments goarch s = Inr spec"
  shows "\<exists>as. length as \<le> 12 \<and> spec = spec_with as \<and> list_all (ArgSpec_valid goarch) as"
proof -
  from ParseUSDTArguments_Inr [OF assms] obtain as where as: "length as \<le> 12" "spec = spec_with as"
    "as = [] \<or> list_all2 (\<lambda>s a. ParseUSDTArgSpec goarch s = Inr a) (splitUSDTArgs (TrimSpace s)) as"
    by blast
  have "list_all (ArgSpec_valid goarch) as"
    using as(3) parse_valid by (auto simp: list_all_length list_all2_conv_all_nth)
  with as show ?thesis by blast
qed

lemma ParseUSDTArguments_wf:
  assumes "ParseUSDTArguments goarch s = Inr spec"
  shows "Spec_wf spec"
  using ParseUSDTArguments_valid [OF assms] ArgSpec_valid_wf spec_with_wf
  by (metis (no_types, lifting) list.pred_mono_strong)

end
