(* ===== verification/Cli.thy ===== *)
theory Cli
  imports Error_Text Elf_Reader Arguments
begin

section \<open>The command line: \<open>cmd/usdt/main.go\<close>\<close>

text \<open>
  \<open>main\<close> and its two commands. A run gives what was printed and the exit code, \<^term>\<open>None\<close>
  being a panic, and the state of the operating system after it. Standard output is its text.
  Standard error is a list of pieces of text; one piece, the quoted value of a flag that is no
  boolean, is kept as the value that \<open>%q\<close> quotes.
\<close>

datatype message =
    Text string
  | Quoted string

record streams =
  Stdout :: string
  Stderr :: "message list"

subsection \<open>\<open>printUsage\<close> and \<open>cmdList\<close>\<close>

definition printUsage :: "message list" where
  "printUsage = map (\<lambda>s. Text (s @ nl))
     [''Usage: usdt <command> [flags]'',
      [],
      ''Commands:'',
      ''  list <binary>    List USDT probes in an ELF binary'',
      ''  parse-args <str> Parse a USDT argument specification string'']"

definition list_flags :: "(string \<times> flag_value) list" where
  "list_flags = [(''provider'', StringFlag []), (''name'', StringFlag []), (''args'', BoolFlag False)]"

definition list_usage :: "(string \<times> string) list" where
  "list_usage =
     [(''provider'', ''filter by provider name''), (''name'', ''filter by probe name''),
      (''args'', ''show raw argument strings'')]"

text \<open>
  \<open>PrintDefaults\<close> of a \<open>FlagSet\<close> prints the flags in the order of their names. A flag of more than one
  letter has its usage on a line of its own; a default that is the zero value is not shown.
\<close>

definition flag_default :: "string \<times> flag_value \<Rightarrow> string" where
  "flag_default f =
     ''  -'' @ fst f @ (case snd f of StringFlag _ \<Rightarrow> '' string'' | BoolFlag _ \<Rightarrow> [])
     @ nl @ ''    '' @ tab @ (case map_of list_usage (fst f) of Some usage \<Rightarrow> usage | None \<Rightarrow> []) @ nl"

definition PrintDefaults :: "message list" where
  "PrintDefaults = map (\<lambda>f. Text (flag_default f)) (sort_key fst list_flags)"

text \<open>What \<open>FlagSet.Parse\<close> prints when it fails: the error, then the usage.\<close>

definition flag_usage :: "message list" where
  "flag_usage = Text (''Usage of list:'' @ nl) # PrintDefaults"

fun flag_message :: "flag_error \<Rightarrow> message list" where
  "flag_message (BadFlagSyntax s) = Text (''bad flag syntax: '' @ s @ nl) # flag_usage"
| "flag_message (NotDefined name) = Text (''flag provided but not defined: -'' @ name @ nl) # flag_usage"
| "flag_message ErrHelp = flag_usage"
| "flag_message (NeedsArgument name) = Text (''flag needs an argument: -'' @ name @ nl) # flag_usage"
| "flag_message (InvalidBool v name) =
     [Text ''invalid boolean value '', Quoted v, Text ('' for -'' @ name @ '': parse error'' @ nl)] @ flag_usage"

text \<open>\<open>fmt.Fprintf(os.Stderr, "error: %v\n", err)\<close>\<close>

definition error_line :: "go_error \<Rightarrow> message" where
  "error_line err = Text (''error: '' @ Error_text err @ nl)"

definition string_flag :: "(string \<times> flag_value) list \<Rightarrow> string \<Rightarrow> string" where
  "string_flag fs n = (case map_of fs n of Some (StringFlag s) \<Rightarrow> s | _ \<Rightarrow> [])"

definition bool_flag :: "(string \<times> flag_value) list \<Rightarrow> string \<Rightarrow> bool" where
  "bool_flag fs n = (case map_of fs n of Some (BoolFlag b) \<Rightarrow> b | _ \<Rightarrow> False)"

fun list_loop :: "string \<Rightarrow> string \<Rightarrow> bool \<Rightarrow> Probe list \<Rightarrow> tab_writer \<Rightarrow> nat \<Rightarrow> tab_writer \<times> nat" where
  "list_loop provider name showArgs [] w count = (w, count)"
| "list_loop provider name showArgs (p # ps) w count =
     (if provider \<noteq> [] \<and> Provider p \<noteq> provider then list_loop provider name showArgs ps w count
      else if name \<noteq> [] \<and> Name p \<noteq> name then list_loop provider name showArgs ps w count
      else
        let sema = (if SemaphoreOffset p \<noteq> 0 then ''0x'' @ show_hex (unat (SemaphoreOffset p)) else ''-'');
            w = (if showArgs then
                   tw_Write (Provider p @ tab @ Name p @ tab @ ''0x'' @ show_hex (unat (Location p))
                     @ tab @ sema @ tab @ Arguments p @ nl) w
                 else
                   tw_Write (Provider p @ tab @ Name p @ tab @ ''0x'' @ show_hex (unat (Location p))
                     @ tab @ sema @ nl) w)
        in list_loop provider name showArgs ps w (Suc count))"

definition cmdList ::
  "(string \<Rightarrow> 'w \<Rightarrow> (go_error + nat) \<times> 'w) \<Rightarrow> (nat \<Rightarrow> 'w \<Rightarrow> go_error option \<times> 'w)
    \<Rightarrow> ('w \<Rightarrow> nat \<Rightarrow> bytes) \<Rightarrow> (bytes \<Rightarrow> go_error + elf_File)
    \<Rightarrow> string list \<Rightarrow> 'w \<Rightarrow> (streams \<times> int) option \<times> 'w" where
  "cmdList openf closef content newfile args w =
     (case flag_Parse list_flags args of
        Inl err \<Rightarrow> (Some (\<lparr>Stdout = [], Stderr = flag_message err\<rparr>, 1), w)
      | Inr (fs, rest) \<Rightarrow>
          if length rest \<noteq> 1 then
            (Some (\<lparr>Stdout = [], Stderr = Text (''usage: usdt list [flags] <binary>'' @ nl) # PrintDefaults\<rparr>, 1), w)
          else
            (case ParseProbesFromFile openf closef content newfile (rest ! 0) w of
               (None, w) \<Rightarrow> (None, w)
             | (Some (Inl err), w) \<Rightarrow> (Some (\<lparr>Stdout = [], Stderr = [error_line err]\<rparr>, 1), w)
             | (Some (Inr probes), w) \<Rightarrow>
                 (let showArgs = bool_flag fs ''args'';
                      tw = (if showArgs then
                              tw_Write (''PROVIDER'' @ tab @ ''NAME'' @ tab @ ''LOCATION'' @ tab @ ''SEMAPHORE''
                                @ tab @ ''ARGUMENTS'' @ nl) NewWriter
                            else
                              tw_Write (''PROVIDER'' @ tab @ ''NAME'' @ tab @ ''LOCATION'' @ tab @ ''SEMAPHORE''
                                @ nl) NewWriter);
                      (tw, count) =
                        list_loop (string_flag fs ''provider'') (string_flag fs ''name'') showArgs probes tw 0;
                      tw = tw_Flush tw
                  in if count = 0 then
                       (Some (\<lparr>Stdout = tw_out tw, Stderr = [Text (''no probes found'' @ nl)]\<rparr>, 1), w)
                     else (Some (\<lparr>Stdout = tw_out tw, Stderr = []\<rparr>, 0), w))))"

subsection \<open>\<open>cmdParseArgs\<close>\<close>

definition argTypeName :: "ArgSpec \<Rightarrow> string" where
  "argTypeName a =
     (if Arg_type a = ArgConst then ''const''
      else if Arg_type a = ArgReg then ''reg''
      else if Arg_type a = ArgRegDeref then ''reg_deref''
      else ''unknown'')"

definition arg_line :: "nat \<Rightarrow> ArgSpec \<Rightarrow> string" where
  "arg_line i a =
     (let signed = (if Arg_signed a then '' signed'' else []);
          float = (if Arg_is_float a then '' float'' else [])
      in ''  ['' @ show_nat i @ ''] type='' @ pad_right 9 (argTypeName a)
         @ '' reg='' @ pad_left 3 (show_nat (unat (Reg_id a)))
         @ '' val_off='' @ pad_right 6 (show_int (sint (Val_off a)))
         @ '' bitshift='' @ show_int (sint (Arg_bitshift a)) @ signed @ float @ nl)"

text \<open>The loop over \<open>i\<close>: the indices still to come.\<close>

fun print_args :: "Spec \<Rightarrow> nat list \<Rightarrow> string \<Rightarrow> string option" where
  "print_args spec [] text = Some text"
| "print_args spec (i # js) text =
     do { a \<leftarrow> index (Args spec) i; print_args spec js (text @ arg_line i a) }"

definition cmdParseArgs :: "string \<Rightarrow> string list \<Rightarrow> (streams \<times> int) option" where
  "cmdParseArgs goarch args =
     (if length args \<noteq> 1 then
        Some (\<lparr>Stdout = [], Stderr = [Text (''usage: usdt parse-args <argument-string>'' @ nl)]\<rparr>, 1)
      else
        (case ParseUSDTArguments goarch (args ! 0) of
           Inl err \<Rightarrow> Some (\<lparr>Stdout = [], Stderr = [error_line err]\<rparr>, 1)
         | Inr spec \<Rightarrow>
             do {
               text \<leftarrow> print_args spec [0..<nat (sint (Arg_cnt spec))]
                 (''argument count: '' @ show_int (sint (Arg_cnt spec)) @ nl);
               Some (\<lparr>Stdout = text, Stderr = []\<rparr>, 0)
             }))"

subsection \<open>\<open>main\<close>\<close>

definition main ::
  "string \<Rightarrow> (string \<Rightarrow> 'w \<Rightarrow> (go_error + nat) \<times> 'w) \<Rightarrow> (nat \<Rightarrow> 'w \<Rightarrow> go_error option \<times> 'w)
    \<Rightarrow> ('w \<Rightarrow> nat \<Rightarrow> bytes) \<Rightarrow> (bytes \<Rightarrow> go_error + elf_File)
    \<Rightarrow> string list \<Rightarrow> 'w \<Rightarrow> (streams \<times> int) option \<times> 'w" where
  "main goarch openf closef content newfile args w =
     (if length args < 2 then (Some (\<lparr>Stdout = [], Stderr = printUsage\<rparr>, 1), w)
      else if args ! 1 = ''list'' then cmdList openf closef content newfile (drop 2 args) w
      else if args ! 1 = ''parse-args'' then (cmdParseArgs goarch (drop 2 args), w)
      else
        (Some (\<lparr>Stdout = [], Stderr = Text (''unknown command: '' @ args ! 1 @ nl @ nl) # printUsage\<rparr>, 1), w))"

end
