(* ===== verification/Spec_Bytes.thy ===== *)
theory Spec_Bytes
  imports Codec Types
begin

section \<open>The memory layout of a spec: \<open>SpecToBytes\<close> and the C structs\<close>

text \<open>
  \<open>SpecToBytes\<close> copies the bytes of a \<open>Spec\<close> as amd64 and arm64 lay it out (little-endian,
  the padding included). \<open>c_spec\<close> and \<open>c_arg_spec\<close> read the structs of
  \<open>ebpf/usdt_defs.h\<close> from memory at the offsets the C rules give their members: 24 bytes for
  an argument, 304 for a spec. Both pairs interpret \<open>fixed_codec\<close>.
\<close>

definition ArgSpec_bytes :: "ArgSpec \<Rightarrow> bytes" where
  "ArgSpec_bytes a =
     word_to_bytes (Val_off a) @ word_to_bytes (Arg_type a)
     @ [Reg_id a, of_bool (Arg_signed a), Arg_bitshift a, of_bool (Arg_is_float a)]
     @ Arg_X_pad a @ Pad_cgo_0 a"

definition SpecToBytes :: "Spec \<Rightarrow> bytes" where
  "SpecToBytes s =
     concat (map ArgSpec_bytes (Args s)) @ word_to_bytes (Usdt_cookie s)
     @ word_to_bytes (Arg_cnt s) @ Spec_X_pad s"

definition c_arg_spec :: "bytes \<Rightarrow> ArgSpec" where
  "c_arg_spec m =
     \<lparr>Val_off = bytes_to_word (take 8 m), Arg_type = bytes_to_word (take 4 (drop 8 m)),
      Reg_id = m ! 12, Arg_signed = (m ! 13 \<noteq> 0), Arg_bitshift = m ! 14, Arg_is_float = (m ! 15 \<noteq> 0),
      Arg_X_pad = take 1 (drop 16 m), Pad_cgo_0 = take 7 (drop 17 m)\<rparr>"

definition c_spec :: "bytes \<Rightarrow> Spec" where
  "c_spec m =
     \<lparr>Args = decode_array c_arg_spec 24 12 m, Usdt_cookie = bytes_to_word (take 8 (drop 288 m)),
      Arg_cnt = bytes_to_word (take 2 (drop 296 m)), Spec_X_pad = take 6 (drop 298 m)\<rparr>"

interpretation arg_codec: fixed_codec ArgSpec_bytes c_arg_spec 24 ArgSpec_wf
proof
  fix a :: ArgSpec
  assume wf: "ArgSpec_wf a"
  then show len: "length (ArgSpec_bytes a) = 24" by (simp add: ArgSpec_bytes_def ArgSpec_wf_def)
  define v where "v = word_to_bytes (Val_off a)"
  define t where "t = word_to_bytes (Arg_type a)"
  have l: "length v = 8" "length t = 4" by (simp_all add: v_def t_def)
  have b: "bytes_to_word v = Val_off a" "bytes_to_word t = Arg_type a"
    by (simp_all add: v_def t_def le64.dec_enc le32.dec_enc)
  have "ArgSpec_bytes a = v @ t @ [Reg_id a, of_bool (Arg_signed a), Arg_bitshift a,
    of_bool (Arg_is_float a)] @ Arg_X_pad a @ Pad_cgo_0 a"
    by (simp add: ArgSpec_bytes_def v_def t_def)
  then show "c_arg_spec (ArgSpec_bytes a) = a"
    using wf l b by (simp add: c_arg_spec_def ArgSpec_wf_def nth_append)
qed

interpretation args_codec: array_codec ArgSpec_bytes c_arg_spec 24 ArgSpec_wf 12
  by unfold_locales

interpretation spec_codec: fixed_codec SpecToBytes c_spec 304 Spec_wf
proof
  fix s :: Spec
  assume wf: "Spec_wf s"
  define as where "as = concat (map ArgSpec_bytes (Args s))"
  define u where "u = word_to_bytes (Usdt_cookie s)"
  define n where "n = word_to_bytes (Arg_cnt s)"
  have l: "length as = 288" "length u = 8" "length n = 2"
    using wf args_codec.arr.enc_length [of "Args s"] by (simp_all add: as_def u_def n_def Spec_wf_def)
  have s: "SpecToBytes s = as @ u @ n @ Spec_X_pad s"
    by (simp add: SpecToBytes_def as_def u_def n_def)
  show "length (SpecToBytes s) = 304" using wf l by (simp add: s Spec_wf_def)
  have "decode_array c_arg_spec 24 12 (as @ u @ n @ Spec_X_pad s) = Args s"
    using wf args_codec.decode_array_enc [of "Args s"] by (simp add: as_def Spec_wf_def)
  moreover have "bytes_to_word u = Usdt_cookie s" "bytes_to_word n = Arg_cnt s"
    by (simp_all add: u_def n_def le64.dec_enc le16.dec_enc)
  ultimately show "c_spec (SpecToBytes s) = s"
    using wf l by (simp add: s c_spec_def Spec_wf_def)
qed

end
