(* ===== verification/Parser_Claims.thy ===== *)
theory Parser_Claims
  imports Arguments Spec_Bytes
begin

section \<open>Properties of the argument parser\<close>

text \<open>
  The parser's contract over the syntax of \<open>Arg_Parser\<close>: acceptance, values and errors of one
  argument, the printed form of a spec, the splitter, whole argument strings, and the bytes the
  kernel gets. Each property with a hypothesis is applied to a concrete string after it.
\<close>

subsection \<open>One argument\<close>

text \<open>
  C3: the value of every argument in one of the seven forms, with any white space where the
  patterns allow it: \<open>ParseUSDTArgSpec\<close> returns what the form denotes, which is a spec or the
  error of its first bad part (size, then offset or constant, then register).
\<close>

theorem ParseUSDTArgSpec_denotes:
  assumes "gaps g" "arg_wf a" "TrimSpace s = render g a"
  shows "ParseUSDTArgSpec goarch s = denote goarch a"
  using assms by (rule parse_render)

theorem ParseUSDTArgSpec_denotes_witness:
  "ParseUSDTArgSpec ''amd64'' '' -4@-1204(%rbp)'' =
    Inr (zero_ArgSpec\<lparr>Val_off := - 1204, Arg_type := ArgRegDeref, Reg_id := RegRbp,
      Arg_signed := True, Arg_bitshift := 32\<rparr>)"
proof -
  have "arg_wf (ArgSyntax ''-4'' False (DerefOffset ''-1204'' ''rbp''))" by code_simp
  moreover have "TrimSpace '' -4@-1204(%rbp)''
    = render no_gaps (ArgSyntax ''-4'' False (DerefOffset ''-1204'' ''rbp''))"
    by code_simp
  ultimately have "ParseUSDTArgSpec ''amd64'' '' -4@-1204(%rbp)''
    = denote ''amd64'' (ArgSyntax ''-4'' False (DerefOffset ''-1204'' ''rbp''))"
    using ParseUSDTArgSpec_denotes [OF no_gaps_ok(1)] by blast
  also have "\<dots> = Inr (zero_ArgSpec\<lparr>Val_off := - 1204, Arg_type := ArgRegDeref, Reg_id := RegRbp,
      Arg_signed := True, Arg_bitshift := 32\<rparr>)"
    by code_simp
  finally show ?thesis .
qed

text \<open>Every error: a blank string, a form with a bad part, or no form at all.\<close>

lemma parse_Inl_iff:
  "ParseUSDTArgSpec goarch s = Inl e \<longleftrightarrow>
     TrimSpace s = [] \<and> e = EmptyArgument
     \<or> (\<exists>g a. gaps g \<and> arg_wf a \<and> TrimSpace s = render g a \<and> denote goarch a = Inl e)
     \<or> TrimSpace s \<noteq> [] \<and> \<not> (\<exists>g a. gaps g \<and> arg_wf a \<and> TrimSpace s = render g a)
       \<and> e = UnrecognizedFormat (TrimSpace s)"
proof (rule parse_cases [of s goarch])
  fix g a
  assume f: "gaps g" "arg_wf a" "TrimSpace s = render g a" "ParseUSDTArgSpec goarch s = denote goarch a"
  have same: "a' = a" if "gaps g'" "arg_wf a'" "TrimSpace s = render g' a'" for g' a'
    using render_inj [OF that(1,2) f(1,2)] that(3) f(3) by simp
  have "(\<exists>g a. gaps g \<and> arg_wf a \<and> TrimSpace s = render g a \<and> denote goarch a = Inl e)
      \<longleftrightarrow> denote goarch a = Inl e"
    using same f(1-3) by blast
  moreover have "TrimSpace s \<noteq> []" by (simp add: f(3))
  moreover have "\<exists>g a. gaps g \<and> arg_wf a \<and> TrimSpace s = render g a" using f(1-3) by blast
  ultimately show ?thesis by (simp only: f(4)) blast
next
  assume "TrimSpace s \<noteq> []" "\<And>g a. gaps g \<Longrightarrow> arg_wf a \<Longrightarrow> TrimSpace s \<noteq> render g a"
    "ParseUSDTArgSpec goarch s = Inl (UnrecognizedFormat (TrimSpace s))"
  then show ?thesis by (metis sum.inject(1))
next
  assume "TrimSpace s = []" "ParseUSDTArgSpec goarch s = Inl EmptyArgument"
  then show ?thesis using render_nonempty by (metis sum.inject(1))
qed

text \<open>
  C4: every string is decided. It is accepted exactly when, trimmed, it is a rendering of one of
  the seven forms that denotes a spec, which is the result; it is refused exactly when it is blank,
  is a form whose part is bad, with the error of that part, or is no form at all, with an error
  that repeats it trimmed.
\<close>

theorem ParseUSDTArgSpec_decided:
  "(ParseUSDTArgSpec goarch s = Inr x \<longleftrightarrow>
      (\<exists>g a. gaps g \<and> arg_wf a \<and> TrimSpace s = render g a \<and> denote goarch a = Inr x))
   \<and> (ParseUSDTArgSpec goarch s = Inl e \<longleftrightarrow>
      TrimSpace s = [] \<and> e = EmptyArgument
      \<or> (\<exists>g a. gaps g \<and> arg_wf a \<and> TrimSpace s = render g a \<and> denote goarch a = Inl e)
      \<or> TrimSpace s \<noteq> [] \<and> \<not> (\<exists>g a. gaps g \<and> arg_wf a \<and> TrimSpace s = render g a)
        \<and> e = UnrecognizedFormat (TrimSpace s))"
  by (rule conjI [OF parse_Inr_iff parse_Inl_iff])

text \<open>
  C24: the order in which the patterns are tried matters in one place only: a string that two of
  them match is an argument \<open>size@number\<close>, which the pattern of a bare constant claims before
  that of a register; for all other strings any order gives the same reading.
\<close>

theorem patterns_exclusive:
  assumes "i < j" "j < 7"
    and "FindStringSubmatch (patterns ! i) s \<noteq> None" "FindStringSubmatch (patterns ! j) s \<noteq> None"
  shows "i = 5 \<and> j = 6"
proof -
  obtain cs cs' where m: "rx_match (patterns ! i) s cs" "rx_match (patterns ! j) s cs'"
    using assms(3,4) by (auto simp: Find_None_iff)
  obtain g a where a: "gaps g" "arg_wf a" "s = render g a" "kind (location_of a) = i"
    using matched_render [OF m(1)] assms(1,2) by auto
  obtain g' a' where a': "gaps g'" "arg_wf a'" "s = render g' a'"
    "kind (location_of a') = j \<or> j = 6 \<and> kind (location_of a') = 5"
    using matched_render [OF m(2) assms(2)] by auto
  have "a = a'" using a a' by (intro render_inj [of g a g' a']) simp_all
  then show ?thesis using a(4) a'(4) assms(1) by auto
qed

theorem patterns_exclusive_witness:
  "FindStringSubmatch regexBareConst ''8@5'' \<noteq> None \<and> FindStringSubmatch regexReg ''8@5'' \<noteq> None
   \<and> FindStringSubmatch regexConst ''8@5'' = None"
proof -
  have m: "FindStringSubmatch (patterns ! 5) ''8@5'' \<noteq> None" "FindStringSubmatch (patterns ! 6) ''8@5'' \<noteq> None"
    by code_simp+
  then have "FindStringSubmatch (patterns ! 4) ''8@5'' = None"
    using patterns_exclusive [of 4 5 "''8@5''"] by (cases "FindStringSubmatch (patterns ! 4) ''8@5''") simp_all
  then show ?thesis using m by (simp add: nth_patterns)
qed

text \<open>An argument as \<open>sys/sdt.h\<close> and the assembler write it on amd64.\<close>

definition print_arg :: "int \<Rightarrow> bool \<Rightarrow> u32 \<Rightarrow> int \<Rightarrow> string \<Rightarrow> string" where
  "print_arg sz f ty off n =
     show_int sz @ (if f then ''f'' else []) @ ''@''
     @ (if ty = ArgConst then ''$'' @ show_int off
        else if ty = ArgReg then ''%'' @ n
        else show_int off @ ''(%'' @ n @ '')'')"

lemma print_arg_render:
  "print_arg sz f ty off n = render no_gaps (ArgSyntax (show_int sz) f
     (if ty = ArgConst then DollarConst (show_int off) else if ty = ArgReg then InReg True n
      else DerefOffset (show_int off) n))"
  by (simp add: print_arg_def render_def float_text_def)

text \<open>
  C25: printing a spec and parsing it back: with \<open>print_arg\<close>, every 64-bit size and value and
  every register name the tables know come back unchanged.
\<close>

theorem print_arg_parse:
  assumes "in_int64 sz" "in_int64 off" "lookupRegister goarch n = Some r" "ty \<in> {ArgConst, ArgReg, ArgRegDeref}"
  shows "ParseUSDTArgSpec goarch (print_arg sz f ty off n) =
    Inr (spec_of ty (if ty = ArgReg then 0 else off) (if ty = ArgConst then RegNone else r) sz f)"
proof -
  let ?l = "if ty = ArgConst then DollarConst (show_int off) else if ty = ArgReg then InReg True n
      else DerefOffset (show_int off) n"
  have n: "reg_text n" using lookup_name_syntax [OF assms(3)] by (simp add: reg_text_def)
  then have a: "arg_wf (ArgSyntax (show_int sz) f ?l)" using show_int_text by (simp add: arg_wf_def)
  have "TrimSpace (print_arg sz f ty off n) = print_arg sz f ty off n"
    unfolding print_arg_render by (rule TrimSpace_render [OF tight_no_gaps a])
  then have "ParseUSDTArgSpec goarch (print_arg sz f ty off n) = denote goarch (ArgSyntax (show_int sz) f ?l)"
    using parse_render [OF no_gaps_ok(1) a] by (simp add: print_arg_render)
  also have "\<dots> = Inr (spec_of ty (if ty = ArgReg then 0 else off) (if ty = ArgConst then RegNone else r) sz f)"
    using assms show_int_text by (auto simp: with_int_def with_reg_def)
  finally show ?thesis .
qed

theorem print_arg_parse_witness:
  "print_arg (- 4) False ArgRegDeref (- 1204) ''rbp'' = ''-4@-1204(%rbp)''
   \<and> ParseUSDTArgSpec ''amd64'' ''-4@-1204(%rbp)'' = Inr (spec_of ArgRegDeref (- 1204) RegRbp (- 4) False)"
proof -
  have p: "print_arg (- 4) False ArgRegDeref (- 1204) ''rbp'' = ''-4@-1204(%rbp)''" by code_simp
  have "lookupRegister ''amd64'' ''rbp'' = Some RegRbp"
    by (simp add: lookupRegister_def x86_64RegNameToID_def)
  then show ?thesis
    using print_arg_parse [of "- 4" "- 1204" "''amd64''" "''rbp''" RegRbp ArgRegDeref False] p
    by (simp add: in_int64_def)
qed

lemma no_xmm0: "lookupRegister goarch ''xmm0'' = None"
  by (simp add: lookupRegister_def x86_64RegNameToID_def arm64RegNameToID_def)

text \<open>
  The documented example \<open>-8f@%xmm0\<close> is refused on every architecture: the register tables have
  no vector registers.
\<close>

lemma vector_registers_unknown:
  "ParseUSDTArgSpec goarch ''-8f@%xmm0'' = Inl (UnknownRegister ''xmm0'')"
proof -
  let ?a = "ArgSyntax ''-8'' True (InReg True ''xmm0'')"
  have a: "arg_wf ?a" by code_simp
  have t: "TrimSpace ''-8f@%xmm0'' = render no_gaps ?a" by code_simp
  have "int_value ''-8'' = - 8" by code_simp
  then show ?thesis
    using parse_render [OF no_gaps_ok(1) a t] no_xmm0 [of goarch]
    by (simp add: with_int_def with_reg_def in_int64_def)
qed

subsection \<open>Splitting\<close>

text \<open>
  C26: fields separated by runs of blanks, tabs, returns and newlines are split into exactly those
  fields; separators inside brackets do not split.
\<close>

theorem splitUSDTArgs_join:
  assumes "field f" "list_all (\<lambda>(w, f). separator w \<and> field f) rest"
  shows "splitUSDTArgs (join f rest) = f # map snd rest"
  using assms by (intro split_join) (auto simp: list_all_iff)

theorem splitUSDTArgs_join_witness:
  "splitUSDTArgs ''-4@[sp, 60]   8@x0'' = [''-4@[sp, 60]'', ''8@x0'']"
  using splitUSDTArgs_join [of "''-4@[sp, 60]''" "[(''   '', ''8@x0'')]"]
  by (simp add: join_def field_def separator_def is_sep_def ascii_def)

text \<open>
  C27: on any valid UTF-8 string the splitter drops nothing but separators, and no piece is empty.
\<close>

theorem splitUSDTArgs_complete:
  assumes "valid_utf8 s"
  shows "visible (concat (splitUSDTArgs s)) = visible s \<and> [] \<notin> set (splitUSDTArgs s)"
  using split_visible_utf8 [OF assms] split_nonempty by blast

theorem splitUSDTArgs_complete_witness:
  "visible (concat (splitUSDTArgs ''8@%rax  -4@$5'')) = ''8@%rax-4@$5''"
proof -
  have "valid_utf8 ''8@%rax  -4@$5''" by code_simp
  then have "visible (concat (splitUSDTArgs ''8@%rax  -4@$5'')) = visible ''8@%rax  -4@$5''"
    using splitUSDTArgs_complete by blast
  also have "\<dots> = ''8@%rax-4@$5''" by code_simp
  finally show ?thesis .
qed

subsection \<open>Argument strings\<close>

text \<open>
  C5: a whole argument string: up to twelve arguments in any of the seven forms, with white
  space only inside brackets, separated by any separators and with any white space around them,
  give the spec with their values in order, their number, and zero values behind them.
\<close>

theorem ParseUSDTArguments_denotes:
  assumes "tight g a" "arg_wf a" "list_all item_ok its"
    and "list_all is_ascii_space u" "list_all is_ascii_space v" "length its \<le> 11"
    and "list_all2 (\<lambda>a x. denote goarch a = Inr x) (a # item_args its) xs"
  shows "ParseUSDTArguments goarch (args_text u g a its v) = Inr (spec_with xs)"
  using assms by (rule parse_args_text)

theorem ParseUSDTArguments_denotes_witness:
  "ParseUSDTArguments ''amd64'' '' -4@%edi 8@$5 '' =
    Inr (spec_with [spec_of ArgReg 0 RegRdi (- 4) False, spec_of ArgConst 5 RegNone 8 False])"
proof -
  let ?a = "ArgSyntax ''-4'' False (InReg True ''edi'')" and ?b = "ArgSyntax ''8'' False (DollarConst ''5'')"
  have "arg_wf ?a" "arg_wf ?b" by code_simp+
  moreover have "args_text '' '' no_gaps ?a [('' '', no_gaps, ?b)] '' '' = '' -4@%edi 8@$5 ''"
    by (simp add: args_text_def join_def item_texts_def render_def float_text_def)
  moreover have "denote ''amd64'' ?a = Inr (spec_of ArgReg 0 RegRdi (- 4) False)"
    "denote ''amd64'' ?b = Inr (spec_of ArgConst 5 RegNone 8 False)"
    by code_simp+
  ultimately show ?thesis
    using ParseUSDTArguments_denotes [of no_gaps ?a "[('' '', no_gaps, ?b)]" "'' ''" "'' ''" "''amd64''"
        "[spec_of ArgReg 0 RegRdi (- 4) False, spec_of ArgConst 5 RegNone 8 False]"]
    by (simp add: item_ok_def item_args_def separator_def is_sep_def is_ascii_space_def)
qed

text \<open>The first argument of a list that is refused, and its error.\<close>

definition first_bad :: "string \<Rightarrow> string list \<Rightarrow> nat \<Rightarrow> go_error \<Rightarrow> bool" where
  "first_bad goarch ss i e \<longleftrightarrow> i < length ss
     \<and> list_all (\<lambda>s. \<not> isl (ParseUSDTArgSpec goarch s)) (take i ss) \<and> ParseUSDTArgSpec goarch (ss ! i) = Inl e"

lemma first_bad_all:
  assumes "list_all2 (\<lambda>s a. ParseUSDTArgSpec goarch s = Inr a) ss as"
  shows "\<not> first_bad goarch ss i e"
  using assms by (auto simp: first_bad_def list_all2_conv_all_nth)

lemma first_bad_split:
  assumes "list_all2 (\<lambda>s a. ParseUSDTArgSpec goarch s = Inr a) ss as" "ParseUSDTArgSpec goarch t = Inl e"
  shows "first_bad goarch (ss @ t # rest) i err \<longleftrightarrow> i = length ss \<and> err = e"
proof -
  have ok: "\<exists>x. ParseUSDTArgSpec goarch (ss ! j) = Inr x" if "j < length ss" for j
    using assms(1) that by (auto simp: list_all2_conv_all_nth)
  then have ss: "\<forall>s\<in>set ss. \<not> isl (ParseUSDTArgSpec goarch s)" by (fastforce simp: in_set_conv_nth)
  have "isl (ParseUSDTArgSpec goarch t)" by (simp add: assms(2))
  moreover have "t \<in> set (take i (ss @ t # rest))" if "length ss < i"
    using that by (cases "i - length ss") auto
  ultimately have "\<not> first_bad goarch (ss @ t # rest) i err" if "length ss < i"
    using that by (auto simp: first_bad_def list_all_iff simp del: take_append)
  then show ?thesis
    using ok [of i] assms(2) ss
    by (cases i "length ss" rule: linorder_cases) (auto simp: first_bad_def nth_append list_all_iff)
qed

text \<open>Every refusal of an argument string: too many pieces, or the first bad one.\<close>

lemma ParseUSDTArguments_Inl_iff:
  "ParseUSDTArguments goarch s = Inl err \<longleftrightarrow>
    (let ss = splitUSDTArgs (TrimSpace s)
     in 12 < length ss \<and> err = TooManyArguments (length ss)
       \<or> length ss \<le> 12 \<and> (\<exists>i e. first_bad goarch ss i e \<and> err = ParseArgument i (ss ! i) e))"
proof -
  let ?ss = "splitUSDTArgs (TrimSpace s)"
  consider (many) "12 < length ?ss" | (blank) "TrimSpace s = []" | (few) "length ?ss \<le> 12" "TrimSpace s \<noteq> []"
    by linarith
  then show ?thesis
  proof cases
    case many
    then show ?thesis using ParseUSDTArguments_too_many [of s goarch] by (auto simp: Let_def)
  next
    case blank
    have "splitUSDTArgs [] = []" by (simp add: splitUSDTArgs_def split_finish_def split_init_def)
    then show ?thesis by (simp add: blank ParseUSDTArguments_def first_bad_def)
  next
    case few
    show ?thesis
    proof (rule all_or_first_error [of goarch ?ss])
      fix as assume "list_all2 (\<lambda>s a. ParseUSDTArgSpec goarch s = Inr a) ?ss as"
      then show ?thesis
        using ParseUSDTArguments_all [OF few(2,1)] first_bad_all few(1) by (simp add: Let_def)
    next
      fix ss as t e rest
      assume b: "?ss = ss @ t # rest" "ParseUSDTArgSpec goarch t = Inl e"
        "list_all2 (\<lambda>s a. ParseUSDTArgSpec goarch s = Inr a) ss as"
      then have "ParseUSDTArguments goarch s = Inl (ParseArgument (length ss) t e)"
        using ParseUSDTArguments_first_error [OF few(2) _ few(1)] by blast
      then show ?thesis using few(1) first_bad_split [OF b(3,2)] by (auto simp: Let_def b(1))
    qed
  qed
qed

text \<open>
  C6: the invariant of every spec the parser builds: at most twelve arguments, counted by
  \<open>Arg_cnt\<close>; each a constant without register, a register with offset zero, or a dereference,
  with a register ID of the architecture and a shift that is a multiple of eight; zero values in
  the unused slots, the cookie and the padding.
\<close>

theorem ParseUSDTArguments_invariant:
  assumes "ParseUSDTArguments goarch s = Inr spec"
  shows "\<exists>as. length as \<le> 12 \<and> Arg_cnt spec = of_nat (length as)
    \<and> Args spec = as @ replicate (12 - length as) zero_ArgSpec \<and> list_all (ArgSpec_valid goarch) as
    \<and> Usdt_cookie spec = 0 \<and> Spec_X_pad spec = replicate 6 0"
  using ParseUSDTArguments_valid [OF assms] by (auto simp: spec_with_def zero_Spec_def)

theorem ParseUSDTArguments_invariant_witness:
  "\<exists>as. length as \<le> 12 \<and> (of_nat 1 :: s16) = of_nat (length as) \<and> list_all (ArgSpec_valid ''arm64'') as"
proof -
  have "\<not> isl (ParseUSDTArguments ''arm64'' ''8@x0'')"
    "Arg_cnt (projr (ParseUSDTArguments ''arm64'' ''8@x0'')) = of_nat 1"
    by code_simp+
  then obtain spec where "ParseUSDTArguments ''arm64'' ''8@x0'' = Inr spec" "Arg_cnt spec = of_nat 1"
    by (cases "ParseUSDTArguments ''arm64'' ''8@x0''") simp_all
  then show ?thesis using ParseUSDTArguments_invariant by metis
qed

text \<open>
  C7: the bytes of a parsed spec: exactly the 304 bytes of \<open>struct bpf_usdt_spec\<close>, and the C
  side reads the same spec from them.
\<close>

theorem SpecToBytes_round_trip:
  assumes "ParseUSDTArguments goarch s = Inr spec"
  shows "length (SpecToBytes spec) = 304 \<and> c_spec (SpecToBytes spec) = spec"
  using ParseUSDTArguments_wf [OF assms] spec_codec.enc_length spec_codec.dec_enc by blast

theorem SpecToBytes_round_trip_witness:
  "\<exists>spec. ParseUSDTArguments ''amd64'' ''-4@8(%rsp)'' = Inr spec \<and> length (SpecToBytes spec) = 304
    \<and> Reg_id (Args (c_spec (SpecToBytes spec)) ! 0) = RegRsp"
proof -
  have "\<not> isl (ParseUSDTArguments ''amd64'' ''-4@8(%rsp)'')"
    "Reg_id (Args (projr (ParseUSDTArguments ''amd64'' ''-4@8(%rsp)'')) ! 0) = RegRsp"
    by code_simp+
  then obtain spec where "ParseUSDTArguments ''amd64'' ''-4@8(%rsp)'' = Inr spec"
    "Reg_id (Args spec ! 0) = RegRsp"
    by (cases "ParseUSDTArguments ''amd64'' ''-4@8(%rsp)''") simp_all
  then show ?thesis using SpecToBytes_round_trip by metis
qed

end
