(* ===== verification/Elf_Loop.thy ===== *)
theory Elf_Loop
  imports Elf_Notes "HOL-Library.While_Combinator"
begin

section \<open>The note loop of \<open>ParseProbes\<close> as a loop\<close>

text \<open>
  \<open>parse_notes\<close> is the loop of \<open>ParseProbes\<close> as a recursive function, whose definition already
  needs its termination. Here the loop is kept as the source has it: \<open>note_step\<close> is its body,
  which goes on at another offset, breaks or panics, and \<open>note_loop\<close> runs it with
  \<^const>\<open>while_option\<close> as long as the guard holds, \<^const>\<open>None\<close> standing for a loop that never ends.
\<close>

datatype loop_state =
    Running nat "Probe list"
  | Stopped "Probe list"
  | Panicked

definition note_step :: "u64 \<Rightarrow> ELFProg list \<Rightarrow> bytes \<Rightarrow> nat \<Rightarrow> Probe list \<Rightarrow> loop_state" where
  "note_step baseAddr loadSegs stapsdtData offset probes =
     (if length stapsdtData < offset + 12 then Stopped probes
      else case do {
          w0 \<leftarrow> slice offset (offset + 4) stapsdtData;
          w1 \<leftarrow> slice (offset + 4) (offset + 8) stapsdtData;
          w2 \<leftarrow> slice (offset + 8) (offset + 12) stapsdtData;
          let namesz = (bytes_to_word w0 :: u32);
          let descsz = (bytes_to_word w1 :: u32);
          let noteType = (bytes_to_word w2 :: u32);
          let nameEnd = offset + 12 + unat (align4 namesz);
          let descEnd = nameEnd + unat (align4 descsz);
          if noteType \<noteq> 3 then Some (Running descEnd probes)
          else if length stapsdtData < nameEnd + unat descsz then Some (Stopped probes)
          else do {
            desc \<leftarrow> slice nameEnd (nameEnd + unat descsz) stapsdtData;
            if length desc < 24 then Some (Running descEnd probes)
            else do {
              new \<leftarrow> parse_desc baseAddr loadSegs desc;
              Some (Running descEnd (probes @ new))
            }
          }
        } of
        None \<Rightarrow> Panicked
      | Some st \<Rightarrow> st)"

fun loop_runs :: "bytes \<Rightarrow> loop_state \<Rightarrow> bool" where
  "loop_runs stapsdtData (Running offset probes) = (offset < length stapsdtData)"
| "loop_runs stapsdtData (Stopped probes) = False"
| "loop_runs stapsdtData Panicked = False"

fun loop_body :: "u64 \<Rightarrow> ELFProg list \<Rightarrow> bytes \<Rightarrow> loop_state \<Rightarrow> loop_state" where
  "loop_body baseAddr loadSegs stapsdtData (Running offset probes) =
     note_step baseAddr loadSegs stapsdtData offset probes"
| "loop_body baseAddr loadSegs stapsdtData st = st"

definition note_loop :: "u64 \<Rightarrow> ELFProg list \<Rightarrow> bytes \<Rightarrow> loop_state option" where
  "note_loop baseAddr loadSegs stapsdtData =
     while_option (loop_runs stapsdtData) (loop_body baseAddr loadSegs stapsdtData) (Running 0 [])"

text \<open>The probes a finished loop leaves; none after a panic.\<close>

fun loop_probes :: "loop_state \<Rightarrow> Probe list option" where
  "loop_probes (Running offset probes) = Some probes"
| "loop_probes (Stopped probes) = Some probes"
| "loop_probes Panicked = None"

subsection \<open>One round\<close>

definition next_note :: "nat \<Rightarrow> bytes \<Rightarrow> nat" where
  "next_note i data = name_end i data + unat (align4 (u32_at (i + 4) data))"

lemma next_note_ge: "i + 12 \<le> next_note i data"
  by (simp add: next_note_def name_end_def)

lemma note_step_eq:
  "note_step b segs data i probes =
     (if length data < i + 12 \<or>
         u32_at (i + 8) data = 3 \<and> length data < name_end i data + unat (u32_at (i + 4) data)
      then Stopped probes
      else Running (next_note i data) (probes @ header_probes b segs i data))"
proof (cases "length data < i + 12")
  case False
  then show ?thesis
    by (auto simp: note_step_def in_bounds Let_def parse_desc_eq name_end_def header_probes_def
        u32_at_def next_note_def)
qed (simp add: note_step_def)

lemma header_probes_one: "length (header_probes b segs i data) \<le> 1"
  by (auto simp: header_probes_def desc_probes_def Let_def case_prod_beta split: list.split)

subsection \<open>The loop\<close>

text \<open>
  Measured by the bytes that are left, every round makes progress by twelve at least: the loop
  ends, it never panics, and it leaves what the recursive function returns.
\<close>

lemma loop_ends:
  "\<exists>st new. while_option (loop_runs data) (loop_body b segs data) (Running i probes) = Some st
     \<and> loop_probes st = Some (probes @ new) \<and> parse_notes b segs data i probes = Some (probes @ new)
     \<and> 12 * length new \<le> length data - i"
proof (induction "length data - i" arbitrary: i probes rule: less_induct)
  case less
  let ?j = "next_note i data" and ?h = "header_probes b segs i data"
  show ?case
  proof (cases "i < length data \<and> note_step b segs data i probes \<noteq> Stopped probes")
    case True
    then have step: "note_step b segs data i probes = Running ?j (probes @ ?h)" and i: "i + 12 \<le> length data"
      and pn: "parse_notes b segs data i probes = parse_notes b segs data ?j (probes @ ?h)"
      using parse_notes_eq [of b segs data i probes] by (auto simp: note_step_eq next_note_def split: if_splits)
    have dec: "length data - ?j < length data - i" using i next_note_ge [of i data] by linarith
    obtain st new where ih: "while_option (loop_runs data) (loop_body b segs data) (Running ?j (probes @ ?h)) = Some st"
      "loop_probes st = Some ((probes @ ?h) @ new)"
      "parse_notes b segs data ?j (probes @ ?h) = Some ((probes @ ?h) @ new)" "12 * length new \<le> length data - ?j"
      using less.hyps [OF dec] by blast
    have "12 * length (?h @ new) \<le> length data - i"
      using ih(4) i next_note_ge [of i data] header_probes_one [of b segs i data] by simp
    moreover have "while_option (loop_runs data) (loop_body b segs data) (Running i probes) = Some st"
      using True by (subst while_option_unfold) (simp add: step ih(1))
    ultimately show ?thesis using ih(2,3) pn by (intro exI [of _ st] exI [of _ "?h @ new"]) simp
  next
    case False
    then have "parse_notes b segs data i probes = Some probes"
      using parse_notes_eq [of b segs data i probes] by (auto simp: note_step_eq split: if_splits)
    moreover have "\<exists>st. while_option (loop_runs data) (loop_body b segs data) (Running i probes) = Some st
        \<and> loop_probes st = Some probes"
      using False by (subst while_option_unfold) (auto simp: while_option_unfold [of _ _ "Stopped probes"])
    ultimately show ?thesis by auto
  qed
qed

lemma note_loop_ends:
  "\<exists>st probes. note_loop b segs data = Some st \<and> loop_probes st = Some probes
     \<and> parse_notes b segs data 0 [] = Some probes \<and> 12 * length probes \<le> length data"
  using loop_ends [of data b segs 0 "[]"] by (auto simp: note_loop_def)

end
