(* ===== verification/Elf_Claims.thy ===== *)
theory Elf_Claims
  imports Elf_Reader Elf_Loop
begin

section \<open>Properties of the note parser and the ELF readers\<close>

text \<open>
  What \<open>ParseProbes\<close> gets out of a file, from the bytes of the notes to the file offsets of the
  probes, and the life cycle of the file behind it.
\<close>

subsection \<open>The notes\<close>

text \<open>
  C12: whatever a reader returns, \<open>ParseProbes\<close> ends with a list of probes or the reader's error:
  no slice or index expression of it is ever out of bounds. Its note loop, taken as a loop that
  might run forever, stops on every section, with the probes the recursive function returns and
  at most one for every twelve bytes.
\<close>

theorem ParseProbes_terminates:
  "(\<exists>res. ParseProbes Sections LoadSegments r = Some res)
   \<and> (\<exists>st probes. note_loop b segs data = Some st \<and> loop_probes st = Some probes
       \<and> parse_notes b segs data 0 [] = Some probes \<and> 12 * length probes \<le> length data)"
proof -
  have "\<exists>res. ParseProbes Sections LoadSegments r = Some res"
  proof (cases "Sections r")
    case (Inr secs)
    obtain d b where "fold scan_section secs (None, 0) = (d, b)" by fastforce
    then show ?thesis
      using Inr parse_notes_total [of b "LoadSegments r" "the d" 0 "[]"]
      by (auto simp: ParseProbes_def probes_of_def split: option.split)
  qed (simp add: ParseProbes_def)
  then show ?thesis using note_loop_ends [of b segs data] by blast
qed

text \<open>
  C11: the loop reads back every sequence of encoded notes, of any owner and type: exactly the
  probes of the notes of type 3 with a descriptor, in order. When the section is cut off inside
  its last note, that note counts if its descriptor is complete and is dropped otherwise.
\<close>

theorem parse_notes_round_trip:
  assumes "list_all note_wf ns" "note_wf n"
  shows "parse_notes b segs (concat (map encode_note ns) @ take k (encode_note n)) 0 [] =
    Some (concat (map (note_probes b segs) ns) @ (if desc_end n \<le> k then note_probes b segs n else []))"
  using parse_notes_encoded [OF assms, of b segs k "[]"] by simp

theorem parse_notes_round_trip_witness:
  "\<exists>p. parse_notes 0 [] (buildStapsdtNote 16 0 0 ''p'' ''n'' ''8@%rax'') 0 [] = Some [p] \<and> Arguments p = ''8@%rax''"
proof -
  let ?n = "\<lparr>Owner = bytes_of_string (''stapsdt'' @ [CHR 0x00]), Note_type = 3,
    Desc = stapsdt_desc 16 0 0 ''p'' ''n'' ''8@%rax''\<rparr>"
  have wf: "note_wf ?n" by (simp add: note_wf_def length_stapsdt_desc)
  have "note_probes 0 [] ?n = [located 0 [] 16 0 0 ''p'' ''n'' ''8@%rax'']"
    using desc_probes_stapsdt [of "''p''" "''n''" "''8@%rax''" 0 "[]" 16 0 0 "[]"]
    by (simp add: note_probes_def length_stapsdt_desc no_nul_def)
  then show ?thesis
    using parse_notes_round_trip [of "[]" ?n 0 "[]" "length (encode_note ?n)"] wf desc_end_le [of ?n]
    by (simp add: buildStapsdtNote_eq located_def case_prod_beta Let_def)
qed

subsection \<open>Whole files\<close>

text \<open>
  C14: on the standard reader, \<open>ParseProbes\<close> gives the notes of the file's last section
  \<open>.note.stapsdt\<close>, adjusted by the address of its last section \<open>.stapsdt.base\<close> and its
  \<open>PT_LOAD\<close> segments, no probes without that section, and the error of the first of the two
  sections that cannot be read.
\<close>

theorem stdlib_ParseProbes:
  "ParseProbes Stdlib_Sections Stdlib_LoadSegments r = file_probes (file_Sections (rd_f r)) (file_Progs (rd_f r))"
  by (rule stdlib.ParseProbes_file)

text \<open>The note section with one built note per probe.\<close>

definition build_notes :: "(u64 \<times> u64 \<times> u64 \<times> string \<times> string \<times> string) list \<Rightarrow> bytes" where
  "build_notes ps = concat (map (\<lambda>(l, b, s, p, n, a). buildStapsdtNote l b s p n a) ps)"

definition note_ok :: "u64 \<times> u64 \<times> u64 \<times> string \<times> string \<times> string \<Rightarrow> bool" where
  "note_ok q = (case q of (l, b, s, p, n, a) \<Rightarrow>
     no_nul p \<and> no_nul n \<and> no_nul a \<and> length p + length n + length a + 30 < 2 ^ 32)"

lemma parse_built:
  "list_all note_ok ps \<Longrightarrow>
    parse_notes B segs (build_notes ps) 0 [] = Some (map (\<lambda>(l, b, s, p, n, a). located B segs l b s p n a) ps)"
proof -
  assume ok: "list_all note_ok ps"
  let ?note = "\<lambda>(l, b, s, p, n, a). \<lparr>Owner = bytes_of_string (''stapsdt'' @ [CHR 0x00]), Note_type = 3,
    Desc = stapsdt_desc l b s p n a\<rparr>"
  have "note_wf (?note q) \<and> note_probes B segs (?note q) = [case q of (l, b, s, p, n, a) \<Rightarrow> located B segs l b s p n a]"
    if "note_ok q" for q
  proof -
    obtain l b s p n a where q: "q = (l, b, s, p, n, a)" by (cases q)
    show ?thesis
      using that desc_probes_stapsdt [of p n a B segs l b s "[]"]
      by (simp add: q note_ok_def note_wf_def note_probes_def length_stapsdt_desc)
  qed
  then have wf: "list_all note_wf (map ?note ps)"
    and probes: "map (note_probes B segs) (map ?note ps) = map (\<lambda>q. [case q of (l, b, s, p, n, a) \<Rightarrow> located B segs l b s p n a]) ps"
    using ok by (simp_all add: list_all_length list_eq_iff_nth_eq)
  have "build_notes ps = concat (map encode_note (map ?note ps))"
    by (auto simp: build_notes_def buildStapsdtNote_eq intro!: arg_cong [of _ _ concat])
  moreover have "note_wf \<lparr>Owner = [], Note_type = 0, Desc = []\<rparr>" by (simp add: note_wf_def)
  ultimately have "parse_notes B segs (build_notes ps) 0 [] = Some (concat (map (note_probes B segs) (map ?note ps)))"
    using wf parse_notes_encoded [of "map ?note ps" "\<lparr>Owner = [], Note_type = 0, Desc = []\<rparr>" B segs 0 "[]"]
    by (simp add: desc_end_def)
  then show ?thesis unfolding probes concat_map_singleton .
qed

text \<open>
  C13: a file whose note section was built with the note builder, one note per probe, gives those
  probes in order, each with its names, arguments and base and its addresses located.
\<close>

theorem built_file_probes:
  assumes "unreadable hs = None" "named ''.note.stapsdt'' hs = Some h"
    and "hdr_Contents h = Inr (build_notes ps)" "list_all note_ok ps"
  shows "ParseProbes Stdlib_Sections Stdlib_LoadSegments \<lparr>rd_f = \<lparr>file_Sections = hs, file_Progs = progs\<rparr>, closer = c\<rparr> =
    Some (Inr (map (\<lambda>(l, b, s, p, n, a). located (base_address hs) (load_segments progs) l b s p n a) ps))"
  using assms by (simp add: stdlib.ParseProbes_file file_probes_def parse_built)

theorem built_file_probes_witness:
  "\<exists>f. ParseProbes Stdlib_Sections Stdlib_LoadSegments \<lparr>rd_f = f, closer = None\<rparr> =
    Some (Inr [\<lparr>Provider = ''prov'', Name = ''probe'', Location = 0x2000, Base = 0x200000,
      SemaphoreOffset = 0, Arguments = []\<rparr>])"
proof -
  let ?ps = "[(0x201000, 0x200000, 0, ''prov'', ''probe'', [])]"
  let ?hs = "[\<lparr>hdr_Name = ''.note.stapsdt'', hdr_Addr = 0, hdr_Contents = Inr (build_notes ?ps)\<rparr>,
    \<lparr>hdr_Name = ''.stapsdt.base'', hdr_Addr = 0x400000, hdr_Contents = Inr []\<rparr>]"
  let ?progs = "[\<lparr>prog_Type = PT_LOAD, prog_Vaddr = 0x400000, prog_Memsz = 0x10000, prog_Off = 0x1000\<rparr>]"
  have "list_all note_ok ?ps" by (simp add: note_ok_def no_nul_def)
  moreover have "unreadable ?hs = None" by (simp add: unreadable_def needed_def)
  moreover have "named ''.note.stapsdt'' ?hs = Some (hd ?hs)" by (simp add: named_def)
  moreover have "base_address ?hs = 0x400000" by (simp add: base_address_def named_def)
  ultimately show ?thesis
    using built_file_probes [of ?hs "hd ?hs" ?ps ?progs None]
    by (auto simp: located_def prelink_def location_offset_def semaphore_offset_def load_segments_def
        load_segment_def Let_def)
qed

subsection \<open>Addresses\<close>

text \<open>
  C16: an address in a \<open>PT_LOAD\<close> segment that does not wrap becomes the file offset at the same
  distance from the segment's start, inside the segment's range; an address in no segment stays
  as it is, and a semaphore in no segment gives no offset.
\<close>

theorem location_offset_exact:
  assumes "\<And>p. p \<in> set segs \<Longrightarrow> unat (Off p) + unat (Memsz p) < 2 ^ 64 \<and> unat (Vaddr p) + unat (Memsz p) < 2 ^ 64"
  shows "case findLoadSegment segs addr of
      Some p \<Rightarrow> p \<in> set segs \<and> Vaddr p \<le> addr
        \<and> unat (location_offset segs addr) = unat (Off p) + (unat addr - unat (Vaddr p))
        \<and> unat addr - unat (Vaddr p) < unat (Memsz p)
    | None \<Rightarrow> location_offset segs addr = addr \<and> semaphore_offset segs addr = 0"
proof (cases "findLoadSegment segs addr")
  case None
  then show ?thesis by (simp add: location_offset_def semaphore_offset_def)
next
  case (Some p)
  then show ?thesis
    using findLoadSegment_Some [OF Some] file_offset_exact [OF Some] assms
    by (simp add: location_offset_def)
qed

theorem location_offset_exact_witness:
  "location_offset [\<lparr>Vaddr = 0x400000, Memsz = 0x10000, Off = 0\<rparr>] 0x401000 = 0x1000"
proof -
  let ?segs = "[\<lparr>Vaddr = 0x400000, Memsz = 0x10000, Off = 0\<rparr>]"
  have "findLoadSegment ?segs 0x401000 = Some (hd ?segs)" by simp
  then have "unat (location_offset ?segs 0x401000) = 0x1000"
    using location_offset_exact [of ?segs "0x401000"] by simp
  then show ?thesis by (simp add: word_unat_eq_iff)
qed

text \<open>
  C17: prelinking does not matter: when all addresses of a note, its base included, are moved by
  the same distance, the probe's location and semaphore offset stay the same, provided the file
  has a \<open>.stapsdt.base\<close> section and neither the base nor a semaphore is moved to address zero.
\<close>

theorem prelink_invariant:
  assumes "B \<noteq> 0" "b \<noteq> 0" "b + d \<noteq> 0" "s = 0 \<or> s + d \<noteq> 0"
  shows "located B segs (l + d) (b + d) (if s = 0 then 0 else s + d) p n a =
    (located B segs l b s p n a)\<lparr>Base := b + d\<rparr>"
  using assms by (cases "s = 0") (simp_all add: located_def prelink_def Let_def)

theorem prelink_invariant_witness:
  "located 0x400000 [] 0x301000 0x300000 0 ''p'' ''n'' [] = (located 0x400000 [] 0x201000 0x200000 0 ''p'' ''n'' [])\<lparr>Base := 0x300000\<rparr>"
  using prelink_invariant [of "0x400000" "0x200000" "0x100000" 0 "[]" "0x201000" "''p''" "''n''" "[]"] by simp

subsection \<open>Files\<close>

text \<open>
  C15: \<open>ParseProbesFromFile\<close> returns what the file's contents determine and leaves no file open,
  on every path: a file that cannot be opened, is no ELF file, has an unreadable section, or is
  fine; for every behaviour of \<open>elf.NewFile\<close>.
\<close>

theorem ParseProbesFromFile_closes:
  "\<exists>w'. ParseProbesFromFile os_Open os_Close os_content newfile path w = (path_probes newfile (os_files w path), w')
    \<and> os_handles w' = os_handles w \<and> os_files w' = os_files w"
  by (rule os.ParseProbesFromFile_ok)

text \<open>
  A reader from \<open>OpenELF\<close> owns exactly one new open file, which its \<open>Close\<close> closes without error.
\<close>

lemma OpenELF_owns:
  assumes "OpenELF os_Open os_Close os_content newfile path w = (Inr r, w')"
  shows "\<exists>h w''. closer r = Some h \<and> h \<notin> os_handles w \<and> os_handles w' = insert h (os_handles w)
    \<and> Reader_Close os_Close r w' = (None, w'') \<and> os_handles w'' = os_handles w"
proof -
  have "\<exists>data f. os_files w path = Inr data \<and> newfile data = Inr f"
    using os.OpenELF_err [of w path _ _ newfile] assms by (metis Pair_inject old.sum.exhaust sum.distinct(1))
  then obtain h where r: "closer r = Some h" "h \<notin> os_handles w" "os_handles w' = insert h (os_handles w)"
    using os.OpenELF_ok [of w path _ newfile] assms by fastforce
  then obtain w'' where "os_Close h w' = (None, w'')" "os_handles w'' = os_handles w' - {h}"
    using os.close_ok [of h w'] by auto
  then show ?thesis using r by (auto simp: Reader_Close_def)
qed

end
