(* ===== verification/Cli_Claims.thy ===== *)
theory Cli_Claims
  imports Cli Parser_Claims Elf_Claims
begin

section \<open>Properties of the command line\<close>

text \<open>
  What a user sees: the table \<open>usdt list\<close> prints for any spelling of its flags, the lines
  \<open>usdt parse-args\<close> prints for a well-formed argument string, and the exit codes.
\<close>

subsection \<open>\<open>usdt parse-args\<close>\<close>

definition args_report :: "ArgSpec list \<Rightarrow> string" where
  "args_report as =
     ''argument count: '' @ show_nat (length as) @ nl
     @ concat (map (\<lambda>i. arg_line i (as ! i)) [0..<length as])"

lemma print_args_all:
  "\<forall>i\<in>set js. i < length (Args spec) \<Longrightarrow>
    print_args spec js out = Some (out @ concat (map (\<lambda>i. arg_line i (Args spec ! i)) js))"
  by (induction js arbitrary: out) (simp_all add: index_Some)

lemma count_small: "k \<le> 12 \<Longrightarrow> sint (of_nat k :: s16) = int k"
proof -
  have "list_all (\<lambda>k. sint (of_nat k :: s16) = int k) [0..<13]" by code_simp
  then show "k \<le> 12 \<Longrightarrow> ?thesis" by (simp add: list_all_iff)
qed

lemma cmdParseArgs_ok:
  assumes "ParseUSDTArguments goarch s = Inr (spec_with as)" "length as \<le> 12"
  shows "cmdParseArgs goarch [s] = Some (\<lparr>Stdout = args_report as, Stderr = []\<rparr>, 0)"
proof -
  have n: "sint (Arg_cnt (spec_with as)) = int (length as)"
    using assms(2) by (simp add: spec_with_def count_small)
  have "concat (map (\<lambda>i. arg_line i (Args (spec_with as) ! i)) [0..<length as])
      = concat (map (\<lambda>i. arg_line i (as ! i)) [0..<length as])"
    by (intro arg_cong [of _ _ concat] map_cong) (simp_all add: spec_with_def nth_append)
  moreover have "\<forall>i\<in>set [0..<length as]. i < length (Args (spec_with as))"
    by (simp add: spec_with_def)
  ultimately show ?thesis
    using assms(1) by (simp add: cmdParseArgs_def n print_args_all args_report_def show_int_def)
qed

subsection \<open>\<open>usdt list\<close>\<close>

text \<open>The options of the command and the ways to spell them.\<close>

datatype list_option = OptProvider string | OptName string | OptArgs bool

inductive spells :: "list_option \<Rightarrow> string list \<Rightarrow> bool" where
  provider_next: "d \<in> {''-'', ''--''} \<Longrightarrow> spells (OptProvider v) [d @ ''provider'', v]"
| provider_given: "d \<in> {''-'', ''--''} \<Longrightarrow> spells (OptProvider v) [d @ ''provider='' @ v]"
| name_next: "d \<in> {''-'', ''--''} \<Longrightarrow> spells (OptName v) [d @ ''name'', v]"
| name_given: "d \<in> {''-'', ''--''} \<Longrightarrow> spells (OptName v) [d @ ''name='' @ v]"
| args_bare: "d \<in> {''-'', ''--''} \<Longrightarrow> spells (OptArgs True) [d @ ''args'']"
| args_given: "d \<in> {''-'', ''--''} \<Longrightarrow> ParseBool v = Some b \<Longrightarrow> spells (OptArgs b) [d @ ''args='' @ v]"

record settings =
  with_provider :: string
  with_name :: string
  with_args :: bool

definition no_settings :: settings where
  "no_settings = \<lparr>with_provider = [], with_name = [], with_args = False\<rparr>"

fun apply_option :: "list_option \<Rightarrow> settings \<Rightarrow> settings" where
  "apply_option (OptProvider v) st = st\<lparr>with_provider := v\<rparr>"
| "apply_option (OptName v) st = st\<lparr>with_name := v\<rparr>"
| "apply_option (OptArgs b) st = st\<lparr>with_args := b\<rparr>"

definition flags_of :: "settings \<Rightarrow> (string \<times> flag_value) list" where
  "flags_of st =
     [(''provider'', StringFlag (with_provider st)), (''name'', StringFlag (with_name st)),
      (''args'', BoolFlag (with_args st))]"

definition flag_name :: "string \<Rightarrow> bool" where
  "flag_name n \<longleftrightarrow> n \<noteq> [] \<and> hd n \<noteq> CHR ''-'' \<and> CHR ''='' \<notin> set n"

lemma cut_equals_name [simp]:
  assumes "flag_name n"
  shows "cut_equals n = (n, None)" "cut_equals (n @ CHR ''='' # v) = (n, Some v)"
proof -
  have "takeWhile (\<lambda>c. c \<noteq> CHR ''='') (n @ u) = n @ takeWhile (\<lambda>c. c \<noteq> CHR ''='') u" for u
    using assms by (intro takeWhile_append2) (auto simp: flag_name_def)
  from this [of "[]"] this [of "CHR ''='' # v"]
  show "cut_equals n = (n, None)" "cut_equals (n @ CHR ''='' # v) = (n, Some v)"
    by (simp_all add: cut_equals_def Let_def)
qed

lemma flag_Parse_flag:
  assumes "d \<in> {''-'', ''--''}" "flag_name n"
  shows "map_of fs n = Some (StringFlag x) \<Longrightarrow>
      flag_Parse fs ((d @ n) # v # args) = flag_Parse (AList.update n (StringFlag v) fs) args"
    and "map_of fs n = Some (StringFlag x) \<Longrightarrow>
      flag_Parse fs ((d @ n @ CHR ''='' # v) # args) = flag_Parse (AList.update n (StringFlag v) fs) args"
    and "map_of fs n = Some (BoolFlag y) \<Longrightarrow>
      flag_Parse fs ((d @ n) # args) = flag_Parse (AList.update n (BoolFlag True) fs) args"
    and "map_of fs n = Some (BoolFlag y) \<Longrightarrow> ParseBool v = Some b \<Longrightarrow>
      flag_Parse fs ((d @ n @ CHR ''='' # v) # args) = flag_Parse (AList.update n (BoolFlag b) fs) args"
proof -
  obtain c cs where n: "n = c # cs" "c \<noteq> CHR ''-''" "c \<noteq> CHR ''=''"
    using assms(2) by (cases n) (auto simp: flag_name_def)
  have cut: "cut_equals (c # cs) = (c # cs, None)" "cut_equals (c # cs @ CHR ''='' # v) = (c # cs, Some v)" for v
    using cut_equals_name [OF assms(2)] by (simp_all add: n)
  show "map_of fs n = Some (StringFlag x) \<Longrightarrow>
      flag_Parse fs ((d @ n) # v # args) = flag_Parse (AList.update n (StringFlag v) fs) args"
    "map_of fs n = Some (StringFlag x) \<Longrightarrow>
      flag_Parse fs ((d @ n @ CHR ''='' # v) # args) = flag_Parse (AList.update n (StringFlag v) fs) args"
    "map_of fs n = Some (BoolFlag y) \<Longrightarrow>
      flag_Parse fs ((d @ n) # args) = flag_Parse (AList.update n (BoolFlag True) fs) args"
    "map_of fs n = Some (BoolFlag y) \<Longrightarrow> ParseBool v = Some b \<Longrightarrow>
      flag_Parse fs ((d @ n @ CHR ''='' # v) # args) = flag_Parse (AList.update n (BoolFlag b) fs) args"
    using assms(1) n(2,3) by (auto simp: n(1) cut)
qed

lemma flag_names [simp]: "flag_name ''provider''" "flag_name ''name''" "flag_name ''args''"
  by (simp_all add: flag_name_def)

lemma flags_of_lookup [simp]:
  "map_of (flags_of st) ''provider'' = Some (StringFlag (with_provider st))"
  "map_of (flags_of st) ''name'' = Some (StringFlag (with_name st))"
  "map_of (flags_of st) ''args'' = Some (BoolFlag (with_args st))"
  by (simp_all add: flags_of_def)

lemma flags_of_update [simp]:
  "AList.update ''provider'' (StringFlag v) (flags_of st) = flags_of (st\<lparr>with_provider := v\<rparr>)"
  "AList.update ''name'' (StringFlag v) (flags_of st) = flags_of (st\<lparr>with_name := v\<rparr>)"
  "AList.update ''args'' (BoolFlag b) (flags_of st) = flags_of (st\<lparr>with_args := b\<rparr>)"
  by (simp_all add: flags_of_def)

lemma flag_Parse_spelled:
  assumes "spells opt texts"
  shows "flag_Parse (flags_of st) (texts @ rest) = flag_Parse (flags_of (apply_option opt st)) rest"
  using assms
proof cases
  case (provider_next d v)
  then show ?thesis using flag_Parse_flag(1) [of d "''provider''" "flags_of st"] by simp
next
  case (provider_given d v)
  then show ?thesis using flag_Parse_flag(2) [of d "''provider''" "flags_of st"] by simp
next
  case (name_next d v)
  then show ?thesis using flag_Parse_flag(1) [of d "''name''" "flags_of st"] by simp
next
  case (name_given d v)
  then show ?thesis using flag_Parse_flag(2) [of d "''name''" "flags_of st"] by simp
next
  case (args_bare d)
  then show ?thesis using flag_Parse_flag(3) [of d "''args''" "flags_of st"] by simp
next
  case (args_given d v b)
  then show ?thesis using flag_Parse_flag(4) [of d "''args''" "flags_of st"] by simp
qed

text \<open>An argument at which the flags end.\<close>

definition positional :: "string \<Rightarrow> bool" where
  "positional s \<longleftrightarrow> length s < 2 \<or> hd s \<noteq> CHR ''-''"

lemma flag_Parse_options:
  assumes "list_all2 spells opts texts" "positional path"
  shows "flag_Parse (flags_of st) (concat texts @ path # rest) = Inr (flags_of (fold apply_option opts st), path # rest)"
  using assms(1)
proof (induction opts arbitrary: texts st)
  case Nil
  then show ?case using assms(2) by (simp add: positional_def)
next
  case (Cons opt opts)
  then obtain t ts where "texts = t # ts" "spells opt t" "list_all2 spells opts ts"
    by (auto simp: list_all2_Cons1)
  then show ?case using Cons.IH flag_Parse_spelled by simp
qed

text \<open>The probes an invocation selects and the rows it prints.\<close>

definition selects :: "settings \<Rightarrow> Probe \<Rightarrow> bool" where
  "selects st p \<longleftrightarrow> with_provider st \<in> {[], Provider p} \<and> with_name st \<in> {[], Name p}"

definition probe_cells :: "bool \<Rightarrow> Probe \<Rightarrow> string list" where
  "probe_cells showArgs p =
     [Provider p, Name p, ''0x'' @ show_hex (unat (Location p)),
      if SemaphoreOffset p = 0 then ''-'' else ''0x'' @ show_hex (unat (SemaphoreOffset p))]
     @ (if showArgs then [Arguments p] else [])"

definition list_header :: "bool \<Rightarrow> string list" where
  "list_header showArgs =
     [''PROVIDER'', ''NAME'', ''LOCATION'', ''SEMAPHORE''] @ (if showArgs then [''ARGUMENTS''] else [])"

definition list_rows :: "settings \<Rightarrow> Probe list \<Rightarrow> string list list" where
  "list_rows st ps = list_header (with_args st) # map (probe_cells (with_args st)) (filter (selects st) ps)"

lemma tw_Write_append: "tw_Write (a @ b) w = tw_Write b (tw_Write a w)"
  by (simp add: tw_Write_def)

lemma list_loop_rows:
  "list_loop (with_provider st) (with_name st) (with_args st) ps w n =
    (tw_Write (concat (map tab_row (map (probe_cells (with_args st)) (filter (selects st) ps)))) w,
     n + length (filter (selects st) ps))"
proof (induction ps arbitrary: w n)
  case Nil
  then show ?case by (simp add: tw_Write_def)
next
  case (Cons p ps)
  have "tab_row (probe_cells (with_args st) p) =
    Provider p @ tab @ Name p @ tab @ ''0x'' @ show_hex (unat (Location p)) @ tab
    @ (if SemaphoreOffset p \<noteq> 0 then ''0x'' @ show_hex (unat (SemaphoreOffset p)) else ''-'')
    @ (if with_args st then tab @ Arguments p @ nl else nl)"
    by (simp add: probe_cells_def tab_def nl_def)
  then show ?case using Cons by (auto simp: selects_def Let_def tw_Write_append [symmetric])
qed

lemma show_hex_plain: "plain_cell (show_hex n)"
proof (induction n rule: show_hex.induct)
  case (1 n)
  have digit: "plain_cell [''0123456789abcdef'' ! d]" if "d < 16" for d
  proof -
    have "list_all (\<lambda>d. plain_cell [''0123456789abcdef'' ! d]) [0..<16]" by code_simp
    then show ?thesis using that by (simp add: list_all_iff)
  qed
  then show ?case
    using 1 digit [of "n mod 16"] by (subst show_hex.simps) (simp add: plain_cell_def)
qed

definition printable :: "settings \<Rightarrow> Probe \<Rightarrow> bool" where
  "printable st p \<longleftrightarrow> plain_cell (Provider p) \<and> plain_cell (Name p) \<and> (with_args st \<longrightarrow> plain_cell (Arguments p))"

lemma list_rows_table:
  assumes "list_all (printable st) (filter (selects st) ps)"
  shows "is_table (list_rows st ps)"
proof -
  have hex: "plain_cell (''0x'' @ show_hex n)" for n
    using show_hex_plain [of n] by (simp add: plain_cell_def)
  have "list_all plain_cell (probe_cells (with_args st) p)" if "printable st p" for p
    using that hex by (auto simp: probe_cells_def printable_def) (simp_all add: plain_cell_def)
  moreover have "length (probe_cells b p) = (if b then 3 else 2) + 2" for b p by (simp add: probe_cells_def)
  moreover have "list_all plain_cell (list_header b)" "length (list_header b) = (if b then 3 else 2) + 2" for b
    by (simp_all add: list_header_def plain_cell_def)
  ultimately show ?thesis
    using assms unfolding is_table_def list_rows_def
    by (intro conjI exI [of _ "if with_args st then 3 else 2"]) (auto simp: list_all_iff)
qed

lemma list_flags_eq: "list_flags = flags_of no_settings"
  by (simp add: list_flags_def flags_of_def no_settings_def)

definition flag_settings :: "(string \<times> flag_value) list \<Rightarrow> settings" where
  "flag_settings fs =
     \<lparr>with_provider = string_flag fs ''provider'', with_name = string_flag fs ''name'', with_args = bool_flag fs ''args''\<rparr>"

lemma flag_settings_of [simp]: "flag_settings (flags_of st) = st"
  by (simp add: flag_settings_def string_flag_def bool_flag_def)

text \<open>The result of the command, from the files there are.\<close>

definition list_result :: "settings \<Rightarrow> go_error + Probe list \<Rightarrow> streams \<times> int" where
  "list_result st res =
     (case res of
        Inl err \<Rightarrow> (\<lparr>Stdout = [], Stderr = [error_line err]\<rparr>, 1)
      | Inr ps \<Rightarrow>
          (\<lparr>Stdout = tw_out (tw_Flush (tw_Write (concat (map tab_row (list_rows st ps))) NewWriter)),
             Stderr = (if filter (selects st) ps = [] then [Text (''no probes found'' @ nl)] else [])\<rparr>,
           if filter (selects st) ps = [] then 1 else 0))"

lemma path_probes_total: "\<exists>res. path_probes newfile d = Some res"
  by (auto simp: path_probes_def file_probes_def split: sum.split option.split)
    (metis parse_notes_total)

lemma list_header_text:
  "tab_row (list_header True) = ''PROVIDER'' @ tab @ ''NAME'' @ tab @ ''LOCATION'' @ tab @ ''SEMAPHORE'' @ tab @ ''ARGUMENTS'' @ nl"
  "tab_row (list_header False) = ''PROVIDER'' @ tab @ ''NAME'' @ tab @ ''LOCATION'' @ tab @ ''SEMAPHORE'' @ nl"
  by (simp_all add: list_header_def tab_def nl_def)

lemma cmdList_result:
  assumes "flag_Parse list_flags args = Inr (fs, [path])"
  shows "\<exists>res w'. path_probes newfile (os_files w path) = Some res
    \<and> cmdList os_Open os_Close os_content newfile args w = (Some (list_result (flag_settings fs) res), w')
    \<and> os_handles w' = os_handles w \<and> os_files w' = os_files w"
proof -
  obtain res where res: "path_probes newfile (os_files w path) = Some res" using path_probes_total by blast
  obtain w' where w': "ParseProbesFromFile os_Open os_Close os_content newfile path w = (Some res, w')"
    "os_handles w' = os_handles w" "os_files w' = os_files w"
    using os.ParseProbesFromFile_ok [of newfile path w] res by auto
  define b where "b = bool_flag fs ''args''"
  let ?sel = "filter (selects (flag_settings fs))"
  have loop: "list_loop (string_flag fs ''provider'') (string_flag fs ''name'') c ps tw 0 =
    (tw_Write (concat (map tab_row (map (probe_cells c) (?sel ps)))) tw, length (?sel ps))" if "b = c" for c ps tw
    using list_loop_rows [of "flag_settings fs" ps tw 0] that by (simp add: flag_settings_def b_def)
  have "cmdList os_Open os_Close os_content newfile args w = (Some (list_result (flag_settings fs) res), w')"
  proof (cases res)
    case (Inr ps)
    have "tw_Write (concat (map tab_row (list_rows (flag_settings fs) ps))) NewWriter =
      tw_Write (concat (map tab_row (map (probe_cells b) (?sel ps)))) (tw_Write (tab_row (list_header b)) NewWriter)"
      by (simp add: list_rows_def flag_settings_def tw_Write_append b_def)
    then show ?thesis
      using assms w'(1) Inr
      by (cases b) (simp_all add: cmdList_def b_def [symmetric] loop list_result_def list_header_text)
  next
    case (Inl err)
    then show ?thesis using assms w'(1) by (simp add: cmdList_def list_result_def)
  qed
  then show ?thesis using res w' by blast
qed

lemma flag_message_nonempty [simp]: "flag_message e \<noteq> []"
  by (cases e) (simp_all add: flag_usage_def)

subsection \<open>The properties\<close>

text \<open>
  C34: \<open>usdt list\<close> with any spelling of its options prints a table whose rows are the header and
  the probes of the file the options select, in order, with every column as wide as its widest
  cell plus two; it exits with 0 exactly if a probe was selected, and leaves no file open.
\<close>

theorem list_command:
  assumes "list_all2 spells opts texts" "positional path"
    and "st = fold apply_option opts no_settings"
    and "path_probes newfile (os_files w path) = Some (Inr ps)"
    and "list_all (printable st) (filter (selects st) ps)"
  shows "\<exists>w'. main goarch os_Open os_Close os_content newfile ([prog, ''list''] @ concat texts @ [path]) w =
      (Some (\<lparr>Stdout = table (list_rows st ps),
              Stderr = (if filter (selects st) ps = [] then [Text (''no probes found'' @ nl)] else [])\<rparr>,
            if filter (selects st) ps = [] then 1 else 0), w')
    \<and> os_handles w' = os_handles w"
proof -
  have "flag_Parse list_flags (concat texts @ [path]) = Inr (flags_of st, [path])"
    using flag_Parse_options [OF assms(1,2)] by (simp add: list_flags_eq assms(3))
  from cmdList_result [OF this, of newfile w] assms(4) obtain w' where
    "cmdList os_Open os_Close os_content newfile (concat texts @ [path]) w = (Some (list_result st (Inr ps)), w')"
    "os_handles w' = os_handles w"
    by auto
  then show ?thesis
    using tabwriter_table [OF list_rows_table [OF assms(5)]] by (simp add: main_def list_result_def)
qed

theorem list_command_witness:
  "\<exists>f w'. main ''amd64'' os_Open os_Close os_content (\<lambda>_. Inr f) [''usdt'', ''list'', ''--provider'', ''p'', ''b'']
      \<lparr>os_files = \<lambda>_. Inr [], os_open = []\<rparr>
    = (Some (\<lparr>Stdout = ''PROVIDER  NAME   LOCATION  SEMAPHORE'' @ nl @ ''p         probe  0x1000    -'' @ nl,
              Stderr = []\<rparr>, 0), w')"
proof -
  let ?q = "(0x1000, 0, 0, ''p'', ''probe'', [])"
  let ?f = "\<lparr>file_Sections = [\<lparr>hdr_Name = ''.note.stapsdt'', hdr_Addr = 0, hdr_Contents = Inr (build_notes [?q])\<rparr>],
    file_Progs = []\<rparr>"
  let ?w = "\<lparr>os_files = \<lambda>_. Inr [], os_open = []\<rparr>"
  let ?p = "\<lparr>Provider = ''p'', Name = ''probe'', Location = 0x1000, Base = 0, SemaphoreOffset = 0, Arguments = []\<rparr>"
  let ?st = "\<lparr>with_provider = ''p'', with_name = [], with_args = False\<rparr>"
  have sp: "spells (OptProvider ''p'') [''--provider'', ''p'']" using provider_next [of "''--''" "''p''"] by simp
  have "list_all note_ok [?q]" by (simp add: note_ok_def no_nul_def)
  then have "path_probes (\<lambda>_. Inr ?f) (os_files ?w ''b'') = Some (Inr [?p])"
    using parse_built [of "[?q]" 0 "[]"]
    by (simp add: path_probes_def file_probes_def unreadable_def needed_def named_def base_address_def
        load_segments_def located_def prelink_def location_offset_def semaphore_offset_def Let_def)
  moreover have "list_all (printable ?st) (filter (selects ?st) [?p])"
    by (simp add: printable_def plain_cell_def selects_def)
  moreover have "?st = fold apply_option [OptProvider ''p''] no_settings" by (simp add: no_settings_def)
  moreover have "list_all2 spells [OptProvider ''p''] [[''--provider'', ''p'']]" using sp by simp
  moreover have "positional ''b''" by (simp add: positional_def)
  ultimately have "\<exists>w'. main ''amd64'' os_Open os_Close os_content (\<lambda>_. Inr ?f)
      ([''usdt'', ''list''] @ concat [[''--provider'', ''p'']] @ [''b'']) ?w =
      (Some (\<lparr>Stdout = table (list_rows ?st [?p]),
              Stderr = (if filter (selects ?st) [?p] = [] then [Text (''no probes found'' @ nl)] else [])\<rparr>,
            if filter (selects ?st) [?p] = [] then 1 else 0), w')"
    using list_command [of "[OptProvider ''p'']" "[[''--provider'', ''p'']]" "''b''" ?st "\<lambda>_. Inr ?f" ?w "[?p]"]
    by blast
  moreover have "table (list_rows ?st [?p]) = ''PROVIDER  NAME   LOCATION  SEMAPHORE'' @ nl @ ''p         probe  0x1000    -'' @ nl"
    by code_simp
  moreover have "filter (selects ?st) [?p] = [?p]" by (simp add: selects_def)
  ultimately show ?thesis by auto
qed

text \<open>
  C35: \<open>usdt parse-args\<close> on any well-formed list of up to twelve arguments prints their number and
  one line per argument, in order, with the argument's kind, register, value, shift and flags; no
  kind is shown as unknown.
\<close>

theorem parse_args_command:
  assumes "tight g a" "arg_wf a" "list_all item_ok its"
    and "list_all is_ascii_space u" "list_all is_ascii_space v" "length its \<le> 11"
    and "list_all2 (\<lambda>a x. denote goarch a = Inr x) (a # item_args its) xs"
  shows "main goarch openf closef content newfile [prog, ''parse-args'', args_text u g a its v] w =
      (Some (\<lparr>Stdout = args_report xs, Stderr = []\<rparr>, 0), w)
    \<and> list_all (\<lambda>x. argTypeName x \<in> {''const'', ''reg'', ''reg_deref''}) xs"
proof -
  have p: "ParseUSDTArguments goarch (args_text u g a its v) = Inr (spec_with xs)"
    using parse_args_text [OF assms] .
  have len: "length xs \<le> 12" using list_all2_lengthD [OF assms(7)] assms(6) by (simp add: item_args_def)
  have "Arg_type (xs ! i) \<in> {ArgConst, ArgReg, ArgRegDeref}" if "i < length xs" for i
    using denote_valid [of goarch _ "xs ! i"] list_all2_nthD2 [OF assms(7) that]
    by (auto simp: ArgSpec_valid_def)
  then have "list_all (\<lambda>x. argTypeName x \<in> {''const'', ''reg'', ''reg_deref''}) xs"
    by (auto simp: list_all_length argTypeName_def)
  then show ?thesis using cmdParseArgs_ok [OF p len] by (simp add: main_def)
qed

theorem parse_args_command_witness:
  "main ''amd64'' os_Open os_Close os_content (\<lambda>_. Inl EmptyArgument) [''usdt'', ''parse-args'', ''-4@$-9'']
      \<lparr>os_files = \<lambda>_. Inr [], os_open = []\<rparr>
    = (Some (\<lparr>Stdout = ''argument count: 1'' @ nl
          @ ''  [0] type=const     reg=  0 val_off=-9     bitshift=32 signed'' @ nl, Stderr = []\<rparr>, 0),
       \<lparr>os_files = \<lambda>_. Inr [], os_open = []\<rparr>)"
proof -
  let ?a = "ArgSyntax ''-4'' False (DollarConst ''-9'')"
  let ?x = "zero_ArgSpec\<lparr>Val_off := - 9, Arg_type := ArgConst, Arg_signed := True, Arg_bitshift := 32\<rparr>"
  have a: "arg_wf ?a" and d: "denote ''amd64'' ?a = Inr ?x" by code_simp+
  have t: "args_text [] no_gaps ?a [] [] = ''-4@$-9''"
    by (simp add: args_text_def join_def item_texts_def render_def float_text_def)
  have r: "args_report [?x] = ''argument count: 1'' @ nl
      @ ''  [0] type=const     reg=  0 val_off=-9     bitshift=32 signed'' @ nl"
    by code_simp
  have "list_all2 (\<lambda>a x. denote ''amd64'' a = Inr x) (?a # item_args []) [?x]"
    using d by (simp only: item_args_def list.map list_all2_Cons list_all2_Nil simp_thms)
  then have "main ''amd64'' os_Open os_Close os_content (\<lambda>_. Inl EmptyArgument)
      [''usdt'', ''parse-args'', args_text [] no_gaps ?a [] []] \<lparr>os_files = \<lambda>_. Inr [], os_open = []\<rparr>
    = (Some (\<lparr>Stdout = args_report [?x], Stderr = []\<rparr>, 0), \<lparr>os_files = \<lambda>_. Inr [], os_open = []\<rparr>)"
    by (rule parse_args_command [OF tight_no_gaps a _ _ _ _, THEN conjunct1, rotated -1]) simp_all
  then show ?thesis unfolding t r .
qed

text \<open>
  C28: every error of a whole argument string, and what \<open>usdt parse-args\<close> says about it: a string
  is refused exactly when it has more than twelve pieces, whatever they are, with their number, or
  else when one of its pieces is refused, with index, text and error of the first such piece,
  whatever comes after it. The message is printed on standard error, nothing on standard output,
  and the exit code is 1.
\<close>

theorem ParseUSDTArguments_errors:
  "let ss = splitUSDTArgs (TrimSpace s);
       refused = (\<lambda>text. main goarch openf closef content newfile [prog, ''parse-args'', s] w =
         (Some (\<lparr>Stdout = [], Stderr = [Text (''error: '' @ text @ nl)]\<rparr>, 1), w))
   in (ParseUSDTArguments goarch s = Inl err \<longleftrightarrow>
        12 < length ss \<and> err = TooManyArguments (length ss)
        \<or> length ss \<le> 12 \<and> (\<exists>i e. first_bad goarch ss i e \<and> err = ParseArgument i (ss ! i) e))
    \<and> (12 < length ss \<longrightarrow> refused (''too many arguments: '' @ show_nat (length ss) @ '' (max 12)''))
    \<and> (length ss \<le> 12 \<longrightarrow> first_bad goarch ss i e \<longrightarrow>
        refused (''failed to parse argument '' @ show_nat i @ '' ('' @ ss ! i @ ''): '' @ Error_text e))"
proof -
  have refused: "main goarch openf closef content newfile [prog, ''parse-args'', s] w =
      (Some (\<lparr>Stdout = [], Stderr = [Text (''error: '' @ Error_text err @ nl)]\<rparr>, 1), w)"
    if "ParseUSDTArguments goarch s = Inl err" for err
    using that by (simp add: main_def cmdParseArgs_def error_line_def)
  let ?ss = "splitUSDTArgs (TrimSpace s)"
  have "ParseUSDTArguments goarch s = Inl (TooManyArguments (length ?ss))" if "12 < length ?ss"
    using that unfolding ParseUSDTArguments_Inl_iff by (simp add: Let_def)
  moreover have "ParseUSDTArguments goarch s = Inl (ParseArgument i (?ss ! i) e)"
    if "length ?ss \<le> 12" "first_bad goarch ?ss i e"
    using that unfolding ParseUSDTArguments_Inl_iff by (auto simp: Let_def)
  ultimately show ?thesis
    using ParseUSDTArguments_Inl_iff [of goarch s err] refused by (auto simp: Let_def)
qed

theorem ParseUSDTArguments_errors_witness:
  "main ''amd64'' os_Open os_Close os_content (\<lambda>_. Inl EmptyArgument) [''usdt'', ''parse-args'', ''8@%rax 8@%x0 foo'']
      \<lparr>os_files = \<lambda>_. Inr [], os_open = []\<rparr>
    = (Some (\<lparr>Stdout = [], Stderr = [Text (''error: failed to parse argument 1 (8@%x0): unknown register: x0'' @ nl)]\<rparr>, 1),
       \<lparr>os_files = \<lambda>_. Inr [], os_open = []\<rparr>)
   \<and> \<not> isl (ParseUSDTArgSpec ''amd64'' ''4@$1'')
   \<and> main ''amd64'' os_Open os_Close os_content (\<lambda>_. Inl EmptyArgument)
      [''usdt'', ''parse-args'', concat (replicate 13 ''4@$1 '')] \<lparr>os_files = \<lambda>_. Inr [], os_open = []\<rparr>
    = (Some (\<lparr>Stdout = [], Stderr = [Text (''error: too many arguments: 13 (max 12)'' @ nl)]\<rparr>, 1),
       \<lparr>os_files = \<lambda>_. Inr [], os_open = []\<rparr>)"
proof -
  have few: "splitUSDTArgs (TrimSpace ''8@%rax 8@%x0 foo'') = [''8@%rax'', ''8@%x0'', ''foo'']"
    "first_bad ''amd64'' [''8@%rax'', ''8@%x0'', ''foo''] 1 (UnknownRegister ''x0'')"
    by code_simp+
  have many: "splitUSDTArgs (TrimSpace (concat (replicate 13 ''4@$1 ''))) = replicate 13 ''4@$1''"
    "\<not> isl (ParseUSDTArgSpec ''amd64'' ''4@$1'')"
    by code_simp+
  have n: "show_nat 1 = ''1''" "show_nat 13 = ''13''" by code_simp+
  let ?w = "\<lparr>os_files = \<lambda>_. Inr [], os_open = []\<rparr>"
  show ?thesis
    using ParseUSDTArguments_errors [of "''8@%rax 8@%x0 foo''" "''amd64''" os_Open os_Close os_content "\<lambda>_. Inl EmptyArgument"
        "''usdt''" ?w EmptyArgument 1 "UnknownRegister ''x0''"]
      ParseUSDTArguments_errors [of "concat (replicate 13 ''4@$1 '')" "''amd64''" os_Open os_Close os_content
        "\<lambda>_. Inl EmptyArgument" "''usdt''" ?w EmptyArgument 0 EmptyArgument]
      many(2)
    unfolding few(1) many(1) Let_def by (simp add: few(2) [unfolded One_nat_def] n [unfolded One_nat_def] del: replicate.simps)
qed

definition succeeds ::
  "string \<Rightarrow> (bytes \<Rightarrow> go_error + elf_File) \<Rightarrow> (string \<Rightarrow> go_error + bytes) \<Rightarrow> string list \<Rightarrow> bool" where
  "succeeds goarch newfile files args \<longleftrightarrow>
     (\<exists>prog s spec. args = [prog, ''parse-args'', s] \<and> ParseUSDTArguments goarch s = Inr spec)
     \<or> (\<exists>prog rest fs path ps. args = prog # ''list'' # rest \<and> flag_Parse list_flags rest = Inr (fs, [path])
          \<and> path_probes newfile (files path) = Some (Inr ps) \<and> filter (selects (flag_settings fs)) ps \<noteq> [])"

lemma cmdParseArgs_total:
  "\<exists>r c. cmdParseArgs goarch args = Some (r, c)
    \<and> (c, Stderr r = []) = (if \<exists>s spec. args = [s] \<and> ParseUSDTArguments goarch s = Inr spec then (0, True) else (1, False))"
proof (cases args)
  case (Cons s rest)
  show ?thesis
  proof (cases "ParseUSDTArguments goarch s")
    case (Inr spec)
    then obtain as where "spec = spec_with as" "length as \<le> 12" using ParseUSDTArguments_valid by blast
    then show ?thesis using Inr Cons cmdParseArgs_ok [of goarch s as]
      by (cases rest) (simp_all add: cmdParseArgs_def)
  qed (use Cons in \<open>auto simp: cmdParseArgs_def\<close>)
qed (simp add: cmdParseArgs_def)

lemma cmdList_total:
  "\<exists>r c w'. cmdList os_Open os_Close os_content newfile args w = (Some (r, c), w')
    \<and> os_handles w' = os_handles w \<and> os_files w' = os_files w
    \<and> (c, Stderr r = []) =
      (if \<exists>fs path ps. flag_Parse list_flags args = Inr (fs, [path])
          \<and> path_probes newfile (os_files w path) = Some (Inr ps) \<and> filter (selects (flag_settings fs)) ps \<noteq> []
       then (0, True) else (1, False))"
proof (cases "\<exists>fs path. flag_Parse list_flags args = Inr (fs, [path])")
  case True
  then obtain fs path where f: "flag_Parse list_flags args = Inr (fs, [path])" by blast
  from cmdList_result [OF this, of newfile w] obtain res w' where
    "path_probes newfile (os_files w path) = Some res"
    "cmdList os_Open os_Close os_content newfile args w = (Some (list_result (flag_settings fs) res), w')"
    "os_handles w' = os_handles w" "os_files w' = os_files w"
    by blast
  then show ?thesis using f by (cases res) (auto simp: list_result_def)
next
  case False
  then show ?thesis by (auto simp: cmdList_def length_Suc_conv split: sum.split)
qed

lemma main_total:
  "\<exists>r c w'. main goarch os_Open os_Close os_content newfile args w = (Some (r, c), w')
    \<and> os_handles w' = os_handles w \<and> os_files w' = os_files w
    \<and> (c, Stderr r = []) = (if succeeds goarch newfile (os_files w) args then (0, True) else (1, False))"
proof (cases "length args < 2")
  case True
  then show ?thesis by (auto simp: main_def printUsage_def succeeds_def)
next
  case False
  then obtain prog cmd rest where args: "args = prog # cmd # rest"
    by (metis One_nat_def Suc_1 length_Cons less_Suc_eq_0_disj list.exhaust list.size(3) lessI)
  consider "cmd = ''list''" | "cmd = ''parse-args''" | "cmd \<notin> {''list'', ''parse-args''}" by blast
  then show ?thesis
  proof cases
    case 1
    then show ?thesis using cmdList_total [of newfile rest w] by (simp add: args main_def succeeds_def)
  next
    case 2
    then show ?thesis using cmdParseArgs_total [of goarch rest] by (auto simp: args main_def succeeds_def)
  next
    case 3
    then show ?thesis by (auto simp: args main_def succeeds_def)
  qed
qed

text \<open>
  C36: on any command line, any files and any behaviour of \<open>elf.NewFile\<close>, the program ends without
  a panic and with no file left open. Its exit code is 0 or 1; 0 means that the arguments were
  parsed, or that the flags were well formed, the file was read and a probe in it was selected;
  and exactly then nothing is written to standard error. Flags must stand before the path: an
  invocation \<open>usdt list <binary> <flags>\<close>, the order in the usage comment and in the README, with a
  path that does not begin with a dash and any flags before it too, always ends with the usage
  text and exit code 1, because the flag package stops at the path.
\<close>

theorem main_exit:
  "(\<exists>r c w'. main goarch os_Open os_Close os_content newfile args w = (Some (r, c), w')
    \<and> os_handles w' = os_handles w \<and> os_files w' = os_files w
    \<and> (c, Stderr r = []) = (if succeeds goarch newfile (os_files w) args then (0, True) else (1, False)))
   \<and> (list_all2 spells opts texts \<longrightarrow> positional path \<longrightarrow> after \<noteq> [] \<longrightarrow>
      main goarch os_Open os_Close os_content newfile (prog # ''list'' # concat texts @ path # after) w =
        (Some (\<lparr>Stdout = [], Stderr = Text (''usage: usdt list [flags] <binary>'' @ nl) # PrintDefaults\<rparr>, 1), w))"
proof
  have "cmdList os_Open os_Close os_content newfile (concat texts @ path # after) w =
      (Some (\<lparr>Stdout = [], Stderr = Text (''usage: usdt list [flags] <binary>'' @ nl) # PrintDefaults\<rparr>, 1), w)"
    if "list_all2 spells opts texts" "positional path" "after \<noteq> []"
    using flag_Parse_options [OF that(1,2), of no_settings after] that(3)
    by (simp add: cmdList_def list_flags_eq)
  then show "list_all2 spells opts texts \<longrightarrow> positional path \<longrightarrow> after \<noteq> [] \<longrightarrow>
      main goarch os_Open os_Close os_content newfile (prog # ''list'' # concat texts @ path # after) w =
        (Some (\<lparr>Stdout = [], Stderr = Text (''usage: usdt list [flags] <binary>'' @ nl) # PrintDefaults\<rparr>, 1), w)"
    by (simp add: main_def)
  show "\<exists>r c w'. main goarch os_Open os_Close os_content newfile args w = (Some (r, c), w')
    \<and> os_handles w' = os_handles w \<and> os_files w' = os_files w
    \<and> (c, Stderr r = []) = (if succeeds goarch newfile (os_files w) args then (0, True) else (1, False))"
    by (rule main_total)
qed

theorem main_exit_witness:
  "main ''amd64'' os_Open os_Close os_content (\<lambda>_. Inl EmptyArgument) [''usdt'', ''list'', ''/bin/sh'', ''--args'']
      \<lparr>os_files = \<lambda>_. Inr [], os_open = []\<rparr>
    = (Some (\<lparr>Stdout = [], Stderr = Text (''usage: usdt list [flags] <binary>'' @ nl) # PrintDefaults\<rparr>, 1),
       \<lparr>os_files = \<lambda>_. Inr [], os_open = []\<rparr>)"
  using main_exit [of "''amd64''" "\<lambda>_. Inl EmptyArgument" "[]" "\<lparr>os_files = \<lambda>_. Inr [], os_open = []\<rparr>"
      "[]" "[]" "''/bin/sh''" "[''--args'']" "''usdt''"]
  by (simp add: positional_def)

end
