(* ===== verification/Attach.thy ===== *)
theory Attach
  imports Arguments Spec_Bytes
begin

section \<open>Specs, cookies and uprobes: \<open>attach.go\<close>\<close>

text \<open>
  The kernel's objects are explicit state \<open>'w\<close>. The methods of \<open>github.com/cilium/ebpf\<close> are
  parameters: \<open>put\<close> and \<open>delete\<close> of a map, \<open>uprobe\<close> of an executable and \<open>close\<close> of a link, each
  with an error (\<^term>\<open>None\<close> is nil) and the new state. A map and a program are file
  descriptors. What these methods promise are the locales of \<open>Attach_Spec\<close>.
\<close>

type_synonym fd = nat

record UprobeOptions =
  Address :: u64
  RefCtrOffset :: u64
  opt_Cookie :: u64

record 'l ProbeLinks =
  Links :: "'l list"
  SpecIDs :: "u32 list"
  SpecMap :: "fd option"

subsection \<open>Detaching\<close>

definition errors_Join :: "go_error list \<Rightarrow> go_error option" where
  "errors_Join errs = (if errs = [] then None else Some (Joined errs))"

fun close_links ::
  "('l \<Rightarrow> 'w \<Rightarrow> go_error option \<times> 'w) \<Rightarrow> 'l list \<Rightarrow> go_error list \<Rightarrow> 'w \<Rightarrow> go_error list \<times> 'w" where
  "close_links close [] errs w = (errs, w)"
| "close_links close (l # ls) errs w =
     (case close l w of
        (Some err, w) \<Rightarrow> close_links close ls (errs @ [err]) w
      | (None, w) \<Rightarrow> close_links close ls errs w)"

fun delete_specs ::
  "(u32 \<Rightarrow> 'w \<Rightarrow> go_error option \<times> 'w) \<Rightarrow> u32 list \<Rightarrow> go_error list \<Rightarrow> 'w \<Rightarrow> go_error list \<times> 'w" where
  "delete_specs delete [] errs w = (errs, w)"
| "delete_specs delete (spec_id # ids) errs w =
     (if spec_id \<noteq> 0 then
        case delete spec_id w of
          (Some err, w) \<Rightarrow> delete_specs delete ids (errs @ [err]) w
        | (None, w) \<Rightarrow> delete_specs delete ids errs w
      else delete_specs delete ids errs w)"

definition Unload ::
  "('l \<Rightarrow> 'w \<Rightarrow> go_error option \<times> 'w) \<Rightarrow> (fd \<Rightarrow> u32 \<Rightarrow> 'w \<Rightarrow> go_error option \<times> 'w)
    \<Rightarrow> 'l ProbeLinks \<Rightarrow> 'w \<Rightarrow> go_error option \<times> 'w" where
  "Unload close delete pl w =
     (let (errs, w) = close_links close (Links pl) [] w;
          (errs, w) = (case SpecMap pl of
                         Some m \<Rightarrow> delete_specs (delete m) (SpecIDs pl) errs w
                       | None \<Rightarrow> (errs, w))
      in (errors_Join errs, w))"

definition Close ::
  "('l \<Rightarrow> 'w \<Rightarrow> go_error option \<times> 'w) \<Rightarrow> (fd \<Rightarrow> u32 \<Rightarrow> 'w \<Rightarrow> go_error option \<times> 'w)
    \<Rightarrow> 'l ProbeLinks \<Rightarrow> 'w \<Rightarrow> go_error option \<times> 'w" where
  "Close close delete pl w = Unload close delete pl w"

subsection \<open>Storing specs\<close>

text \<open>The loop: \<open>i\<close> is the index, \<open>specIDs\<close> and \<open>nextID\<close> the local variables.\<close>

fun populate_loop ::
  "string \<Rightarrow> (u32 \<Rightarrow> bytes \<Rightarrow> 'w \<Rightarrow> go_error option \<times> 'w) \<Rightarrow> Probe list \<Rightarrow> nat \<Rightarrow> u32 list \<Rightarrow> u32 \<Rightarrow> 'w
    \<Rightarrow> (go_error + u32 list) \<times> 'w" where
  "populate_loop goarch put [] i specIDs nextID w = (Inr specIDs, w)"
| "populate_loop goarch put (p # ps) i specIDs nextID w =
     (if Arguments p = [] then populate_loop goarch put ps (Suc i) specIDs nextID w
      else case ParseUSDTArguments goarch (Arguments p) of
        Inl err \<Rightarrow> populate_loop goarch put ps (Suc i) specIDs nextID w
      | Inr spec \<Rightarrow>
          (let spec_id = nextID;
               nextID = nextID + 1;
               specIDs = specIDs[i := spec_id]
           in case put spec_id (SpecToBytes spec) w of
                (Some err, w) \<Rightarrow> (Inl (StoreSpec (Provider p) (Name p) err), w)
              | (None, w) \<Rightarrow> populate_loop goarch put ps (Suc i) specIDs nextID w))"

definition PopulateSpecMap ::
  "string \<Rightarrow> (fd \<Rightarrow> u32 \<Rightarrow> bytes \<Rightarrow> 'w \<Rightarrow> go_error option \<times> 'w) \<Rightarrow> fd \<Rightarrow> Probe list \<Rightarrow> u32 \<Rightarrow> 'w
    \<Rightarrow> (go_error + u32 list) \<times> 'w" where
  "PopulateSpecMap goarch put specMap probes startID w =
     populate_loop goarch (put specMap) probes 0 (replicate (length probes) 0) startID w"

subsection \<open>Cookies\<close>

definition MergeCookies :: "u32 list \<Rightarrow> u64 list \<Rightarrow> u64 list" where
  "MergeCookies specIDs userCookies =
     (let n = length specIDs;
          n = (if length userCookies > n then length userCookies else n)
      in map (\<lambda>i.
           let out = (if i < length specIDs then push_bit 32 (ucast (specIDs ! i)) else 0)
           in if i < length userCookies then out OR (userCookies ! i AND 0xFFFFFFFF) else out)
         [0..<n])"

subsection \<open>Attaching\<close>

fun close_all :: "('l \<Rightarrow> 'w \<Rightarrow> go_error option \<times> 'w) \<Rightarrow> 'l list \<Rightarrow> 'w \<Rightarrow> 'w" where
  "close_all close [] w = w"
| "close_all close (l # ls) w = close_all close ls (snd (close l w))"

text \<open>
  The indexing \<open>progs ! i\<close> is in bounds: the caller has compared the lengths. \<open>cookies\<close> is
  \<^term>\<open>None\<close> for nil.
\<close>

fun attach_loop ::
  "('x \<Rightarrow> string \<Rightarrow> fd \<Rightarrow> UprobeOptions \<Rightarrow> 'w \<Rightarrow> (go_error + 'l) \<times> 'w)
    \<Rightarrow> ('l \<Rightarrow> 'w \<Rightarrow> go_error option \<times> 'w) \<Rightarrow> 'x \<Rightarrow> Probe list \<Rightarrow> fd list \<Rightarrow> u64 list option
    \<Rightarrow> nat \<Rightarrow> 'l list \<Rightarrow> 'w \<Rightarrow> (go_error + 'l list) \<times> 'w" where
  "attach_loop uprobe close exe [] progs cookies i links w = (Inr links, w)"
| "attach_loop uprobe close exe (p # ps) progs cookies i links w =
     (let opts = \<lparr>Address = Location p, RefCtrOffset = SemaphoreOffset p, opt_Cookie = 0\<rparr>;
          opts = (case cookies of
                    Some cs \<Rightarrow> if i < length cs then opts\<lparr>opt_Cookie := cs ! i\<rparr> else opts
                  | None \<Rightarrow> opts)
      in case uprobe exe (Name p) (progs ! i) opts w of
           (Inl err, w) \<Rightarrow>
             (Inl (AttachProbe (Name p) (Location p) err), close_all close links w)
         | (Inr l, w) \<Rightarrow>
             attach_loop uprobe close exe ps progs cookies (Suc i) (links @ [l]) w)"

definition AttachUprobes ::
  "('x \<Rightarrow> string \<Rightarrow> fd \<Rightarrow> UprobeOptions \<Rightarrow> 'w \<Rightarrow> (go_error + 'l) \<times> 'w)
    \<Rightarrow> ('l \<Rightarrow> 'w \<Rightarrow> go_error option \<times> 'w) \<Rightarrow> 'x \<Rightarrow> fd option \<Rightarrow> Probe list \<Rightarrow> fd list
    \<Rightarrow> u64 list option \<Rightarrow> 'w \<Rightarrow> (go_error + 'l ProbeLinks) \<times> 'w" where
  "AttachUprobes uprobe close exe specMap probes progs cookies w =
     (if length progs \<noteq> length probes then
        (Inl (ProgsLength (length progs) (length probes)), w)
      else
        case attach_loop uprobe close exe probes progs cookies 0 [] w of
          (Inl err, w) \<Rightarrow> (Inl err, w)
        | (Inr links, w) \<Rightarrow> (Inr \<lparr>Links = links, SpecIDs = [], SpecMap = specMap\<rparr>, w))"

end
