(* ===== verification/Attach_Spec.thy ===== *)
theory Attach_Spec
  imports Attach
begin

section \<open>What attaching promises\<close>

text \<open>
  The contracts of the kernel objects as locales: \<open>spec_map\<close> (a map holds what was put and
  not deleted; a failed call changes nothing), \<open>uprobes\<close> (a link stays attached until it is
  closed) and \<open>kernel\<close>, which joins them: neither touches the other's objects. The lemmas of
  \<open>attach.go\<close> are proved once under them.
\<close>

subsection \<open>The specs of a list of probes\<close>

definition probe_spec :: "string \<Rightarrow> Probe \<Rightarrow> Spec option" where
  "probe_spec goarch p =
     (if Arguments p = [] then None
      else case ParseUSDTArguments goarch (Arguments p) of Inl _ \<Rightarrow> None | Inr spec \<Rightarrow> Some spec)"

text \<open>The spec IDs given out, and the entries written, from the next free ID on.\<close>

fun assigned :: "string \<Rightarrow> Probe list \<Rightarrow> u32 \<Rightarrow> u32 list" where
  "assigned goarch [] n = []"
| "assigned goarch (p # ps) n =
     (case probe_spec goarch p of
        None \<Rightarrow> 0 # assigned goarch ps n
      | Some _ \<Rightarrow> n # assigned goarch ps (n + 1))"

fun entries :: "string \<Rightarrow> Probe list \<Rightarrow> u32 \<Rightarrow> (u32 \<times> Probe \<times> Spec) list" where
  "entries goarch [] n = []"
| "entries goarch (p # ps) n =
     (case probe_spec goarch p of
        None \<Rightarrow> entries goarch ps n
      | Some spec \<Rightarrow> (n, p, spec) # entries goarch ps (n + 1))"

definition store :: "(u32 \<times> Probe \<times> Spec) list \<Rightarrow> (u32 \<Rightarrow> bytes option) \<Rightarrow> u32 \<Rightarrow> bytes option" where
  "store es f = fold (\<lambda>(k, _, spec) f. f(k \<mapsto> SpecToBytes spec)) es f"

lemma length_assigned [simp]: "length (assigned goarch ps n) = length ps"
  by (induction ps arbitrary: n) (auto split: option.split)

lemma entries_keys: "map fst (entries goarch ps n) = map (\<lambda>j. n + of_nat j) [0..<length (entries goarch ps n)]"
proof (induction ps arbitrary: n)
  case (Cons p ps)
  then show ?case
    by (simp split: option.split add: upt_conv_Cons map_Suc_upt [symmetric] comp_def add.assoc
        del: upt_Suc)
qed simp

lemma length_entries: "length (entries goarch ps n) \<le> length ps"
  by (induction ps arbitrary: n) (auto split: option.split intro: le_SucI)

lemma entries_distinct:
  assumes "length ps \<le> 2 ^ 32"
  shows "distinct (map fst (entries goarch ps n))"
proof -
  have "inj_on (\<lambda>j. n + of_nat j :: u32) {0..<length (entries goarch ps n)}"
  proof (rule inj_onI)
    fix x y
    assume "x \<in> {0..<length (entries goarch ps n)}" "y \<in> {0..<length (entries goarch ps n)}"
      and e: "n + of_nat x = n + (of_nat y :: u32)"
    then have "x < 2 ^ 32" "y < 2 ^ 32" using assms length_entries [of goarch ps n] by auto
    then have "unat (of_nat x :: u32) = x" "unat (of_nat y :: u32) = y"
      by (simp_all add: unat_of_nat)
    then show "x = y" using e by (metis add_left_cancel)
  qed
  then show ?thesis by (simp add: entries_keys distinct_map)
qed

lemma store_other: "k \<notin> fst ` set es \<Longrightarrow> store es f k = f k"
  by (induction es arbitrary: f) (auto simp: store_def)

lemma store_Cons: "store ((k, p, s) # es) f = store es (f(k \<mapsto> SpecToBytes s))"
  by (simp add: store_def)

lemma store_entry:
  assumes "distinct (map fst es)" "(k, p, s) \<in> set es"
  shows "store es f k = Some (SpecToBytes s)"
  using assms
proof (induction es arbitrary: f)
  case (Cons e es)
  obtain k' p' s' where e: "e = (k', p', s')" by (cases e)
  show ?case
  proof (cases "(k, p, s) = e")
    case True
    then have "k \<notin> fst ` set es" using Cons.prems(1) e by auto
    then show ?thesis using True e by (simp add: store_Cons store_other)
  next
    case False
    then have "(k, p, s) \<in> set es" using Cons.prems(2) by simp
    then show ?thesis using Cons.IH Cons.prems(1) e by (simp add: store_Cons)
  qed
qed simp

lemma assigned_entry:
  "i < length ps \<Longrightarrow> probe_spec goarch (ps ! i) = Some spec \<Longrightarrow>
    (assigned goarch ps n ! i, ps ! i, spec) \<in> set (entries goarch ps n)"
proof (induction ps arbitrary: i n)
  case (Cons p ps)
  then show ?case by (cases i) (auto split: option.split)
qed simp

lemma assigned_none:
  "i < length ps \<Longrightarrow> probe_spec goarch (ps ! i) = None \<Longrightarrow> assigned goarch ps n ! i = 0"
proof (induction ps arbitrary: i n)
  case (Cons p ps)
  then show ?case by (cases i) (auto split: option.split)
qed simp

text \<open>
  The outcome of storing the specs of \<open>ps\<close> from ID \<open>n\<close> on, given the IDs of earlier probes: on
  success every entry is stored; on failure the entries before the one whose \<open>put\<close> failed
  are, and the error names its probe. \<open>before\<close> and \<open>after\<close> are the contents of all maps.
\<close>

definition populated ::
  "string \<Rightarrow> Probe list \<Rightarrow> u32 \<Rightarrow> fd \<Rightarrow> (fd \<Rightarrow> u32 \<Rightarrow> bytes option) \<Rightarrow> (fd \<Rightarrow> u32 \<Rightarrow> bytes option)
    \<Rightarrow> u32 list \<Rightarrow> go_error + u32 list \<Rightarrow> bool" where
  "populated goarch ps n m before after ids0 res =
     (case res of
        Inr ids \<Rightarrow> ids = ids0 @ assigned goarch ps n
          \<and> after = before(m := store (entries goarch ps n) (before m))
      | Inl err \<Rightarrow> (\<exists>es k p s rest e. entries goarch ps n = es @ (k, p, s) # rest
          \<and> err = StoreSpec (Provider p) (Name p) e \<and> after = before(m := store es (before m))))"

lemma populated_Nil: "populated goarch [] n m f f ids (Inr ids)"
  by (simp add: populated_def store_def)

lemma populated_None:
  "probe_spec goarch p = None \<Longrightarrow>
    populated goarch (p # ps) n m f f' ids res = populated goarch ps n m f f' (ids @ [0]) res"
  by (simp add: populated_def split: sum.split)

lemma populated_Some:
  assumes p: "probe_spec goarch p = Some s"
    and "populated goarch ps (n + 1) m (f(m := (f m)(n \<mapsto> SpecToBytes s))) f' (ids @ [n]) res"
  shows "populated goarch (p # ps) n m f f' ids res"
proof (cases res)
  case (Inl err)
  then obtain es k q t rest e where "entries goarch ps (n + 1) = es @ (k, q, t) # rest"
    "err = StoreSpec (Provider q) (Name q) e"
    "f' = f(m := store es ((f m)(n \<mapsto> SpecToBytes s)))"
    using assms(2) by (auto simp: populated_def)
  then have "entries goarch (p # ps) n = ((n, p, s) # es) @ (k, q, t) # rest
    \<and> err = StoreSpec (Provider q) (Name q) e \<and> f' = f(m := store ((n, p, s) # es) (f m))"
    using p by (simp add: store_Cons)
  then show ?thesis unfolding populated_def Inl sum.case by blast
next
  case (Inr ids')
  then show ?thesis using assms by (simp add: populated_def store_Cons)
qed

lemma populated_fail:
  "probe_spec goarch p = Some s \<Longrightarrow>
    populated goarch (p # ps) n m f f ids (Inl (StoreSpec (Provider p) (Name p) e))"
  unfolding populated_def sum.case
  by (rule exI [of _ "[]"]) (auto simp: store_def)

text \<open>Two probes with specs never share an ID.\<close>

lemma assigned_distinct:
  assumes "length ps \<le> 2 ^ 32" "i < j" "j < length ps"
    and "probe_spec goarch (ps ! i) \<noteq> None" "probe_spec goarch (ps ! j) \<noteq> None"
  shows "assigned goarch ps n ! i \<noteq> assigned goarch ps n ! j"
  using assms
proof (induction ps arbitrary: i j n)
  case (Cons p ps)
  obtain j' where j: "j = Suc j'" using Cons.prems(2) by (cases j) auto
  show ?case
  proof (cases i)
    case 0
    then obtain spec where p: "probe_spec goarch p = Some spec" using Cons.prems(4) by auto
    obtain spec' where "probe_spec goarch (ps ! j') = Some spec'" using Cons.prems(5) j by auto
    then have "assigned goarch ps (n + 1) ! j' \<in> fst ` set (entries goarch ps (n + 1))"
      using assigned_entry [of j' ps goarch spec' "n + 1"] Cons.prems(3) j by force
    moreover have "n \<notin> fst ` set (entries goarch ps (n + 1))"
      using entries_distinct [OF Cons.prems(1), of goarch n] p by simp
    ultimately have "n \<noteq> assigned goarch ps (n + 1) ! j'" by metis
    then show ?thesis using 0 j p by simp
  next
    case (Suc i')
    then show ?thesis using Cons j by (auto split: option.split)
  qed
qed simp

subsection \<open>The spec map\<close>

locale spec_map =
  fixes put :: "fd \<Rightarrow> u32 \<Rightarrow> bytes \<Rightarrow> 'w \<Rightarrow> go_error option \<times> 'w"
    and delete :: "fd \<Rightarrow> u32 \<Rightarrow> 'w \<Rightarrow> go_error option \<times> 'w"
    and spec_at :: "'w \<Rightarrow> fd \<Rightarrow> u32 \<Rightarrow> bytes option"
  assumes put_ok: "put m k v w = (None, w') \<Longrightarrow> spec_at w' = (spec_at w)(m := (spec_at w m)(k \<mapsto> v))"
    and put_err: "put m k v w = (Some err, w') \<Longrightarrow> spec_at w' = spec_at w"
    and delete_ok: "spec_at w m k \<noteq> None \<Longrightarrow>
      \<exists>w'. delete m k w = (None, w') \<and> spec_at w' = (spec_at w)(m := (spec_at w m)(k := None))"
    and delete_err: "spec_at w m k = None \<Longrightarrow>
      \<exists>err w'. delete m k w = (Some err, w') \<and> spec_at w' = spec_at w"
begin

lemma populate_loop_spec:
  assumes "populate_loop goarch (put m) ps i specIDs n w = (res, w')"
    and "i + length ps = length specIDs" and "drop i specIDs = replicate (length ps) 0"
  shows "populated goarch ps n m (spec_at w) (spec_at w') (take i specIDs) res"
  using assms
proof (induction ps arbitrary: i specIDs n w)
  case Nil
  then show ?case by (auto simp: populated_Nil)
next
  case (Cons p ps)
  have i: "i < length specIDs" using Cons.prems(2) by simp
  then have d: "specIDs ! i = 0" "drop (Suc i) specIDs = replicate (length ps) 0"
    using Cons.prems(3) by (simp_all add: Cons_nth_drop_Suc [symmetric])
  show ?case
  proof (cases "probe_spec goarch p")
    case None
    have "populate_loop goarch (put m) (p # ps) i specIDs n w
      = populate_loop goarch (put m) ps (Suc i) specIDs n w"
      using None
      by (cases "ParseUSDTArguments goarch (Arguments p)") (simp_all add: probe_spec_def split: if_splits)
    then have "populated goarch ps n m (spec_at w) (spec_at w') (take (Suc i) specIDs) res"
      using Cons d by simp
    then show ?thesis
      using i d(1) by (simp add: populated_None None take_Suc_conv_app_nth)
  next
    case (Some spec)
    then have step: "populate_loop goarch (put m) (p # ps) i specIDs n w =
      (case put m n (SpecToBytes spec) w of
         (Some err, w) \<Rightarrow> (Inl (StoreSpec (Provider p) (Name p) err), w)
       | (None, w) \<Rightarrow> populate_loop goarch (put m) ps (Suc i) (specIDs[i := n]) (n + 1) w)"
      by (cases "ParseUSDTArguments goarch (Arguments p)")
        (simp_all add: probe_spec_def Let_def split: if_splits)
    obtain r w1 where put: "put m n (SpecToBytes spec) w = (r, w1)" by fastforce
    show ?thesis
    proof (cases r)
      case None
      then have "populated goarch ps (n + 1) m (spec_at w1) (spec_at w') (take i specIDs @ [n]) res"
        using Cons.IH [of "Suc i" "specIDs[i := n]" "n + 1" w1] Cons.prems step put d i
        by (simp add: list_update_take_drop)
      then show ?thesis
        using put_ok [OF put [unfolded None]] Some by (simp add: populated_Some)
    next
      case e: (Some err)
      then have "res = Inl (StoreSpec (Provider p) (Name p) err)" "w' = w1"
        using Cons.prems(1) step put by simp_all
      moreover have "spec_at w1 = spec_at w" using put_err put e by simp
      ultimately show ?thesis using populated_fail [OF Some] by simp
    qed
  qed
qed

lemma PopulateSpecMap_spec:
  "PopulateSpecMap goarch put m ps n w = (res, w') \<Longrightarrow>
    populated goarch ps n m (spec_at w) (spec_at w') [] res"
  using populate_loop_spec [of goarch m ps 0 "replicate (length ps) 0" n w res w']
  by (simp add: PopulateSpecMap_def)

text \<open>After success, the ID of every probe with a spec leads to the bytes of that spec.\<close>

lemma PopulateSpecMap_lookup:
  assumes "PopulateSpecMap goarch put m ps n w = (Inr ids, w')" and "length ps \<le> 2 ^ 32"
    and "i < length ps" "probe_spec goarch (ps ! i) = Some spec"
  shows "spec_at w' m (ids ! i) = Some (SpecToBytes spec)"
proof -
  have "ids = assigned goarch ps n"
    "spec_at w' = (spec_at w)(m := store (entries goarch ps n) (spec_at w m))"
    using PopulateSpecMap_spec [OF assms(1)] by (simp_all add: populated_def)
  then show ?thesis
    using store_entry [OF entries_distinct [OF assms(2)] assigned_entry [OF assms(3,4)]] by simp
qed

text \<open>Deleting the specs of a list of IDs that are all present, and ignoring zeros.\<close>

lemma delete_specs_present:
  assumes "distinct (filter (\<lambda>k. k \<noteq> 0) ids)"
    and "\<And>k. k \<in> set ids \<Longrightarrow> k \<noteq> 0 \<Longrightarrow> spec_at w m k \<noteq> None"
  shows "\<exists>w'. delete_specs (delete m) ids errs w = (errs, w')
    \<and> spec_at w' = (spec_at w)(m := (spec_at w m) |` (- (set ids - {0})))"
  using assms
proof (induction ids arbitrary: w)
  case Nil
  show ?case by (simp add: restrict_map_def)
next
  case (Cons k ids)
  show ?case
  proof (cases "k = 0")
    case True
    moreover have "set (k # ids) - {0} = set ids - {0}" using True by auto
    ultimately show ?thesis using Cons by simp
  next
    case False
    then obtain w1 where d: "delete m k w = (None, w1)"
      "spec_at w1 = (spec_at w)(m := (spec_at w m)(k := None))"
      using Cons.prems(2) delete_ok by fastforce
    have "k' \<noteq> k" if "k' \<in> set ids" "k' \<noteq> 0" for k'
      using that Cons.prems(1) False by auto
    then have "\<exists>w'. delete_specs (delete m) ids errs w1 = (errs, w')
      \<and> spec_at w' = (spec_at w1)(m := (spec_at w1 m) |` (- (set ids - {0})))"
      using Cons.prems False by (intro Cons.IH) (simp_all add: d)
    moreover have "((spec_at w m)(k := None)) |` (- (set ids - {0}))
      = (spec_at w m) |` (- (set (k # ids) - {0}))"
      using False by (auto simp: restrict_map_def)
    ultimately show ?thesis using False d by auto
  qed
qed

end

subsection \<open>Uprobes\<close>

text \<open>The options \<open>AttachUprobes\<close> gives the \<open>i\<close>-th probe.\<close>

definition probe_options :: "u64 list option \<Rightarrow> nat \<Rightarrow> Probe \<Rightarrow> UprobeOptions" where
  "probe_options cookies i p =
     \<lparr>Address = Location p, RefCtrOffset = SemaphoreOffset p,
      opt_Cookie = (case cookies of
          None \<Rightarrow> 0 | Some cs \<Rightarrow> if i < length cs then cs ! i else 0)\<rparr>"

lemma attach_loop_Cons:
  "attach_loop uprobe close exe (p # ps) progs cookies i links w =
     (case uprobe exe (Name p) (progs ! i) (probe_options cookies i p) w of
        (Inl err, w) \<Rightarrow> (Inl (AttachProbe (Name p) (Location p) err), close_all close links w)
      | (Inr l, w) \<Rightarrow> attach_loop uprobe close exe ps progs cookies (Suc i) (links @ [l]) w)"
proof -
  have "(case cookies of
      Some cs \<Rightarrow> if i < length cs then \<lparr>Address = Location p, RefCtrOffset = SemaphoreOffset p,
        opt_Cookie = 0\<rparr>\<lparr>opt_Cookie := cs ! i\<rparr>
        else \<lparr>Address = Location p, RefCtrOffset = SemaphoreOffset p, opt_Cookie = 0\<rparr>
    | None \<Rightarrow> \<lparr>Address = Location p, RefCtrOffset = SemaphoreOffset p, opt_Cookie = 0\<rparr>)
    = probe_options cookies i p"
    by (simp add: probe_options_def split: option.split)
  then show ?thesis by (simp add: Let_def)
qed

text \<open>What every call of a method keeps, attaching and unloading keep.\<close>

lemma close_all_keeps:
  "(\<And>l w. P w \<Longrightarrow> P (snd (close l w))) \<Longrightarrow> P w \<Longrightarrow> P (close_all close ls w)"
  by (induction ls arbitrary: w) simp_all

lemma AttachUprobes_keeps:
  assumes "\<And>nm prog opts w. P w \<Longrightarrow> P (snd (uprobe exe nm prog opts w))"
    and "\<And>l w. P w \<Longrightarrow> P (snd (close l w))"
  shows "P w \<Longrightarrow> P (snd (AttachUprobes uprobe close exe specMap ps progs cookies w))"
proof -
  have "P w \<Longrightarrow> P (snd (attach_loop uprobe close exe ps progs cookies i ls w))" for i ls
  proof (induction ps arbitrary: i ls w)
    case (Cons p ps)
    obtain r w1 where u: "uprobe exe (Name p) (progs ! i) (probe_options cookies i p) w = (r, w1)"
      by fastforce
    then have "P w1" using assms(1) Cons.prems by (metis snd_conv)
    then show ?case using Cons.IH u close_all_keeps [of P close, OF assms(2)]
      by (cases r) (simp_all add: attach_loop_Cons del: attach_loop.simps)
  qed simp
  then show "P w \<Longrightarrow> ?thesis"
    by (simp add: AttachUprobes_def split: prod.split sum.split) (metis snd_conv)
qed

lemma close_links_keeps:
  assumes "\<And>l w. P w \<Longrightarrow> P (snd (close l w))"
  shows "P w \<Longrightarrow> P (snd (close_links close ls errs w))"
proof (induction ls arbitrary: errs w)
  case (Cons l ls)
  then show ?case using assms [of w l] by (auto split: prod.split option.split)
qed simp

lemma delete_specs_keeps:
  assumes "\<And>k w. P w \<Longrightarrow> P (snd (delete k w))"
  shows "P w \<Longrightarrow> P (snd (delete_specs delete ids errs w))"
proof (induction ids arbitrary: errs w)
  case (Cons k ids)
  then show ?case using assms [of w k] by (auto split: prod.split option.split)
qed simp

lemma Unload_keeps:
  assumes "\<And>l w. P w \<Longrightarrow> P (snd (close l w))" "\<And>m k w. P w \<Longrightarrow> P (snd (delete m k w))" "P w"
  shows "P (snd (Unload close delete pl w))"
proof -
  obtain errs w1 where c: "close_links close (Links pl) [] w = (errs, w1)" by fastforce
  then have w1: "P w1" using close_links_keeps [of P close w "Links pl" "[]", OF assms(1,3)] by simp
  show ?thesis
  proof (cases "SpecMap pl")
    case (Some m)
    obtain errs' w2 where d: "delete_specs (delete m) (SpecIDs pl) errs w1 = (errs', w2)" by fastforce
    then have "P w2" using delete_specs_keeps [of P "delete m", OF assms(2) w1, of "SpecIDs pl" errs] by simp
    then show ?thesis using c d Some by (simp add: Unload_def)
  qed (use c w1 in \<open>simp add: Unload_def\<close>)
qed

lemma PopulateSpecMap_keeps:
  assumes "\<And>k v w. P w \<Longrightarrow> P (snd (put m k v w))"
  shows "P w \<Longrightarrow> P (snd (PopulateSpecMap goarch put m ps n w))"
proof -
  have "P w \<Longrightarrow> P (snd (populate_loop goarch (put m) ps i ids n w))" for i ids
  proof (induction ps arbitrary: i ids n w)
    case (Cons p ps)
    have "P w1" if "put m k v w = (r, w1)" for k v r w1
      using assms [of w k v] Cons.prems that by simp
    then show ?case using Cons by (auto simp: Let_def split: prod.split option.split sum.split)
  qed simp
  then show "P w \<Longrightarrow> ?thesis" by (simp add: PopulateSpecMap_def)
qed

locale uprobes =
  fixes uprobe :: "'x \<Rightarrow> string \<Rightarrow> fd \<Rightarrow> UprobeOptions \<Rightarrow> 'w \<Rightarrow> (go_error + 'l) \<times> 'w"
    and close :: "'l \<Rightarrow> 'w \<Rightarrow> go_error option \<times> 'w"
    and attached :: "'w \<Rightarrow> 'l \<Rightarrow> ('x \<times> fd \<times> UprobeOptions) option"
  assumes uprobe_ok: "uprobe exe nm prog opts w = (Inr l, w') \<Longrightarrow>
      attached w l = None \<and> attached w' = (attached w)(l \<mapsto> (exe, prog, opts))"
    and uprobe_err: "uprobe exe nm prog opts w = (Inl err, w') \<Longrightarrow> attached w' = attached w"
    and close_ok: "attached w l \<noteq> None \<Longrightarrow>
      \<exists>w'. close l w = (None, w') \<and> attached w' = (attached w)(l := None)"
begin

lemma close_links_attached:
  assumes "distinct ls" "\<And>l. l \<in> set ls \<Longrightarrow> attached w l \<noteq> None"
  shows "\<exists>w'. close_links close ls errs w = (errs, w') \<and> close_all close ls w = w'
    \<and> attached w' = attached w |` (- set ls)"
  using assms
proof (induction ls arbitrary: w)
  case (Cons l ls)
  then obtain w1 where c: "close l w = (None, w1)" "attached w1 = (attached w)(l := None)"
    using close_ok [of w l] by auto
  have "\<And>k. k \<in> set ls \<Longrightarrow> attached w1 k \<noteq> None" using Cons.prems c(2) by auto
  then obtain w2 where "close_links close ls errs w1 = (errs, w2)" "close_all close ls w1 = w2"
    "attached w2 = attached w1 |` (- set ls)"
    using Cons.IH [of w1] Cons.prems(1) by auto
  moreover have "((attached w)(l := None)) |` (- set ls) = attached w |` (- set (l # ls))"
    by (auto simp: restrict_map_def)
  ultimately show ?case using c by simp
qed (simp add: restrict_map_def)

text \<open>
  The loop, from a state where \<open>links\<close> are attached on top of \<open>base\<close>: on failure they are
  closed again; on success there is one link per probe with its own options.
\<close>

lemma attach_loop_spec:
  assumes "attach_loop uprobe close exe ps progs cookies i links w = (res, w')"
    and "distinct links" "\<And>l. l \<in> set links \<Longrightarrow> attached w l \<noteq> None"
    and "attached w |` (- set links) = base" "\<And>l. l \<in> set links \<Longrightarrow> base l = None"
  shows "case res of
      Inl err \<Rightarrow> attached w' = base
    | Inr ls \<Rightarrow> \<exists>new. ls = links @ new \<and> length new = length ps \<and> distinct ls
        \<and> attached w' |` (- set ls) = base \<and> (\<forall>l\<in>set ls. base l = None)
        \<and> (\<forall>l\<in>set links. attached w' l = attached w l)
        \<and> (\<forall>j<length ps. attached w' (new ! j)
             = Some (exe, progs ! (i + j), probe_options cookies (i + j) (ps ! j)))"
  using assms
proof (induction ps arbitrary: i links w)
  case Nil
  then show ?case by auto
next
  case (Cons p ps)
  obtain r w1 where u: "uprobe exe (Name p) (progs ! i) (probe_options cookies i p) w = (r, w1)"
    by fastforce
  show ?case
  proof (cases r)
    case (Inl err)
    then have same: "attached w1 = attached w" using uprobe_err u by blast
    moreover obtain w2 where "close_all close links w1 = w2" "attached w2 = attached w1 |` (- set links)"
      using close_links_attached [of links w1 "[]"] Cons.prems(2,3) same by auto
    ultimately show ?thesis using Cons.prems(1,4) u Inl by (auto simp: attach_loop_Cons simp del: attach_loop.simps)
  next
    case (Inr l)
    then have new: "attached w l = None" "attached w1 = (attached w)(l \<mapsto>
        (exe, progs ! i, probe_options cookies i p))"
      using uprobe_ok u by blast+
    have l: "l \<notin> set links" using Cons.prems(3) new(1) by blast
    have bl: "base l = None" using Cons.prems(4) l new(1) by (metis ComplI restrict_in)
    have b: "attached w1 |` (- set (links @ [l])) = base"
      unfolding Cons.prems(4) [symmetric] using new l by (auto simp: restrict_map_def fun_eq_iff)
    have a: "attach_loop uprobe close exe ps progs cookies (Suc i) (links @ [l]) w1 = (res, w')"
      using Cons.prems(1) u Inr by (simp add: attach_loop_Cons del: attach_loop.simps)
    have IH: "case res of
        Inl err \<Rightarrow> attached w' = base
      | Inr ls \<Rightarrow> \<exists>new. ls = (links @ [l]) @ new \<and> length new = length ps \<and> distinct ls
          \<and> attached w' |` (- set ls) = base \<and> (\<forall>l\<in>set ls. base l = None)
          \<and> (\<forall>k\<in>set (links @ [l]). attached w' k = attached w1 k)
          \<and> (\<forall>j<length ps. attached w' (new ! j)
               = Some (exe, progs ! (Suc i + j), probe_options cookies (Suc i + j) (ps ! j)))"
      by (rule Cons.IH [OF a _ _ b]) (use Cons.prems(2,3,5) l new bl in auto)
    show ?thesis
    proof (cases res)
      case (Inl err)
      then show ?thesis using IH by simp
    next
      case (Inr ls)
      then obtain ks where ks: "ls = (links @ [l]) @ ks" "length ks = length ps" "distinct ls"
        "attached w' |` (- set ls) = base" "\<forall>l\<in>set ls. base l = None"
        "\<forall>k\<in>set (links @ [l]). attached w' k = attached w1 k"
        "\<forall>j<length ps. attached w' (ks ! j)
           = Some (exe, progs ! (Suc i + j), probe_options cookies (Suc i + j) (ps ! j))"
        using IH by auto
      have "attached w' ((l # ks) ! j) = Some (exe, progs ! (i + j), probe_options cookies (i + j) ((p # ps) ! j))"
        if "j < length (p # ps)" for j
        using that ks new by (cases j) auto
      moreover have "attached w' k = attached w k" if "k \<in> set links" for k
        using that ks(6) new(2) l by auto
      ultimately show ?thesis using ks Inr by (auto intro!: exI [of _ "l # ks"])
    qed
  qed
qed

lemma AttachUprobes_err:
  assumes "AttachUprobes uprobe close exe specMap ps progs cookies w = (Inl err, w')"
  shows "attached w' = attached w"
proof -
  obtain r w1 where a: "attach_loop uprobe close exe ps progs cookies 0 [] w = (r, w1)" by fastforce
  have "case r of Inl err \<Rightarrow> attached w1 = attached w | Inr ls \<Rightarrow> True"
    using attach_loop_spec [OF a, of "attached w"] by (simp add: restrict_map_def split: sum.splits)
  then show ?thesis using assms a by (auto simp: AttachUprobes_def split: if_splits sum.splits)
qed

lemma AttachUprobes_ok:
  assumes "AttachUprobes uprobe close exe specMap ps progs cookies w = (Inr pl, w')"
  shows "length progs = length ps \<and> length (Links pl) = length ps \<and> distinct (Links pl)
    \<and> SpecIDs pl = [] \<and> SpecMap pl = specMap
    \<and> attached w' |` (- set (Links pl)) = attached w \<and> (\<forall>l\<in>set (Links pl). attached w l = None)
    \<and> (\<forall>i<length ps. attached w' (Links pl ! i) = Some (exe, progs ! i, probe_options cookies i (ps ! i)))"
proof -
  obtain r w1 where a: "attach_loop uprobe close exe ps progs cookies 0 [] w = (r, w1)" by fastforce
  then show ?thesis
    using assms attach_loop_spec [OF a, of "attached w"]
    by (auto simp: AttachUprobes_def restrict_map_def split: if_splits sum.splits)
qed

end

subsection \<open>Both together\<close>

locale kernel = spec_map put delete spec_at + uprobes uprobe close attached
  for put :: "fd \<Rightarrow> u32 \<Rightarrow> bytes \<Rightarrow> 'w \<Rightarrow> go_error option \<times> 'w"
    and delete :: "fd \<Rightarrow> u32 \<Rightarrow> 'w \<Rightarrow> go_error option \<times> 'w"
    and spec_at :: "'w \<Rightarrow> fd \<Rightarrow> u32 \<Rightarrow> bytes option"
    and uprobe :: "'x \<Rightarrow> string \<Rightarrow> fd \<Rightarrow> UprobeOptions \<Rightarrow> 'w \<Rightarrow> (go_error + 'l) \<times> 'w"
    and close :: "'l \<Rightarrow> 'w \<Rightarrow> go_error option \<times> 'w"
    and attached :: "'w \<Rightarrow> 'l \<Rightarrow> ('x \<times> fd \<times> UprobeOptions) option" +
  assumes put_frame: "attached (snd (put m k v w)) = attached w"
    and delete_frame: "attached (snd (delete m k w)) = attached w"
    and uprobe_frame: "spec_at (snd (uprobe exe nm prog opts w)) = spec_at w"
    and close_frame: "spec_at (snd (close l w)) = spec_at w"
begin

lemma close_links_frame: "spec_at (snd (close_links close ls errs w)) = spec_at w"
  by (rule close_links_keeps [of "\<lambda>w'. spec_at w' = spec_at w"]) (simp_all add: close_frame)

lemma delete_specs_frame: "attached (snd (delete_specs (delete m) ids errs w)) = attached w"
  by (rule delete_specs_keeps [of "\<lambda>w'. attached w' = attached w"]) (simp_all add: delete_frame)

lemma populate_frame: "attached (snd (PopulateSpecMap goarch put m ps n w)) = attached w"
  by (rule PopulateSpecMap_keeps [of "\<lambda>w'. attached w' = attached w"]) (simp_all add: put_frame)

lemma attach_frame: "spec_at (snd (AttachUprobes uprobe close exe specMap ps progs cookies w)) = spec_at w"
  by (rule AttachUprobes_keeps [of "\<lambda>w'. spec_at w' = spec_at w"]) (simp_all add: uprobe_frame close_frame)

text \<open>Unloading links that are attached and specs that are present leaves no trace of either.\<close>

lemma Unload_present:
  assumes "distinct (Links pl)" "\<And>l. l \<in> set (Links pl) \<Longrightarrow> attached w l \<noteq> None"
    and "distinct (filter (\<lambda>k. k \<noteq> 0) (SpecIDs pl))"
    and "\<And>m k. SpecMap pl = Some m \<Longrightarrow> k \<in> set (SpecIDs pl) \<Longrightarrow> k \<noteq> 0 \<Longrightarrow> spec_at w m k \<noteq> None"
  shows "\<exists>w'. Unload close delete pl w = (None, w')
    \<and> attached w' = attached w |` (- set (Links pl))
    \<and> spec_at w' = (case SpecMap pl of None \<Rightarrow> spec_at w
        | Some m \<Rightarrow> (spec_at w)(m := spec_at w m |` (- (set (SpecIDs pl) - {0}))))"
proof -
  obtain w1 where c: "close_links close (Links pl) [] w = ([], w1)"
    "attached w1 = attached w |` (- set (Links pl))"
    using close_links_attached [OF assms(1,2), of "[]"] by blast
  have s: "spec_at w1 = spec_at w" using close_links_frame [of "Links pl" "[]" w] c(1) by simp
  show ?thesis
  proof (cases "SpecMap pl")
    case None
    then show ?thesis using c s by (simp add: Unload_def errors_Join_def)
  next
    case (Some m)
    obtain w2 where d: "delete_specs (delete m) (SpecIDs pl) [] w1 = ([], w2)"
      "spec_at w2 = (spec_at w1)(m := spec_at w1 m |` (- (set (SpecIDs pl) - {0})))"
      using delete_specs_present [of "SpecIDs pl" w1 m "[]"] assms(3,4) s Some by auto
    have "attached w2 = attached w1" using delete_specs_frame [of m "SpecIDs pl" "[]" w1] d(1) by simp
    then show ?thesis using c s d Some by (simp add: Unload_def errors_Join_def)
  qed
qed

text \<open>Closing what \<open>AttachUprobes\<close> returned detaches every probe and deletes no spec.\<close>

lemma attach_close:
  assumes "AttachUprobes uprobe close exe specMap ps progs cookies w = (Inr pl, w1)"
  shows "\<exists>w'. Close close delete pl w1 = (None, w') \<and> attached w' = attached w \<and> spec_at w' = spec_at w"
proof -
  note ok = AttachUprobes_ok [OF assms]
  have "attached w1 l \<noteq> None" if "l \<in> set (Links pl)" for l
    using that ok by (metis in_set_conv_nth option.distinct(1))
  then obtain w' where "Unload close delete pl w1 = (None, w')"
    "attached w' = attached w1 |` (- set (Links pl))"
    "spec_at w' = (case SpecMap pl of None \<Rightarrow> spec_at w1
        | Some m \<Rightarrow> (spec_at w1)(m := spec_at w1 m |` (- (set (SpecIDs pl) - {0}))))"
    using Unload_present [of pl w1] ok by auto
  moreover have "spec_at w1 = spec_at w"
    using attach_frame [of exe specMap ps progs cookies w] assms by simp
  ultimately show ?thesis using ok
    by (auto simp: Close_def restrict_map_def fun_eq_iff split: option.splits)
qed

end

end
