(* ===== verification/Kernel.thy ===== *)
theory Kernel
  imports Attach_Spec "HOL-Library.AList"
begin

section \<open>The kernel objects: the map of \<open>usdt.ebpf.c\<close> and uprobe links\<close>

text \<open>
  A state of the kernel objects the package drives: for each map descriptor its entries, and the
  attached links. The map is declared in \<open>ebpf/usdt.ebpf.c\<close>: a hash map from \<open>u32\<close> to
  \<open>struct bpf_usdt_spec\<close>, which as documented for \<open>BPF_MAP_TYPE_HASH\<close> replaces a present key,
  refuses a new one when full, and reports a missing key on deletion. Its size is the 256 that
  file defines unless the build has defined another.

  An executable is the size of a file without a symbol table. \<open>exe_Uprobe\<close> is the \<open>Uprobe\<close> method
  of the eBPF library for it: with an address of 0 it looks the symbol up, which fails; otherwise
  the kernel takes any offset within the file. Links get fresh numbers. The interpretation \<open>krn\<close>
  proves the contract \<open>kernel\<close> of \<open>Attach_Spec\<close> for them, and the lemmas use no more than that
  contract and the bound on the map.
\<close>

definition BPF_USDT_MAX_SPEC_CNT :: nat where
  "BPF_USDT_MAX_SPEC_CNT = 256"

definition spec_value_size :: nat where
  "spec_value_size = 304"

record kstate =
  k_maps :: "fd \<Rightarrow> (u32 \<times> bytes) list"
  k_links :: "(nat \<times> (u64 \<times> fd \<times> UprobeOptions)) list"

definition map_lookup :: "kstate \<Rightarrow> fd \<Rightarrow> u32 \<Rightarrow> bytes option" where
  "map_lookup w m k = map_of (k_maps w m) k"

definition map_Put :: "fd \<Rightarrow> u32 \<Rightarrow> bytes \<Rightarrow> kstate \<Rightarrow> go_error option \<times> kstate" where
  "map_Put m k v w =
     (if length v \<noteq> spec_value_size then (Some (ExternalError ''invalid value size''), w)
      else if map_lookup w m k = None \<and> BPF_USDT_MAX_SPEC_CNT \<le> length (k_maps w m) then
        (Some (ExternalError ''map full''), w)
      else (None, w\<lparr>k_maps := (k_maps w)(m := AList.update k v (k_maps w m))\<rparr>))"

definition map_Delete :: "fd \<Rightarrow> u32 \<Rightarrow> kstate \<Rightarrow> go_error option \<times> kstate" where
  "map_Delete m k w =
     (if map_lookup w m k = None then (Some (ExternalError ''key does not exist''), w)
      else (None, w\<lparr>k_maps := (k_maps w)(m := AList.delete k (k_maps w m))\<rparr>))"

definition link_at :: "kstate \<Rightarrow> nat \<Rightarrow> (u64 \<times> fd \<times> UprobeOptions) option" where
  "link_at w l = map_of (k_links w) l"

definition fresh_link :: "kstate \<Rightarrow> nat" where
  "fresh_link w = Suc (fold max (map fst (k_links w)) 0)"

definition exe_Uprobe ::
  "u64 \<Rightarrow> string \<Rightarrow> fd \<Rightarrow> UprobeOptions \<Rightarrow> kstate \<Rightarrow> (go_error + nat) \<times> kstate" where
  "exe_Uprobe exe nm prog opts w =
     (if Address opts = 0 then (Inl (ExternalError (''symbol '' @ nm @ '': not found'')), w)
      else if Address opts > exe then (Inl (ExternalError ''invalid argument''), w)
      else (let l = fresh_link w
            in (Inr l, w\<lparr>k_links := (l, (exe, prog, opts)) # k_links w\<rparr>)))"

definition link_Close :: "nat \<Rightarrow> kstate \<Rightarrow> go_error option \<times> kstate" where
  "link_Close l w =
     (if link_at w l = None then (Some (ExternalError ''file already closed''), w)
      else (None, w\<lparr>k_links := AList.delete l (k_links w)\<rparr>))"

lemma fresh_link_new: "link_at w (fresh_link w) = None"
proof -
  have ge: "m \<le> fold max ks m \<and> (\<forall>k\<in>set ks. k \<le> fold max ks m)" for ks and m :: nat
    by (induction ks arbitrary: m) (fastforce simp: le_max_iff_disj)+
  then have "fresh_link w \<notin> fst ` set (k_links w)"
    using ge [of 0 "map fst (k_links w)"] by (fastforce simp: fresh_link_def)
  then show ?thesis by (simp add: link_at_def map_of_eq_None_iff)
qed

lemma map_lookup_update:
  "map_lookup (w\<lparr>k_maps := (k_maps w)(m := AList.update k v (k_maps w m))\<rparr>)
    = (map_lookup w)(m := (map_lookup w m)(k \<mapsto> v))"
  by (rule ext)+ (simp add: map_lookup_def update_conv')

lemma map_lookup_delete:
  "map_lookup (w\<lparr>k_maps := (k_maps w)(m := AList.delete k (k_maps w m))\<rparr>)
    = (map_lookup w)(m := (map_lookup w m)(k := None))"
  by (rule ext)+ (simp add: map_lookup_def delete_conv')

interpretation krn: kernel map_Put map_Delete map_lookup exe_Uprobe link_Close link_at
proof
  fix m k v l nm and w w' :: kstate and err prog opts exe
  show "map_Put m k v w = (None, w') \<Longrightarrow> map_lookup w' = (map_lookup w)(m := (map_lookup w m)(k \<mapsto> v))"
    by (auto simp: map_Put_def map_lookup_update split: if_splits)
  show "map_Put m k v w = (Some err, w') \<Longrightarrow> map_lookup w' = map_lookup w"
    by (auto simp: map_Put_def split: if_splits)
  show "map_lookup w m k \<noteq> None \<Longrightarrow>
    \<exists>w'. map_Delete m k w = (None, w') \<and> map_lookup w' = (map_lookup w)(m := (map_lookup w m)(k := None))"
    by (simp add: map_Delete_def map_lookup_delete)
  show "map_lookup w m k = None \<Longrightarrow> \<exists>err w'. map_Delete m k w = (Some err, w') \<and> map_lookup w' = map_lookup w"
    by (simp add: map_Delete_def)
  show "exe_Uprobe exe nm prog opts w = (Inr l, w') \<Longrightarrow>
    link_at w l = None \<and> link_at w' = (link_at w)(l \<mapsto> (exe, prog, opts))"
    using fresh_link_new [of w]
    by (auto simp: exe_Uprobe_def Let_def link_at_def fun_eq_iff split: if_splits)
  show "exe_Uprobe exe nm prog opts w = (Inl err, w') \<Longrightarrow> link_at w' = link_at w"
    by (auto simp: exe_Uprobe_def Let_def split: if_splits)
  show "link_at w l \<noteq> None \<Longrightarrow>
    \<exists>w'. link_Close l w = (None, w') \<and> link_at w' = (link_at w)(l := None)"
    by (auto simp: link_Close_def link_at_def fun_eq_iff delete_conv')
  show "link_at (snd (map_Put m k v w)) = link_at w" "link_at (snd (map_Delete m k w)) = link_at w"
    by (simp_all add: map_Put_def map_Delete_def link_at_def fun_eq_iff)
  show "map_lookup (snd (exe_Uprobe exe nm prog opts w)) = map_lookup w"
    "map_lookup (snd (link_Close l w)) = map_lookup w"
    by (simp_all add: exe_Uprobe_def link_Close_def map_lookup_def fun_eq_iff Let_def)
qed

text \<open>The map never holds more than its declared number of entries.\<close>

definition bounded :: "kstate \<Rightarrow> bool" where
  "bounded w \<longleftrightarrow> (\<forall>m. distinct (map fst (k_maps w m)) \<and> length (k_maps w m) \<le> BPF_USDT_MAX_SPEC_CNT)"

lemma update_length:
  "length (AList.update k v al) = (if k \<in> fst ` set al then length al else Suc (length al))"
  by (induction al) auto

lemma map_Put_bounded: "bounded w \<Longrightarrow> bounded (snd (map_Put m k v w))"
  by (auto simp: bounded_def map_Put_def map_lookup_def map_of_eq_None_iff update_length
      intro: distinct_update)

end
