(* ===== verification/Bpf_Args.thy ===== *)
theory Bpf_Args
  imports Registers Spec_Bytes
begin

section \<open>Fetching arguments in BPF: \<open>ebpf/usdt_args.h\<close>\<close>

text \<open>
  The C side that reads what the Go side wrote: \<open>struct pt_regs\<close> of \<open>ebpf/kernel.h\<close>, the
  switch from register IDs to its fields, and \<open>bpf_usdt_arg\<close>. A context holds the saved
  registers as bytes, the attach cookie and the user memory. The BPF helpers follow their
  documentation: a read that faults gives a negative error. A shift whose count is not in 0..63
  is undefined in C; then the result is \<^term>\<open>None\<close>. Both architectures are little-endian, so
  the big-endian branch of the source is not compiled.
\<close>

subsection \<open>Registers in \<open>pt_regs\<close>\<close>

text \<open>The fields of the struct with their sizes; each is aligned without padding.\<close>

definition x86_pt_regs :: "(string \<times> nat) list" where
  "x86_pt_regs = [
      (''r15'', 8), (''r14'', 8), (''r13'', 8), (''r12'', 8), (''bp'', 8), (''bx'', 8),
      (''r11'', 8), (''r10'', 8), (''r9'', 8), (''r8'', 8), (''ax'', 8), (''cx'', 8),
      (''dx'', 8), (''si'', 8), (''di'', 8), (''orig_ax'', 8), (''ip'', 8), (''cs'', 8),
      (''flags'', 8), (''sp'', 8), (''ss'', 8)]"

definition arm64_pt_regs :: "(string \<times> nat) list" where
  "arm64_pt_regs = [
      (''regs[0]'', 8), (''regs[1]'', 8), (''regs[2]'', 8), (''regs[3]'', 8), (''regs[4]'', 8), (''regs[5]'', 8),
      (''regs[6]'', 8), (''regs[7]'', 8), (''regs[8]'', 8), (''regs[9]'', 8), (''regs[10]'', 8), (''regs[11]'', 8),
      (''regs[12]'', 8), (''regs[13]'', 8), (''regs[14]'', 8), (''regs[15]'', 8), (''regs[16]'', 8), (''regs[17]'', 8),
      (''regs[18]'', 8), (''regs[19]'', 8), (''regs[20]'', 8), (''regs[21]'', 8), (''regs[22]'', 8), (''regs[23]'', 8),
      (''regs[24]'', 8), (''regs[25]'', 8), (''regs[26]'', 8), (''regs[27]'', 8), (''regs[28]'', 8), (''regs[29]'', 8),
      (''regs[30]'', 8), (''sp'', 8), (''pc'', 8), (''pstate'', 8), (''orig_x0'', 8), (''syscallno'', 4),
      (''unused2'', 4)]"

definition pt_regs :: "string \<Rightarrow> (string \<times> nat) list" where
  "pt_regs arch = (if arch = ''amd64'' then x86_pt_regs else if arch = ''arm64'' then arm64_pt_regs else [])"

definition sizeof_fields :: "(string \<times> nat) list \<Rightarrow> nat" where
  "sizeof_fields fs = sum_list (map snd fs)"

fun offsetof :: "(string \<times> nat) list \<Rightarrow> string \<Rightarrow> nat" where
  "offsetof [] f = 0"
| "offsetof ((g, n) # fs) f = (if f = g then 0 else n + offsetof fs f)"

definition x86_reg_cases :: "(u8 \<times> string) list" where
  "x86_reg_cases = [
      (RegRax, ''ax''), (RegRbx, ''bx''), (RegRcx, ''cx''), (RegRdx, ''dx''),
      (RegRsi, ''si''), (RegRdi, ''di''), (RegRbp, ''bp''), (RegRsp, ''sp''),
      (RegR8, ''r8''), (RegR9, ''r9''), (RegR10, ''r10''), (RegR11, ''r11''),
      (RegR12, ''r12''), (RegR13, ''r13''), (RegR14, ''r14''), (RegR15, ''r15''),
      (RegRip, ''ip'')]"

definition arm64_reg_cases :: "(u8 \<times> string) list" where
  "arm64_reg_cases = [
      (RegX0, ''regs[0]''), (RegX1, ''regs[1]''), (RegX2, ''regs[2]''), (RegX3, ''regs[3]''),
      (RegX4, ''regs[4]''), (RegX5, ''regs[5]''), (RegX6, ''regs[6]''), (RegX7, ''regs[7]''),
      (RegX8, ''regs[8]''), (RegX9, ''regs[9]''), (RegX10, ''regs[10]''), (RegX11, ''regs[11]''),
      (RegX12, ''regs[12]''), (RegX13, ''regs[13]''), (RegX14, ''regs[14]''), (RegX15, ''regs[15]''),
      (RegX16, ''regs[16]''), (RegX17, ''regs[17]''), (RegX18, ''regs[18]''), (RegX19, ''regs[19]''),
      (RegX20, ''regs[20]''), (RegX21, ''regs[21]''), (RegX22, ''regs[22]''), (RegX23, ''regs[23]''),
      (RegX24, ''regs[24]''), (RegX25, ''regs[25]''), (RegX26, ''regs[26]''), (RegX27, ''regs[27]''),
      (RegX28, ''regs[28]''), (RegX29, ''regs[29]''), (RegX30, ''regs[30]''), (RegSP, ''sp''),
      (RegPC, ''pc'')]"

definition reg_cases :: "string \<Rightarrow> (u8 \<times> string) list" where
  "reg_cases arch =
     (if arch = ''amd64'' then x86_reg_cases else if arch = ''arm64'' then arm64_reg_cases else [])"

definition bpf_usdt_get_reg_off :: "string \<Rightarrow> u8 \<Rightarrow> int" where
  "bpf_usdt_get_reg_off arch reg_id =
     (case map_of (reg_cases arch) reg_id of
        Some f \<Rightarrow> int (offsetof (pt_regs arch) f)
      | None \<Rightarrow> -1)"

subsection \<open>The context and the helpers\<close>

record bpf_ctx =
  ctx_regs :: bytes
  ctx_cookie :: u64
  ctx_user :: "u64 \<Rightarrow> u8 option"

definition EFAULT :: int where
  "EFAULT = -14"

definition bpf_probe_read_kernel :: "bytes \<Rightarrow> int \<Rightarrow> int + u64" where
  "bpf_probe_read_kernel mem off =
     (if 0 \<le> off \<and> off + 8 \<le> int (length mem) then Inr (bytes_to_word (take 8 (drop (nat off) mem)))
      else Inl EFAULT)"

definition bpf_probe_read_user :: "(u64 \<Rightarrow> u8 option) \<Rightarrow> u64 \<Rightarrow> int + u64" where
  "bpf_probe_read_user mem addr =
     (let cells = map (\<lambda>i. mem (addr + of_nat i)) [0..<8]
      in if None \<in> set cells then Inl EFAULT else Inr (bytes_to_word (map the cells)))"

definition bpf_usdt_get_reg_val :: "string \<Rightarrow> bpf_ctx \<Rightarrow> u8 \<Rightarrow> int + u64" where
  "bpf_usdt_get_reg_val arch ctx reg_id =
     (let reg_off = bpf_usdt_get_reg_off arch reg_id
      in if reg_off < 0 then Inl (-1) else bpf_probe_read_kernel (ctx_regs ctx) reg_off)"

definition bpf_usdt_spec_id :: "bpf_ctx \<Rightarrow> s32" where
  "bpf_usdt_spec_id ctx = (let cookie = ctx_cookie ctx in ucast (drop_bit 32 cookie))"

definition bpf_usdt_cookie :: "bpf_ctx \<Rightarrow> u32" where
  "bpf_usdt_cookie ctx = (let cookie = ctx_cookie ctx in ucast (cookie AND 0xFFFFFFFF))"

subsection \<open>\<open>bpf_usdt_arg\<close>\<close>

definition arg_raw :: "string \<Rightarrow> bpf_ctx \<Rightarrow> ArgSpec \<Rightarrow> int + u64" where
  "arg_raw arch ctx arg_spec =
     (let arg_type = Arg_type arg_spec; val_off = Val_off arg_spec; reg_id = Reg_id arg_spec
      in if arg_type = ArgConst then Inr val_off
         else if arg_type = ArgReg then bpf_usdt_get_reg_val arch ctx reg_id
         else if arg_type = ArgRegDeref then
           (case bpf_usdt_get_reg_val arch ctx reg_id of
              Inl err \<Rightarrow> Inl err
            | Inr val \<Rightarrow> bpf_probe_read_user (ctx_user ctx) (val + val_off))
         else Inl (-1))"

definition cast_arg :: "s8 \<Rightarrow> bool \<Rightarrow> u64 \<Rightarrow> u64 option" where
  "cast_arg arg_bitshift arg_signed val =
     (let n = sint arg_bitshift
      in if 0 \<le> n \<and> n < 64 then
           (let val = push_bit (nat n) val
            in Some (if arg_signed then signed_drop_bit (nat n) val else drop_bit (nat n) val))
         else None)"

text \<open>
  The return value and \<open>*res\<close>; \<open>specs\<close> is the map \<open>__bpf_usdt_specs\<close>. The comparison with
  \<open>arg_cnt\<close> sign-extends the \<open>s16\<close> to 64 bits.
\<close>

definition bpf_usdt_arg ::
  "string \<Rightarrow> (u32 \<Rightarrow> bytes option) \<Rightarrow> bpf_ctx \<Rightarrow> u64 \<Rightarrow> (int \<times> s64) option" where
  "bpf_usdt_arg arch specs ctx arg_num =
     (let spec_id = bpf_usdt_spec_id ctx
      in if sint spec_id < 0 then Some (-1, 0)
         else case specs spec_id of
           None \<Rightarrow> Some (-1, 0)
         | Some mem \<Rightarrow>
             (let spec = c_spec mem
              in if 12 \<le> arg_num \<or> scast (Arg_cnt spec) \<le> arg_num then Some (-1, 0)
                 else
                   (let arg_spec = Args spec ! unat arg_num
                    in case arg_raw arch ctx arg_spec of
                         Inl err \<Rightarrow> Some (err, 0)
                       | Inr val \<Rightarrow>
                           map_option (\<lambda>v. (0, v))
                             (cast_arg (Arg_bitshift arg_spec) (Arg_signed arg_spec) val))))"

text \<open>The last read of the source when the register holds the address: little-endian bytes.\<close>

subsection \<open>The bridge from names to saved registers\<close>

text \<open>
  A register file: what the Go side's lookup accepts, the C side's offset finds. \<open>width\<close> is the
  size of the saved registers.
\<close>

locale register_file =
  fixes lookup :: "string \<Rightarrow> u8 option"
    and reg_off :: "u8 \<Rightarrow> int"
    and width :: nat
  assumes covered: "lookup n = Some r \<Longrightarrow> 0 \<le> reg_off r \<and> reg_off r + 8 \<le> int width"
    and aligned: "lookup n = Some r \<Longrightarrow> 8 dvd reg_off r"
    and separate: "lookup n = Some r \<Longrightarrow> lookup n' = Some r' \<Longrightarrow> reg_off r = reg_off r' \<Longrightarrow> r = r'"
begin

lemma read_ok:
  assumes "lookup n = Some r" "width \<le> length regs"
  shows "bpf_probe_read_kernel regs (reg_off r) = Inr (bytes_to_word (take 8 (drop (nat (reg_off r)) regs)))"
  using covered [OF assms(1)] assms(2) by (simp add: bpf_probe_read_kernel_def)

lemma apart:
  "lookup n = Some r \<Longrightarrow> lookup n' = Some r' \<Longrightarrow> r \<noteq> r' \<Longrightarrow> 8 \<le> \<bar>reg_off r - reg_off r'\<bar>"
  using aligned [of n r] aligned [of n' r'] separate [of n r n' r'] by (fastforce elim!: dvdE)

end

lemmas switch_defs = bpf_usdt_get_reg_off_def reg_cases_def pt_regs_def
  x86_reg_cases_def x86_pt_regs_def arm64_reg_cases_def arm64_pt_regs_def x86_reg_defs arm_reg_defs

text \<open>The slots, of 8 bytes each, that the IDs 1 to 17 and 32 to 64 select.\<close>

definition x86_slot :: "nat list" where
  "x86_slot = [10, 5, 11, 12, 13, 14, 4, 19, 9, 8, 7, 6, 3, 2, 1, 0, 16]"

lemma x86_offsets:
  "map (\<lambda>i. bpf_usdt_get_reg_off ''amd64'' (of_nat (Suc i))) [0..<17] = map (\<lambda>i. 8 * int (x86_slot ! i)) [0..<17]"
  by (simp add: switch_defs x86_slot_def upt_rec)

lemma arm64_offsets:
  "map (\<lambda>i. bpf_usdt_get_reg_off ''arm64'' (of_nat (i + 32))) [0..<33] = map (\<lambda>i. 8 * int i) [0..<33]"
  by (simp add: switch_defs upt_rec)

lemma x86_reg_off: "1 \<le> r \<Longrightarrow> r \<le> 17 \<Longrightarrow> bpf_usdt_get_reg_off ''amd64'' r = 8 * int (x86_slot ! (unat r - 1))"
proof -
  assume r: "1 \<le> r" "r \<le> 17"
  then have "1 \<le> unat r" "unat r \<le> 17" by (simp_all add: word_le_nat_alt)
  moreover from this have "unat r - 1 < 17" by simp
  ultimately show ?thesis using arg_cong [OF x86_offsets, of "\<lambda>xs. xs ! (unat r - 1)"] by simp
qed

lemma arm64_reg_off: "32 \<le> r \<Longrightarrow> r \<le> 64 \<Longrightarrow> bpf_usdt_get_reg_off ''arm64'' r = 8 * int (unat r - 32)"
proof -
  assume r: "32 \<le> r" "r \<le> 64"
  then have "32 \<le> unat r" "unat r \<le> 64" by (simp_all add: word_le_nat_alt)
  moreover from this have "unat r - 32 < 33" by simp
  ultimately show ?thesis using arg_cong [OF arm64_offsets, of "\<lambda>xs. xs ! (unat r - 32)"] by simp
qed

lemma x86_slots: "distinct x86_slot" "list_all (\<lambda>k. k < 21) x86_slot" "length x86_slot = 17"
  by (simp_all add: x86_slot_def)

lemma sizeof_pt_regs: "sizeof_fields (pt_regs ''amd64'') = 168" "sizeof_fields (pt_regs ''arm64'') = 288"
  by (simp_all add: sizeof_fields_def pt_regs_def x86_pt_regs_def arm64_pt_regs_def)

interpretation amd64: register_file "lookupRegister ''amd64''" "bpf_usdt_get_reg_off ''amd64''"
  "sizeof_fields (pt_regs ''amd64'')"
proof
  fix n n' r r'
  assume n: "lookupRegister ''amd64'' n = Some r"
  from lookup_amd64_range [OF n] have r: "1 \<le> r" "r \<le> 17" by simp_all
  then have i: "unat r - 1 < 17" "1 \<le> unat r" by (auto simp: word_le_nat_alt)
  then have "x86_slot ! (unat r - 1) < 21" using x86_slots(2,3) by (simp add: list_all_length)
  then show "0 \<le> bpf_usdt_get_reg_off ''amd64'' r
    \<and> bpf_usdt_get_reg_off ''amd64'' r + 8 \<le> int (sizeof_fields (pt_regs ''amd64''))"
    and "8 dvd bpf_usdt_get_reg_off ''amd64'' r"
    by (simp_all add: x86_reg_off [OF r] sizeof_pt_regs)
  assume n': "lookupRegister ''amd64'' n' = Some r'"
    and e: "bpf_usdt_get_reg_off ''amd64'' r = bpf_usdt_get_reg_off ''amd64'' r'"
  from lookup_amd64_range [OF n'] have r': "1 \<le> r'" "r' \<le> 17" by simp_all
  then have i': "unat r' - 1 < 17" "1 \<le> unat r'" by (auto simp: word_le_nat_alt)
  have "x86_slot ! (unat r - 1) = x86_slot ! (unat r' - 1)"
    using e by (simp add: x86_reg_off [OF r] x86_reg_off [OF r'])
  then have "unat r - 1 = unat r' - 1" using i i' x86_slots(1,3) by (simp add: nth_eq_iff_index_eq)
  then show "r = r'" using i(2) i'(2) by (simp add: word_unat_eq_iff)
qed

interpretation arm64: register_file "lookupRegister ''arm64''" "bpf_usdt_get_reg_off ''arm64''"
  "sizeof_fields (pt_regs ''arm64'')"
proof
  fix n n' r r'
  assume n: "lookupRegister ''arm64'' n = Some r"
  from lookup_arm64_range [OF n] have r: "32 \<le> r" "r \<le> 64" by simp_all
  then have i: "unat r \<le> 64" "32 \<le> unat r" by (simp_all add: word_le_nat_alt)
  then have k: "unat r - 32 \<le> 32" by simp
  then show "0 \<le> bpf_usdt_get_reg_off ''arm64'' r
    \<and> bpf_usdt_get_reg_off ''arm64'' r + 8 \<le> int (sizeof_fields (pt_regs ''arm64''))"
    and "8 dvd bpf_usdt_get_reg_off ''arm64'' r"
    using k by (simp_all only: arm64_reg_off [OF r] sizeof_pt_regs) (linarith, simp)
  assume n': "lookupRegister ''arm64'' n' = Some r'"
    and e: "bpf_usdt_get_reg_off ''arm64'' r = bpf_usdt_get_reg_off ''arm64'' r'"
  from lookup_arm64_range [OF n'] have r': "32 \<le> r'" "r' \<le> 64" by simp_all
  then have i': "unat r' \<le> 64" "32 \<le> unat r'" by (simp_all add: word_le_nat_alt)
  have "unat r - 32 = unat r' - 32"
    using e by (simp add: arm64_reg_off [OF r] arm64_reg_off [OF r'])
  then show "r = r'" using i(2) i'(2) by (simp add: word_unat_eq_iff)
qed

subsection \<open>Values\<close>

text \<open>What an argument of \<open>sz\<close> bytes, negative for signed, is worth when \<open>val\<close> was read.\<close>

definition resize :: "int \<Rightarrow> u64 \<Rightarrow> s64" where
  "resize sz val =
     (if sz < 0 then signed_take_bit (8 * nat (- sz) - 1) val else take_bit (8 * nat sz) val)"

definition arg_size :: "int \<Rightarrow> bool" where
  "arg_size sz \<longleftrightarrow> \<bar>sz\<bar> \<in> {1, 2, 4, 8}"

lemma shift_unsigned: "0 < n \<Longrightarrow> n \<le> 64 \<Longrightarrow> drop_bit (64 - n) (push_bit (64 - n) v) = take_bit n (v :: u64)"
  by (rule bit_word_eqI) (auto simp: bit_simps)

lemma shift_signed:
  assumes "0 < n" "n \<le> 64"
  shows "signed_drop_bit (64 - n) (push_bit (64 - n) v) = signed_take_bit (n - 1) (v :: u64)"
proof (rule bit_word_eqI)
  fix m assume m: "m < LENGTH(64)"
  have "bit (push_bit (64 - n) v) (64 - n + m) = bit v m" if "64 - n + m < 64"
    using that by (simp add: bit_simps)
  moreover have "bit (push_bit (64 - n) v) 63 = bit v (n - 1)"
    using assms by (auto simp: bit_simps)
  ultimately show "bit (signed_drop_bit (64 - n) (push_bit (64 - n) v)) m = bit (signed_take_bit (n - 1) v) m"
    using assms m
    by (simp only: bit_signed_drop_bit_iff bit_signed_take_bit_iff)
      (cases "m < n - 1"; cases "m = n - 1"; auto simp: min_def)
qed

lemma cast_arg_resize:
  assumes "arg_size sz"
  shows "cast_arg (word_of_int (64 - 8 * \<bar>sz\<bar>)) (sz < 0) val = Some (resize sz val)"
proof -
  define n where "n = 8 * nat \<bar>sz\<bar>"
  have n: "n \<in> {8, 16, 32, 64}" "8 * \<bar>sz\<bar> = int n" using assms by (auto simp: arg_size_def n_def)
  then have s: "sint (word_of_int (64 - 8 * \<bar>sz\<bar>) :: s8) = int (64 - n)" by auto
  have r: "resize sz val = (if sz < 0 then signed_take_bit (n - 1) val else take_bit n val)"
    by (simp add: resize_def n_def)
  have "0 < n" "n \<le> 64" using n(1) by auto
  moreover from this have "nat (int (64 - n)) = 64 - n" "0 \<le> int (64 - n)" "int (64 - n) < 64" by simp_all
  ultimately show ?thesis
    unfolding cast_arg_def s r Let_def by (simp only: shift_unsigned shift_signed if_True simp_thms)
qed

subsection \<open>Contexts\<close>

definition ctx_wf :: "string \<Rightarrow> bpf_ctx \<Rightarrow> bool" where
  "ctx_wf arch ctx \<longleftrightarrow> sizeof_fields (pt_regs arch) \<le> length (ctx_regs ctx)"

definition reg_value :: "string \<Rightarrow> bpf_ctx \<Rightarrow> string \<Rightarrow> u64" where
  "reg_value arch ctx n =
     (case lookupRegister arch n of
        None \<Rightarrow> 0
      | Some r \<Rightarrow> bytes_to_word (take 8 (drop (nat (bpf_usdt_get_reg_off arch r)) (ctx_regs ctx))))"

lemma get_reg_val:
  assumes n: "lookupRegister arch n = Some r" and wf: "ctx_wf arch ctx"
  shows "bpf_usdt_get_reg_val arch ctx r = Inr (reg_value arch ctx n)"
proof -
  consider "arch = ''amd64''" | "arch = ''arm64''" using n by (auto simp: lookupRegister_def split: if_splits)
  then have "0 \<le> bpf_usdt_get_reg_off arch r \<and>
    bpf_probe_read_kernel (ctx_regs ctx) (bpf_usdt_get_reg_off arch r) = Inr (reg_value arch ctx n)"
    using n wf amd64.covered [of n r] amd64.read_ok [of n r] arm64.covered [of n r] arm64.read_ok [of n r]
    by cases (simp_all add: ctx_wf_def reg_value_def)
  then show ?thesis by (simp add: bpf_usdt_get_reg_val_def)
qed

text \<open>A context whose registers have given values, in the order of \<open>pt_regs\<close>.\<close>

definition saved :: "u64 list \<Rightarrow> bytes" where
  "saved vals = concat (map word_to_bytes vals)"

lemma saved_slot: "i < length vals \<Longrightarrow> bytes_to_word (take 8 (drop (8 * i) (saved vals))) = vals ! i"
proof (induction vals arbitrary: i)
  case (Cons v vs)
  then show ?case by (cases i) (simp_all add: saved_def le64.dec_enc)
qed simp

lemma length_saved [simp]: "length (saved vals) = 8 * length vals"
  by (induction vals) (simp_all add: saved_def)

text \<open>The register names, from the architectures' naming rules, and the field each must read.\<close>

definition amd64_names :: "(string \<times> string) list" where
  "amd64_names =
     concat (map (\<lambda>c. map (\<lambda>n. (n, c @ ''x'')) [''r'' @ c @ ''x'', ''e'' @ c @ ''x'', c @ ''x'', c @ ''l''])
       [''a'', ''b'', ''c'', ''d''])
     @ concat (map (\<lambda>p. map (\<lambda>n. (n, p)) [''r'' @ p, ''e'' @ p, p, p @ ''l''])
       [''si'', ''di'', ''bp'', ''sp''])
     @ concat (map (\<lambda>k. map (\<lambda>sfx. (''r'' @ k @ sfx, ''r'' @ k)) [[], ''d'', ''w'', ''b''])
       [''8'', ''9'', ''10'', ''11'', ''12'', ''13'', ''14'', ''15''])
     @ [(''rip'', ''ip''), (''eip'', ''ip''), (''ip'', ''ip'')]"

definition arm64_names :: "(string \<times> string) list" where
  "arm64_names =
     concat (map (\<lambda>k. [(''x'' @ k, ''regs['' @ k @ '']''), (''w'' @ k, ''regs['' @ k @ '']'')])
       [''0'', ''1'', ''2'', ''3'', ''4'', ''5'', ''6'', ''7'', ''8'', ''9'', ''10'', ''11'', ''12'', ''13'', ''14'',
        ''15'', ''16'', ''17'', ''18'', ''19'', ''20'', ''21'', ''22'', ''23'', ''24'', ''25'', ''26'', ''27'',
        ''28'', ''29'', ''30''])
     @ [(''fp'', ''regs[29]''), (''lr'', ''regs[30]''), (''sp'', ''sp''), (''wsp'', ''sp''), (''pc'', ''pc'')]"

definition names_field :: "string \<Rightarrow> string \<Rightarrow> string option" where
  "names_field arch n = Option.bind (lookupRegister arch n) (map_of (reg_cases arch))"

lemma names_amd64: "list_all (\<lambda>(n, f). names_field ''amd64'' n = Some f) amd64_names"
  by code_simp

lemma names_arm64: "list_all (\<lambda>(n, f). names_field ''arm64'' n = Some f) arm64_names"
  by code_simp

end
