(* ===== verification/Pipeline.thy ===== *)
theory Pipeline
  imports Kernel Bpf_Args
begin

section \<open>From an argument string to the value a handler reads\<close>

text \<open>
  The parts together: the cookie \<open>MergeCookies\<close> builds and the BPF side splits, the spec that
  \<open>PopulateSpecMap\<close> stores and \<open>bpf_usdt_arg\<close> reads back, and the value of each argument of a
  probe (\<open>operand\<close>), stated over the syntax of \<open>Arg_Parser\<close>.
\<close>

subsection \<open>Cookies\<close>

definition cookie_at :: "u32 list \<Rightarrow> u64 list \<Rightarrow> nat \<Rightarrow> u64" where
  "cookie_at ids user i =
     (if i < length ids then push_bit 32 (ucast (ids ! i)) else 0)
     OR (if i < length user then user ! i AND 0xFFFFFFFF else 0)"

lemma length_MergeCookies: "length (MergeCookies ids user) = max (length ids) (length user)"
  by (simp add: MergeCookies_def Let_def max_def)

lemma MergeCookies_nth:
  "i < max (length ids) (length user) \<Longrightarrow> MergeCookies ids user ! i = cookie_at ids user i"
  by (auto simp: MergeCookies_def cookie_at_def Let_def)

lemma mask32: "(0xFFFFFFFF :: u64) = mask 32"
  by (simp add: mask_eq_exp_minus_1)

lemma split_cookie:
  fixes k c :: u64
  assumes "ctx_cookie ctx = push_bit 32 (ucast (hi :: u32)) OR (lo AND 0xFFFFFFFF)"
  shows "bpf_usdt_spec_id ctx = hi" "bpf_usdt_cookie ctx = ucast lo"
proof -
  show "bpf_usdt_spec_id ctx = hi"
    unfolding bpf_usdt_spec_id_def assms Let_def mask32
    by (rule bit_word_eqI) (auto simp: bit_simps)
  show "bpf_usdt_cookie ctx = ucast lo"
    unfolding bpf_usdt_cookie_def assms Let_def mask32
    by (rule bit_word_eqI) (auto simp: bit_simps)
qed

lemma cookie_at_split:
  assumes "ctx_cookie ctx = cookie_at ids user i"
  shows "bpf_usdt_spec_id ctx = (if i < length ids then ids ! i else 0)"
    and "bpf_usdt_cookie ctx = (if i < length user then ucast (user ! i) else 0)"
proof -
  have "cookie_at ids user i = push_bit 32 (ucast (if i < length ids then ids ! i else 0))
    OR ((if i < length user then user ! i else 0) AND 0xFFFFFFFF)"
    by (simp add: cookie_at_def)
  then have c: "ctx_cookie ctx = push_bit 32 (ucast (if i < length ids then ids ! i else 0))
    OR ((if i < length user then user ! i else 0) AND 0xFFFFFFFF)"
    using assms by simp
  show "bpf_usdt_spec_id ctx = (if i < length ids then ids ! i else 0)"
    using split_cookie(1) [OF c] .
  show "bpf_usdt_cookie ctx = (if i < length user then ucast (user ! i) else 0)"
    using split_cookie(2) [OF c] by (simp split: if_splits)
qed

subsection \<open>Reading a stored spec\<close>

lemma scast_small: "k \<le> 12 \<Longrightarrow> (scast (of_nat k :: s16) :: u64) = of_nat k"
proof -
  assume "k \<le> 12"
  moreover have "list_all (\<lambda>k. (scast (of_nat k :: s16) :: u64) = of_nat k) [0..<13]" by code_simp
  ultimately show ?thesis by (simp add: list_all_iff)
qed

lemma bpf_usdt_arg_stored:
  assumes stored: "specs (bpf_usdt_spec_id ctx) = Some (SpecToBytes (spec_with as))"
    and id: "0 \<le> sint (bpf_usdt_spec_id ctx)"
    and as: "length as \<le> 12" "list_all ArgSpec_wf as"
  shows "bpf_usdt_arg arch specs ctx n =
    (if unat n < length as then
       case arg_raw arch ctx (as ! unat n) of
         Inl err \<Rightarrow> Some (err, 0)
       | Inr val \<Rightarrow> map_option (\<lambda>v. (0, v))
           (cast_arg (Arg_bitshift (as ! unat n)) (Arg_signed (as ! unat n)) val)
     else Some (-1, 0))"
proof -
  have s: "c_spec (SpecToBytes (spec_with as)) = spec_with as"
    using spec_codec.dec_enc spec_with_wf [OF as] by blast
  have c: "scast (Arg_cnt (spec_with as)) = (of_nat (length as) :: u64)"
    using as(1) by (simp add: spec_with_def scast_small)
  have n: "12 \<le> n \<or> of_nat (length as) \<le> n \<longleftrightarrow> \<not> unat n < length as"
    using as(1) by (auto simp: word_le_nat_alt unat_of_nat)
  have "Args (spec_with as) ! unat n = as ! unat n" if "unat n < length as"
    using that by (simp add: spec_with_def nth_append)
  then show ?thesis
    using stored id n by (simp add: bpf_usdt_arg_def Let_def s c)
qed

subsection \<open>The value of an argument\<close>

text \<open>
  What an argument's location holds when the probe fires: a constant, a saved register, or the
  eight bytes of user memory at an address, whose read may fault.
\<close>

fun operand :: "string \<Rightarrow> bpf_ctx \<Rightarrow> location \<Rightarrow> int + u64" where
  "operand arch ctx (DollarConst k) = Inr (word_of_int (int_value k))"
| "operand arch ctx (BareConst k) = Inr (word_of_int (int_value k))"
| "operand arch ctx (InReg pct n) = Inr (reg_value arch ctx n)"
| "operand arch ctx (Deref n) = bpf_probe_read_user (ctx_user ctx) (reg_value arch ctx n)"
| "operand arch ctx (DerefArm n) = bpf_probe_read_user (ctx_user ctx) (reg_value arch ctx n)"
| "operand arch ctx (DerefOffset off n) =
     bpf_probe_read_user (ctx_user ctx) (reg_value arch ctx n + word_of_int (int_value off))"
| "operand arch ctx (DerefOffsetArm n off) =
     bpf_probe_read_user (ctx_user ctx) (reg_value arch ctx n + word_of_int (int_value off))"

definition arg_result :: "string \<Rightarrow> bpf_ctx \<Rightarrow> arg_syntax \<Rightarrow> int \<times> s64" where
  "arg_result arch ctx a =
     (case operand arch ctx (location_of a) of
        Inl err \<Rightarrow> (err, 0)
      | Inr val \<Rightarrow> (0, resize (int_value (size_text a)) val))"

lemma spec_of_fields [simp]:
  "Val_off (spec_of ty off r sz f) = word_of_int off" "Arg_type (spec_of ty off r sz f) = ty"
  "Reg_id (spec_of ty off r sz f) = r" "Arg_signed (spec_of ty off r sz f) = (sz < 0)"
  "Arg_bitshift (spec_of ty off r sz f) = word_of_int (64 - 8 * \<bar>sz\<bar>)"
  by (simp_all add: spec_of_def)

lemma denote_operand:
  assumes "denote arch a = Inr x" and wf: "ctx_wf arch ctx"
  shows "arg_raw arch ctx x = operand arch ctx (location_of a)
    \<and> Arg_bitshift x = word_of_int (64 - 8 * \<bar>int_value (size_text a)\<bar>)
    \<and> Arg_signed x = (int_value (size_text a) < 0)"
proof (cases a)
  case (ArgSyntax szt f loc)
  have reg: "bpf_usdt_get_reg_val arch ctx r = Inr (reg_value arch ctx n)"
    if "lookupRegister arch n = Some r" for n r
    using get_reg_val [OF that wf] .
  show ?thesis
    using assms(1) unfolding ArgSyntax
    by (cases loc) (auto simp: with_int_Inr with_reg_Inr arg_raw_def Let_def reg)
qed

lemma bpf_usdt_arg_value:
  assumes stored: "specs (bpf_usdt_spec_id ctx) = Some (SpecToBytes (spec_with xs))"
    and id: "0 \<le> sint (bpf_usdt_spec_id ctx)" and ctx: "ctx_wf arch ctx"
    and args: "list_all2 (\<lambda>a x. denote arch a = Inr x) as xs" "length as \<le> 12"
    and sizes: "list_all (\<lambda>a. arg_size (int_value (size_text a))) as"
  shows "bpf_usdt_arg arch specs ctx n =
    Some (if unat n < length as then arg_result arch ctx (as ! unat n) else (-1, 0))"
proof -
  have len: "length xs = length as" using list_all2_lengthD [OF args(1)] by simp
  have d: "denote arch (as ! i) = Inr (xs ! i)" if "i < length as" for i
    using list_all2_nthD [OF args(1) that] .
  then have "list_all ArgSpec_wf xs"
    using denote_valid ArgSpec_valid_wf len by (fastforce simp: list_all_length)
  then have v: "bpf_usdt_arg arch specs ctx n =
    (if unat n < length as then
       case arg_raw arch ctx (xs ! unat n) of
         Inl err \<Rightarrow> Some (err, 0)
       | Inr val \<Rightarrow> map_option (\<lambda>v. (0, v))
           (cast_arg (Arg_bitshift (xs ! unat n)) (Arg_signed (xs ! unat n)) val)
     else Some (-1, 0))"
    using bpf_usdt_arg_stored [of specs ctx xs arch n] stored id args(2) len by simp
  show ?thesis
  proof (cases "unat n < length as")
    case True
    then have "arg_size (int_value (size_text (as ! unat n)))" using sizes by (simp add: list_all_length)
    then have c: "cast_arg (Arg_bitshift (xs ! unat n)) (Arg_signed (xs ! unat n)) val
        = Some (resize (int_value (size_text (as ! unat n))) val)" for val
      using denote_operand [OF d [OF True] ctx] cast_arg_resize by presburger
    show ?thesis
      using True denote_operand [OF d [OF True] ctx, THEN conjunct1]
      by (simp add: v arg_result_def c split: sum.split)
  qed (simp add: v)
qed

subsection \<open>The whole way\<close>

lemma assigned_range:
  assumes "i < length ps" "probe_spec goarch (ps ! i) = Some spec"
  shows "\<exists>k<length ps. assigned goarch ps n ! i = n + of_nat k"
proof -
  have "assigned goarch ps n ! i \<in> set (map fst (entries goarch ps n))"
    using assigned_entry [OF assms, of n] by force
  then obtain k where "k < length (entries goarch ps n)" "assigned goarch ps n ! i = n + of_nat k"
    unfolding entries_keys by auto
  then show ?thesis using length_entries [of goarch ps n] less_le_trans by blast
qed

lemma sint_small: "unat (x :: u32) < 2 ^ 31 \<Longrightarrow> sint x = uint x"
proof -
  assume "unat x < 2 ^ 31"
  then have "nat (uint x) < nat (2 ^ 31)" by (simp only: unat_eq_nat_uint) simp
  then have "uint x < 2 ^ 31" by (simp only: nat_less_eq_zless zless_nat_conj)
  moreover have "- (2 ^ 31) \<le> uint x" by (rule order_trans [OF _ uint_ge_0]) simp
  moreover have "sint x = signed_take_bit 31 (uint x)" by (simp add: sint_uint)
  ultimately show ?thesis by (metis signed_take_bit_int_eq_self)
qed

lemma assigned_nonneg:
  assumes "i < length ps" "probe_spec goarch (ps ! i) = Some spec" "unat n + length ps \<le> 2 ^ 31"
  shows "0 \<le> sint (assigned goarch ps n ! i)" "n \<le> assigned goarch ps n ! i"
proof -
  obtain k where k: "k < length ps" "assigned goarch ps n ! i = n + of_nat k"
    using assigned_range [OF assms(1,2)] by blast
  then have u: "unat (n + of_nat k) = unat n + k" using assms(3) by (simp add: unat_word_ariths unat_of_nat)
  then have "unat (assigned goarch ps n ! i) < 2 ^ 31" using assms(3) k by simp
  then show "0 \<le> sint (assigned goarch ps n ! i)" by (simp only: sint_small uint_ge_0)
  show "n \<le> assigned goarch ps n ! i" using u k by (simp add: word_le_nat_alt)
qed

lemma probe_values:
  assumes pop: "PopulateSpecMap arch map_Put m ps startID w = (Inr ids, w')"
    and startID: "unat startID + length ps \<le> 2 ^ 31"
    and i: "i < length ps" and args: "Arguments (ps ! i) = args_text u g a its v"
    and ok: "tight g a" "arg_wf a" "list_all item_ok its"
    and blanks: "list_all is_ascii_space u" "list_all is_ascii_space v"
    and len: "length its \<le> 11"
    and vals: "list_all2 (\<lambda>a x. denote arch a = Inr x) (a # item_args its) xs"
    and sizes: "list_all (\<lambda>a. arg_size (int_value (size_text a))) (a # item_args its)"
    and ctx: "ctx_wf arch ctx" "ctx_cookie ctx = MergeCookies ids user ! i"
  shows "bpf_usdt_arg arch (map_lookup w' m) ctx n =
      Some (if unat n < Suc (length its) then arg_result arch ctx ((a # item_args its) ! unat n)
            else (-1, 0))"
proof -
  have "Arguments (ps ! i) \<noteq> []" by (simp add: args args_text_def join_def)
  then have spec: "probe_spec arch (ps ! i) = Some (spec_with xs)"
    using parse_args_text [OF ok blanks len vals] by (simp add: probe_spec_def args)
  have n31: "length ps \<le> 2 ^ 32" using startID by simp
  have id: "ids = assigned arch ps startID"
    using krn.PopulateSpecMap_spec [OF pop] by (simp add: populated_def)
  then have li: "i < length ids" using i by simp
  then have "i < max (length ids) (length user)" by simp
  then have sid: "bpf_usdt_spec_id ctx = ids ! i"
    using cookie_at_split(1) [of ctx ids user i] ctx(2) li by (simp add: MergeCookies_nth)
  have "length (a # item_args its) \<le> 12" using len by (simp add: item_args_def)
  moreover have "map_lookup w' m (bpf_usdt_spec_id ctx) = Some (SpecToBytes (spec_with xs))"
    using krn.PopulateSpecMap_lookup [OF pop n31 i spec] by (simp add: sid)
  moreover have "0 \<le> sint (bpf_usdt_spec_id ctx)"
    using assigned_nonneg(1) [OF i spec startID] by (simp add: sid id)
  ultimately show ?thesis
    using bpf_usdt_arg_value [of "map_lookup w' m" ctx xs arch "a # item_args its" n] vals sizes ctx(1)
    by (simp add: item_args_def)
qed

end
