(* ===== verification/Attach_Claims.thy ===== *)
theory Attach_Claims
  imports Pipeline
begin

section \<open>Properties of storing, attaching and fetching\<close>

text \<open>
  The operations of \<open>attach.go\<close> on the kernel objects of \<open>Kernel\<close>, and \<open>bpf_usdt_arg\<close> on what
  they leave there. The witnesses share an empty kernel and one probe.
\<close>

definition empty_kernel :: kstate where
  "empty_kernel = \<lparr>k_maps = (\<lambda>_. []), k_links = []\<rparr>"

definition probe_with :: "string \<Rightarrow> Probe" where
  "probe_with args = \<lparr>Provider = ''p'', Name = ''n'', Location = 16, Base = 0, SemaphoreOffset = 0, Arguments = args\<rparr>"

lemma probe_with_fields [simp]:
  "Arguments (probe_with args) = args" "Location (probe_with args) = 16" "SemaphoreOffset (probe_with args) = 0"
  "Name (probe_with args) = ''n''"
  by (simp_all add: probe_with_def)

lemma probe_spec_Some:
  "probe_spec goarch p = Some spec \<longleftrightarrow> Arguments p \<noteq> [] \<and> ParseUSDTArguments goarch (Arguments p) = Inr spec"
  by (simp add: probe_spec_def split: sum.split)

lemma probe_spec_size: "probe_spec goarch p = Some spec \<Longrightarrow> length (SpecToBytes spec) = 304"
  using ParseUSDTArguments_wf spec_codec.enc_length by (auto simp: probe_spec_Some)

definition one_stored :: "fd \<Rightarrow> u32 \<Rightarrow> Spec \<Rightarrow> kstate" where
  "one_stored m n spec = \<lparr>k_maps = (\<lambda>_. [])(m := [(n, SpecToBytes spec)]), k_links = []\<rparr>"

lemma populate_one:
  assumes "probe_spec goarch p = Some spec"
  shows "PopulateSpecMap goarch map_Put m [p] n empty_kernel = (Inr [n], one_stored m n spec)"
  using assms probe_spec_size [OF assms]
  by (simp add: PopulateSpecMap_def probe_spec_Some map_Put_def spec_value_size_def empty_kernel_def
      map_lookup_def BPF_USDT_MAX_SPEC_CNT_def one_stored_def)

text \<open>The probe of the witnesses: one signed constant.\<close>

definition nine :: ArgSpec where
  "nine = spec_of ArgConst (- 9) RegNone (- 4) False"

lemma parse_nine: "ParseUSDTArguments ''amd64'' ''-4@$-9'' = Inr (spec_with [nine])"
  by code_simp

lemma nine_syntax:
  "arg_wf (ArgSyntax ''-4'' False (DollarConst ''-9''))"
  "arg_size (int_value (size_text (ArgSyntax ''-4'' False (DollarConst ''-9''))))"
  "denote ''amd64'' (ArgSyntax ''-4'' False (DollarConst ''-9'')) = Inr nine"
  by code_simp+

lemma nine_result: "arg_result arch ctx (ArgSyntax ''-4'' False (DollarConst ''-9'')) = (0, - 9)"
proof -
  have "int_value ''-9'' = - 9" "int_value ''-4'' = - 4" by code_simp+
  moreover have "resize (- 4) (- 9) = - 9" by code_simp
  ultimately show ?thesis by (simp add: arg_result_def)
qed

lemma nine_text: "''-4@$-9'' = args_text [] no_gaps (ArgSyntax ''-4'' False (DollarConst ''-9'')) [] []"
  by (simp add: args_text_def join_def item_texts_def render_def float_text_def)

lemma merge_one: "MergeCookies [i] [u] = [MergeCookies [i] [u] ! 0]"
  by (simp add: MergeCookies_def)

lemma spec_nine: "probe_spec ''amd64'' (probe_with ''-4@$-9'') = Some (spec_with [nine])"
  by (simp add: probe_spec_Some parse_nine)

subsection \<open>Storing specs\<close>

text \<open>
  C8: when \<open>PopulateSpecMap\<close> succeeds there is one ID per probe; a probe without a spec has ID
  0; the ID of a probe with a spec leads in the map to the bytes of that spec, and no two such
  probes share an ID. Other maps and the links are untouched.
\<close>

theorem PopulateSpecMap_stores:
  assumes "PopulateSpecMap goarch map_Put m ps startID w = (Inr ids, w')" "length ps \<le> 2 ^ 32"
  shows "length ids = length ps
    \<and> (\<forall>i<length ps. case probe_spec goarch (ps ! i) of
          None \<Rightarrow> ids ! i = 0
        | Some spec \<Rightarrow> map_lookup w' m (ids ! i) = Some (SpecToBytes spec)
            \<and> (\<forall>j<i. probe_spec goarch (ps ! j) \<noteq> None \<longrightarrow> ids ! j \<noteq> ids ! i))
    \<and> (\<forall>m'. m' \<noteq> m \<longrightarrow> map_lookup w' m' = map_lookup w m') \<and> link_at w' = link_at w"
proof -
  have p: "ids = assigned goarch ps startID"
    "map_lookup w' = (map_lookup w)(m := store (entries goarch ps startID) (map_lookup w m))"
    using krn.PopulateSpecMap_spec [OF assms(1)] by (simp_all add: populated_def)
  have "link_at w' = link_at w" using krn.populate_frame [of goarch m ps startID w] assms(1) by simp
  then show ?thesis
    using krn.PopulateSpecMap_lookup [OF assms] assigned_distinct [OF assms(2)] assigned_none
    by (auto simp: p split: option.split)
qed

theorem PopulateSpecMap_stores_witness:
  "\<exists>ids w'. PopulateSpecMap ''amd64'' map_Put 3 [probe_with ''-4@$-9''] 7 empty_kernel = (Inr ids, w')
    \<and> length ids = 1 \<and> map_lookup w' 3 (ids ! 0) = Some (SpecToBytes (spec_with [nine]))"
  using PopulateSpecMap_stores [OF populate_one [OF spec_nine, of 3 7]] populate_one [OF spec_nine, of 3 7]
  by (auto simp: spec_nine)

text \<open>
  C30: when a \<open>Put\<close> fails, the error names the probe whose spec it was, the specs of the probes
  before it stay in the map, and nothing else has changed: the caller is told but not cleaned
  up after.
\<close>

theorem PopulateSpecMap_failure:
  assumes "PopulateSpecMap goarch map_Put m ps startID w = (Inl err, w')"
  shows "\<exists>es k p s rest e. entries goarch ps startID = es @ (k, p, s) # rest
    \<and> err = StoreSpec (Provider p) (Name p) e
    \<and> map_lookup w' = (map_lookup w)(m := store es (map_lookup w m)) \<and> link_at w' = link_at w"
  using krn.PopulateSpecMap_spec [OF assms] krn.populate_frame [of goarch m ps startID w] assms
  by (auto simp: populated_def)

definition full_kernel :: kstate where
  "full_kernel = \<lparr>k_maps = (\<lambda>_. map (\<lambda>i. (of_nat i, [])) [0..<256]), k_links = []\<rparr>"

lemma full_lookup: "256 \<le> unat k \<Longrightarrow> map_lookup full_kernel m k = None"
  by (auto simp: map_lookup_def full_kernel_def map_of_eq_None_iff unat_of_nat)

lemma populate_full:
  assumes "probe_spec goarch p = Some spec" "256 \<le> unat n"
  shows "PopulateSpecMap goarch map_Put m [p] n full_kernel =
    (Inl (StoreSpec (Provider p) (Name p) (ExternalError ''map full'')), full_kernel)"
proof -
  have "map_Put m n (SpecToBytes spec) full_kernel = (Some (ExternalError ''map full''), full_kernel)"
    using probe_spec_size [OF assms(1)] full_lookup [OF assms(2)]
    by (simp add: map_Put_def spec_value_size_def BPF_USDT_MAX_SPEC_CNT_def) (simp add: full_kernel_def)
  then show ?thesis using assms(1) by (simp add: PopulateSpecMap_def probe_spec_Some)
qed

theorem PopulateSpecMap_failure_witness:
  "\<exists>err w'. PopulateSpecMap ''amd64'' map_Put 3 [probe_with ''-4@$-9''] 300 full_kernel = (Inl err, w')
    \<and> map_lookup w' = map_lookup full_kernel"
proof -
  have n: "256 \<le> unat (300 :: u32)" by simp
  have "entries ''amd64'' [probe_with ''-4@$-9''] 300 = [(300, probe_with ''-4@$-9'', spec_with [nine])]"
    by (simp add: spec_nine)
  then show ?thesis
    using PopulateSpecMap_failure [OF populate_full [OF spec_nine n, of 3]] populate_full [OF spec_nine n, of 3]
    by (auto simp: Cons_eq_append_conv store_def)
qed

lemma populate_bounded: "bounded w \<Longrightarrow> bounded (snd (PopulateSpecMap goarch map_Put m ps n w))"
  by (rule PopulateSpecMap_keeps) (simp_all add: map_Put_bounded)

text \<open>
  C31: the map's capacity bounds the probes: on a map within its 256 entries, success means that
  at most 256 probes have a spec, and the map stays within them.
\<close>

theorem PopulateSpecMap_capacity:
  assumes "PopulateSpecMap goarch map_Put m ps startID w = (Inr ids, w')" "length ps \<le> 2 ^ 32" "bounded w"
  shows "bounded w' \<and> length (filter (\<lambda>p. probe_spec goarch p \<noteq> None) ps) \<le> BPF_USDT_MAX_SPEC_CNT"
proof -
  have b: "bounded w'" using populate_bounded [OF assms(3), of goarch m ps startID] assms(1) by simp
  let ?es = "entries goarch ps startID"
  have d: "distinct (map fst ?es)" using entries_distinct [OF assms(2)] .
  have "map_lookup w' m = store ?es (map_lookup w m)"
    using krn.PopulateSpecMap_spec [OF assms(1)] by (simp add: populated_def)
  then have "map_of (k_maps w' m) k = Some (SpecToBytes s)" if "(k, p, s) \<in> set ?es" for k p s
    using store_entry [OF d that, of "map_lookup w m"] by (simp add: map_lookup_def fun_eq_iff)
  then have "k \<in> fst ` set (k_maps w' m)" if "(k, p, s) \<in> set ?es" for k p s
    using that by (force dest: map_of_SomeD)
  then have "set (map fst ?es) \<subseteq> fst ` set (k_maps w' m)" by auto
  then have "card (set (map fst ?es)) \<le> card (fst ` set (k_maps w' m))"
    by (intro card_mono) auto
  also have "\<dots> \<le> BPF_USDT_MAX_SPEC_CNT"
    using b card_image_le [of "set (k_maps w' m)" fst] card_length [of "k_maps w' m"]
    unfolding bounded_def by (meson List.finite_set le_trans)
  finally have "length ?es \<le> BPF_USDT_MAX_SPEC_CNT"
    using distinct_card [OF d] by simp
  moreover have "length (entries goarch ps n) = length (filter (\<lambda>p. probe_spec goarch p \<noteq> None) ps)" for n
    by (induction ps arbitrary: n) (auto split: option.split)
  ultimately show ?thesis using b by simp
qed

theorem PopulateSpecMap_capacity_witness:
  "length (filter (\<lambda>p. probe_spec ''amd64'' p \<noteq> None) [probe_with ''-4@$-9'']) \<le> BPF_USDT_MAX_SPEC_CNT"
  using PopulateSpecMap_capacity [OF populate_one [OF spec_nine, of 3 7]]
  by (simp add: bounded_def empty_kernel_def)

subsection \<open>Attaching and detaching\<close>

text \<open>
  C9: \<open>AttachUprobes\<close> that succeeds attaches every probe once: the \<open>i\<close>-th link is new, holds the
  \<open>i\<close>-th program at the probe's location with its semaphore offset and its cookie, and no link
  that was attached before has changed; the map is untouched.
\<close>

theorem AttachUprobes_attaches:
  assumes "AttachUprobes exe_Uprobe link_Close exe specMap ps progs cookies w = (Inr pl, w')"
  shows "length (Links pl) = length ps \<and> distinct (Links pl) \<and> length progs = length ps
    \<and> (\<forall>i<length ps. link_at w (Links pl ! i) = None
        \<and> link_at w' (Links pl ! i) = Some (exe, progs ! i,
            \<lparr>Address = Location (ps ! i), RefCtrOffset = SemaphoreOffset (ps ! i),
             opt_Cookie = (case cookies of None \<Rightarrow> 0 | Some cs \<Rightarrow> if i < length cs then cs ! i else 0)\<rparr>))
    \<and> (\<forall>l. l \<notin> set (Links pl) \<longrightarrow> link_at w' l = link_at w l) \<and> map_lookup w' = map_lookup w"
proof -
  note ok = krn.AttachUprobes_ok [OF assms]
  have "link_at w' l = link_at w l" if "l \<notin> set (Links pl)" for l
    using ok that by (metis ComplI restrict_in)
  moreover have "map_lookup w' = map_lookup w"
    using krn.attach_frame [of exe specMap ps progs cookies w] assms by simp
  ultimately show ?thesis using ok by (auto simp: probe_options_def)
qed

definition one_attached :: "nat \<Rightarrow> fd \<Rightarrow> u64 \<Rightarrow> kstate \<Rightarrow> kstate" where
  "one_attached l prog c w =
     w\<lparr>k_links := [(l, (4096, prog, \<lparr>Address = 16, RefCtrOffset = 0, opt_Cookie = c\<rparr>))]\<rparr>"

lemma attach_one:
  assumes "k_links w = []"
  shows "AttachUprobes exe_Uprobe link_Close 4096 specMap [probe_with args] [prog] (Some [c]) w =
    (Inr \<lparr>Links = [1], SpecIDs = [], SpecMap = specMap\<rparr>, one_attached 1 prog c w)"
  using assms
  by (simp add: AttachUprobes_def attach_loop_Cons probe_options_def exe_Uprobe_def fresh_link_def Let_def
      one_attached_def del: attach_loop.simps(2))

theorem AttachUprobes_attaches_witness:
  "\<exists>pl w'. AttachUprobes exe_Uprobe link_Close 4096 None [probe_with []] [5] (Some [77]) empty_kernel = (Inr pl, w')
    \<and> link_at w' (Links pl ! 0) = Some (4096, 5, \<lparr>Address = 16, RefCtrOffset = 0, opt_Cookie = 77\<rparr>)"
proof -
  have "k_links empty_kernel = []" by (simp add: empty_kernel_def)
  then show ?thesis
    using AttachUprobes_attaches [OF attach_one [of empty_kernel None "[]" 5 77]] attach_one [of empty_kernel None "[]" 5 77]
    by auto
qed

text \<open>
  C10: \<open>AttachUprobes\<close> that fails has attached nothing: the links it made before the error are
  closed again, those that were there remain, and the map is untouched.
\<close>

theorem AttachUprobes_rolls_back:
  assumes "AttachUprobes exe_Uprobe link_Close exe specMap ps progs cookies w = (Inl err, w')"
  shows "link_at w' = link_at w \<and> map_lookup w' = map_lookup w"
  using krn.AttachUprobes_err [OF assms] krn.attach_frame [of exe specMap ps progs cookies w] assms by simp

theorem AttachUprobes_rolls_back_witness:
  "\<exists>err w'. AttachUprobes exe_Uprobe link_Close 4096 None
      [probe_with [], (probe_with [])\<lparr>Location := 5000\<rparr>] [5, 6] None empty_kernel = (Inl err, w')
    \<and> link_at w' = link_at empty_kernel"
proof -
  let ?r = "AttachUprobes exe_Uprobe link_Close 4096 None
      [probe_with [], (probe_with [])\<lparr>Location := 5000\<rparr>] [5, 6] None empty_kernel"
  have "isl (fst ?r)"
    by (simp add: AttachUprobes_def exe_Uprobe_def fresh_link_def Let_def empty_kernel_def probe_with_def)
  then obtain err w' where "?r = (Inl err, w')" by (cases ?r) (auto simp: isl_def)
  then show ?thesis using AttachUprobes_rolls_back by blast
qed

text \<open>
  C32: closing the links that \<open>AttachUprobes\<close> returned detaches every probe without error, and
  leaves every spec in the map: the \<open>SpecIDs\<close> it promises to clean up are never recorded.
\<close>

theorem AttachUprobes_Close:
  assumes "AttachUprobes exe_Uprobe link_Close exe specMap ps progs cookies w = (Inr pl, w1)"
    and "Close link_Close map_Delete pl w1 = (err, w2)"
  shows "SpecIDs pl = [] \<and> err = None \<and> link_at w2 = link_at w \<and> map_lookup w2 = map_lookup w"
  using krn.attach_close [OF assms(1)] krn.AttachUprobes_ok [OF assms(1)] assms(2) by auto

theorem AttachUprobes_Close_witness:
  "\<exists>pl w1 w2. AttachUprobes exe_Uprobe link_Close 4096 (Some 3) [probe_with ''-4@$-9''] [5] (Some [push_bit 32 7])
      (one_stored 3 7 (spec_with [nine])) = (Inr pl, w1)
    \<and> Close link_Close map_Delete pl w1 = (None, w2)
    \<and> map_lookup w2 3 7 = Some (SpecToBytes (spec_with [nine]))"
proof -
  let ?w = "one_stored 3 7 (spec_with [nine])"
  have k: "k_links ?w = []" by (simp add: one_stored_def)
  note a = attach_one [OF k, of "Some 3" "''-4@$-9''" 5 "push_bit 32 7"]
  obtain err w2 where c: "Close link_Close map_Delete \<lparr>Links = [1], SpecIDs = [], SpecMap = Some 3\<rparr>
      (one_attached 1 5 (push_bit 32 7) ?w) = (err, w2)"
    by fastforce
  have "map_lookup ?w 3 7 = Some (SpecToBytes (spec_with [nine]))"
    by (simp add: one_stored_def map_lookup_def)
  then show ?thesis using AttachUprobes_Close [OF a c] a c by auto
qed

lemma assigned_nonzero:
  "ps = [] \<or> n \<noteq> 0 \<and> unat n + length ps \<le> 2 ^ 32 \<Longrightarrow>
    filter (\<lambda>k. k \<noteq> 0) (assigned goarch ps n) = map fst (entries goarch ps n)"
proof (induction ps arbitrary: n)
  case (Cons p ps)
  then have n: "n \<noteq> 0" "unat n + length (p # ps) \<le> 2 ^ 32" by auto
  have "ps = [] \<or> n + 1 \<noteq> 0 \<and> unat (n + 1) + length ps \<le> 2 ^ 32"
  proof (cases "ps = []")
    case False
    then have "unat n + 1 < 2 ^ 32" using n(2) by (cases ps) auto
    then have "unat (n + 1) = unat n + 1" by (simp add: unat_word_ariths)
    then show ?thesis using n(2) by (auto simp: word_unat_eq_iff)
  qed simp
  moreover have "ps = [] \<or> n \<noteq> 0 \<and> unat n + length ps \<le> 2 ^ 32" using n by simp
  ultimately show ?case using Cons.IH n(1) by (simp split: option.split)
qed simp

lemma store_restrict:
  assumes "\<And>k. k \<in> fst ` set es \<Longrightarrow> f k = None"
  shows "store es f |` (- fst ` set es) = f"
proof
  fix k
  show "(store es f |` (- fst ` set es)) k = f k"
    using assms [of k] by (cases "k \<in> fst ` set es") (simp_all add: store_other)
qed

text \<open>The keys of the entries: those of consecutive IDs, all present once stored.\<close>

lemma entries_key:
  assumes "k \<in> fst ` set (entries goarch ps startID)"
  shows "\<exists>j < length ps. k = startID + of_nat j"
proof -
  have "k \<in> set (map fst (entries goarch ps startID))" using assms by simp
  then obtain j where "j < length (entries goarch ps startID)" "k = startID + of_nat j"
    unfolding entries_keys by auto
  then show ?thesis using length_entries [of goarch ps startID] by (intro exI [of _ j]) simp
qed

lemma entries_present:
  assumes "length ps \<le> 2 ^ 32" "k \<in> fst ` set (entries goarch ps startID)"
  shows "store (entries goarch ps startID) m k \<noteq> None"
proof -
  obtain p s where "(k, p, s) \<in> set (entries goarch ps startID)" using assms(2) by force
  then show ?thesis using store_entry [OF entries_distinct [OF assms(1)]] by simp
qed

text \<open>
  C33: had the IDs been recorded, \<open>Close\<close> would undo everything: with IDs from a start above 0
  that do not wrap and were free before, storing the specs, attaching the probes and closing
  with these IDs gives back the map and the links of the beginning, without error.
\<close>

theorem recorded_ids_undo:
  assumes "PopulateSpecMap goarch map_Put m ps startID w = (Inr ids, w1)"
    and "AttachUprobes exe_Uprobe link_Close exe (Some m) qs progs cookies w1 = (Inr pl, w2)"
    and "startID \<noteq> 0" "unat startID + length ps \<le> 2 ^ 32"
    and "\<And>k. k < length ps \<Longrightarrow> map_lookup w m (startID + of_nat k) = None"
    and "Close link_Close map_Delete (pl\<lparr>SpecIDs := ids\<rparr>) w2 = (err, w3)"
  shows "err = None \<and> map_lookup w3 = map_lookup w \<and> link_at w3 = link_at w"
proof -
  let ?es = "entries goarch ps startID"
  have len: "length ps \<le> 2 ^ 32" using assms(4) by simp
  have ids: "ids = assigned goarch ps startID"
    and m1: "map_lookup w1 = (map_lookup w)(m := store ?es (map_lookup w m))"
    using krn.PopulateSpecMap_spec [OF assms(1)] by (simp_all add: populated_def)
  have l1: "link_at w1 = link_at w" using krn.populate_frame [of goarch m ps startID w] assms(1) by simp
  note ok = krn.AttachUprobes_ok [OF assms(2)]
  have m2: "map_lookup w2 = map_lookup w1"
    using krn.attach_frame [of exe "Some m" qs progs cookies w1] assms(2) by simp
  have keys: "filter (\<lambda>k. k \<noteq> 0) ids = map fst ?es"
    using assigned_nonzero [of ps startID goarch] assms(3,4) by (simp add: ids)
  then have set: "set ids - {0} = fst ` set ?es" by (metis filter_set set_map set_minus_filter_out)
  have attached: "link_at w2 l \<noteq> None" if "l \<in> set (Links pl)" for l
    using that ok by (metis in_set_conv_nth option.distinct(1))
  have present: "map_lookup w2 m' k \<noteq> None"
    if "SpecMap (pl\<lparr>SpecIDs := ids\<rparr>) = Some m'" "k \<in> set (SpecIDs (pl\<lparr>SpecIDs := ids\<rparr>))" "k \<noteq> 0" for m' k
  proof -
    have "k \<in> fst ` set ?es" using that set by auto
    then show ?thesis using that(1) ok entries_present [OF len] by (simp add: m1 m2)
  qed
  have "\<exists>w'. Unload link_Close map_Delete (pl\<lparr>SpecIDs := ids\<rparr>) w2 = (None, w')
    \<and> link_at w' = link_at w2 |` (- set (Links pl))
    \<and> map_lookup w' = (map_lookup w2)(m := map_lookup w2 m |` (- (set ids - {0})))"
    using krn.Unload_present [OF _ _ _ present, of "pl\<lparr>SpecIDs := ids\<rparr>"] ok attached
      entries_distinct [OF len, of goarch startID] keys
    by simp
  then have u: "err = None" "link_at w3 = link_at w2 |` (- set (Links pl))"
    "map_lookup w3 = (map_lookup w2)(m := map_lookup w2 m |` (- (set ids - {0})))"
    using assms(6) by (auto simp: Close_def)
  have "map_lookup w m k = None" if "k \<in> fst ` set ?es" for k
    using entries_key [OF that] by (auto simp: assms(5))
  then have "store ?es (map_lookup w m) |` (- fst ` set ?es) = map_lookup w m"
    by (rule store_restrict)
  then have "map_lookup w3 = map_lookup w" unfolding u(3) m2 m1 set by simp
  then show ?thesis using u ok l1 by simp
qed

theorem recorded_ids_undo_witness:
  "\<exists>pl w2 w3. AttachUprobes exe_Uprobe link_Close 4096 (Some 3) [probe_with ''-4@$-9''] [5] (Some [push_bit 32 7])
      (one_stored 3 7 (spec_with [nine])) = (Inr pl, w2)
    \<and> Close link_Close map_Delete (pl\<lparr>SpecIDs := [7]\<rparr>) w2 = (None, w3) \<and> map_lookup w3 = map_lookup empty_kernel"
proof -
  let ?w = "one_stored 3 7 (spec_with [nine])"
  have k: "k_links ?w = []" by (simp add: one_stored_def)
  note a = attach_one [OF k, of "Some 3" "''-4@$-9''" 5 "push_bit 32 7"]
  obtain err w3 where c: "Close link_Close map_Delete (\<lparr>Links = [1], SpecIDs = [], SpecMap = Some 3\<rparr>\<lparr>SpecIDs := [7]\<rparr>)
      (one_attached 1 5 (push_bit 32 7) ?w) = (err, w3)"
    by fastforce
  have "err = None \<and> map_lookup w3 = map_lookup empty_kernel \<and> link_at w3 = link_at empty_kernel"
    by (rule recorded_ids_undo [OF populate_one [OF spec_nine, of 3 7] a _ _ _ c])
      (simp_all add: map_lookup_def empty_kernel_def)
  then show ?thesis using a c by blast
qed

end
