(* ===== verification/Fetch_Claims.thy ===== *)
theory Fetch_Claims
  imports Attach_Claims
begin

section \<open>Properties of cookies, registers and fetched values\<close>

text \<open>
  What crosses from the Go side to the BPF side: the cookie, the register IDs, the spec IDs and
  the shift that resizes a value.
\<close>

subsection \<open>Cookies\<close>

text \<open>
  C18: \<open>MergeCookies\<close> gives one cookie per index of the longer list; from the \<open>i\<close>-th the BPF
  side gets back the \<open>i\<close>-th spec ID and the low 32 bits of the \<open>i\<close>-th user cookie, 0 for a
  missing one.
\<close>

theorem MergeCookies_splits:
  assumes "i < max (length ids) (length user)" "ctx_cookie ctx = MergeCookies ids user ! i"
  shows "length (MergeCookies ids user) = max (length ids) (length user)
    \<and> bpf_usdt_spec_id ctx = (if i < length ids then ids ! i else 0)
    \<and> bpf_usdt_cookie ctx = (if i < length user then ucast (user ! i) else 0)"
  using assms cookie_at_split [of ctx ids user i] length_MergeCookies MergeCookies_nth by simp

theorem MergeCookies_splits_witness:
  "bpf_usdt_spec_id \<lparr>ctx_regs = [], ctx_cookie = MergeCookies [7, 8] [0x1122334455] ! 0, ctx_user = (\<lambda>_. None)\<rparr> = 7
   \<and> bpf_usdt_cookie \<lparr>ctx_regs = [], ctx_cookie = MergeCookies [7, 8] [0x1122334455] ! 0, ctx_user = (\<lambda>_. None)\<rparr> = 0x22334455"
  using MergeCookies_splits [of 0 "[7, 8]" "[0x1122334455]"
      "\<lparr>ctx_regs = [], ctx_cookie = MergeCookies [7, 8] [0x1122334455] ! 0, ctx_user = (\<lambda>_. None)\<rparr>"]
  by simp

subsection \<open>Registers\<close>

text \<open>
  C22: every register the Go side accepts is one the BPF side can read: in any context with the
  architecture's saved registers the read succeeds, and two different registers never overlap.
\<close>

theorem accepted_registers_readable:
  assumes "lookupRegister arch n = Some r" "lookupRegister arch n' = Some r'" "ctx_wf arch ctx"
  shows "bpf_usdt_get_reg_val arch ctx r = Inr (reg_value arch ctx n)
    \<and> (r = r' \<or> 8 \<le> \<bar>bpf_usdt_get_reg_off arch r - bpf_usdt_get_reg_off arch r'\<bar>)"
proof -
  consider "arch = ''amd64''" | "arch = ''arm64''"
    using assms(1) by (auto simp: lookupRegister_def split: if_splits)
  then show ?thesis
    using assms get_reg_val amd64.apart [of n r n' r'] arm64.apart [of n r n' r'] by cases auto
qed

theorem accepted_registers_readable_witness:
  "bpf_usdt_get_reg_val ''arm64'' \<lparr>ctx_regs = saved (replicate 36 9), ctx_cookie = 0, ctx_user = (\<lambda>_. None)\<rparr> RegX30 =
    Inr (reg_value ''arm64'' \<lparr>ctx_regs = saved (replicate 36 9), ctx_cookie = 0, ctx_user = (\<lambda>_. None)\<rparr> ''lr'')"
proof -
  have "lookupRegister ''arm64'' ''lr'' = Some RegX30" by (simp add: lookupRegister_def arm64RegNameToID_def)
  then show ?thesis
    using accepted_registers_readable [of "''arm64''" "''lr''" RegX30 "''lr''" RegX30
        "\<lparr>ctx_regs = saved (replicate 36 9), ctx_cookie = 0, ctx_user = (\<lambda>_. None)\<rparr>"]
    by (simp add: ctx_wf_def sizeof_pt_regs)
qed

definition reads_field :: "string \<Rightarrow> string \<times> string \<Rightarrow> bool" where
  "reads_field arch nf = (case nf of (n, f) \<Rightarrow>
     map_option (bpf_usdt_get_reg_off arch) (lookupRegister arch n) = Some (int (offsetof (pt_regs arch) f))
     \<and> f \<in> fst ` set (pt_regs arch))"

lemma reads_fieldI:
  "names_field arch n = Some f \<Longrightarrow> f \<in> fst ` set (pt_regs arch) \<Longrightarrow> reads_field arch (n, f)"
  by (auto simp: reads_field_def names_field_def bpf_usdt_get_reg_off_def Option.bind_eq_Some_conv)

lemma field_tables:
  "list_all (\<lambda>(n, f). f \<in> fst ` set (pt_regs ''amd64'')) amd64_names"
  "list_all (\<lambda>(n, f). f \<in> fst ` set (pt_regs ''arm64'')) arm64_names"
  by code_simp+

text \<open>
  C23: every name is read from the right register. On amd64 each name the processor's manual
  gives a general register or the instruction pointer (\<open>rax\<close>, \<open>eax\<close>, \<open>ax\<close>, \<open>al\<close>, \<dots>, \<open>r15b\<close>, \<open>rip\<close>)
  is read from that register's field of \<open>struct pt_regs\<close>; on arm64 \<open>x0\<close> to \<open>x30\<close> and \<open>w0\<close> to \<open>w30\<close>
  from \<open>regs[0]\<close> to \<open>regs[30]\<close>, \<open>fp\<close> and \<open>lr\<close> from \<open>regs[29]\<close> and \<open>regs[30]\<close>, and \<open>sp\<close>, \<open>wsp\<close> and
  \<open>pc\<close> from their own fields.
\<close>

theorem register_names_read:
  "list_all (reads_field ''amd64'') amd64_names \<and> list_all (reads_field ''arm64'') arm64_names"
  using names_amd64 names_arm64 field_tables by (auto simp: list_all_iff intro!: reads_fieldI)

subsection \<open>Shifts and spec IDs\<close>

lemma shift_table:
  "list_all (\<lambda>k. (0 \<le> sint (word_of_int (64 - 8 * k) :: s8) \<and> sint (word_of_int (64 - 8 * k) :: s8) < 64)
     \<longleftrightarrow> 1 \<le> k \<and> k \<le> 8) [0..31]"
  by code_simp

lemma shift_mod: "(word_of_int (64 - 8 * k) :: s8) = word_of_int (64 - 8 * (k mod 32))"
proof -
  have "64 - 8 * k = (64 - 8 * (k mod 32)) + (- (k div 32)) * (256 :: int)"
    using mult_div_mod_eq [of 32 k] by linarith
  then have "(64 - 8 * k) mod 256 = (64 - 8 * (k mod 32)) mod (256 :: int)"
    by (simp only: mod_mult_self1)
  then show ?thesis by (simp only: word_of_int_eq_iff take_bit_eq_mod) simp
qed

text \<open>What the parser keeps of an argument's size.\<close>

lemma denote_size:
  assumes "denote goarch a = Inr x"
  shows "Arg_bitshift x = word_of_int (64 - 8 * \<bar>int_value (size_text a)\<bar>)"
proof (cases a)
  case (ArgSyntax sz f loc)
  show ?thesis using assms unfolding ArgSyntax by (cases loc) (auto simp: with_int_Inr with_reg_Inr)
qed

text \<open>
  C38: which argument sizes \<open>bpf_usdt_arg\<close> can resize. The parser takes any 64-bit size and keeps
  64 less eight times its absolute value, modulo 256, as the shift; for an argument the parser
  has accepted, the C shift of a fetched value is defined exactly when its size is 1 to 8 modulo
  32, with either sign. Size 0, say, is accepted and gives a shift by 64, which C leaves undefined.
\<close>

theorem shift_defined_iff:
  assumes "gaps g" "arg_wf a" "TrimSpace s = render g a" "ParseUSDTArgSpec goarch s = Inr x"
  shows "cast_arg (Arg_bitshift x) (Arg_signed x) val \<noteq> None
    \<longleftrightarrow> \<bar>int_value (size_text a)\<bar> mod 32 \<in> {1..8}"
proof -
  let ?sz = "int_value (size_text a)"
  define k where "k = \<bar>?sz\<bar> mod 32"
  have x: "Arg_bitshift x = word_of_int (64 - 8 * \<bar>?sz\<bar>)"
    using parse_render [OF assms(1-3), of goarch] assms(4) by (simp add: denote_size)
  have "k \<in> set [0..31]" by (auto simp: k_def)
  then have "(0 \<le> sint (word_of_int (64 - 8 * k) :: s8) \<and> sint (word_of_int (64 - 8 * k) :: s8) < 64)
     \<longleftrightarrow> 1 \<le> k \<and> k \<le> 8"
    using shift_table by (simp only: list_all_iff)
  then show ?thesis
    unfolding x cast_arg_def Let_def shift_mod [of "\<bar>?sz\<bar>"] k_def [symmetric] by simp
qed

theorem shift_defined_iff_witness:
  "\<exists>x y. ParseUSDTArgSpec ''amd64'' ''-4@%eax'' = Inr x \<and> cast_arg (Arg_bitshift x) (Arg_signed x) 7 \<noteq> None
    \<and> ParseUSDTArgSpec ''amd64'' ''0@%eax'' = Inr y \<and> cast_arg (Arg_bitshift y) (Arg_signed y) 7 = None"
proof -
  let ?a = "ArgSyntax ''-4'' False (InReg True ''eax'')" and ?b = "ArgSyntax ''0'' False (InReg True ''eax'')"
  have a: "arg_wf ?a" "TrimSpace ''-4@%eax'' = render no_gaps ?a" "\<bar>int_value (size_text ?a)\<bar> mod 32 \<in> {1..8}"
    by code_simp+
  have b: "arg_wf ?b" "TrimSpace ''0@%eax'' = render no_gaps ?b" "\<bar>int_value (size_text ?b)\<bar> mod 32 \<notin> {1..8}"
    by code_simp+
  have "isl (ParseUSDTArgSpec ''amd64'' ''-4@%eax'') = False" "isl (ParseUSDTArgSpec ''amd64'' ''0@%eax'') = False"
    by code_simp+
  then obtain x y where p: "ParseUSDTArgSpec ''amd64'' ''-4@%eax'' = Inr x" "ParseUSDTArgSpec ''amd64'' ''0@%eax'' = Inr y"
    by (cases "ParseUSDTArgSpec ''amd64'' ''-4@%eax''"; cases "ParseUSDTArgSpec ''amd64'' ''0@%eax''") auto
  have "cast_arg (Arg_bitshift x) (Arg_signed x) 7 \<noteq> None"
    using shift_defined_iff [OF no_gaps_ok(1) a(1,2) p(1), of 7] a(3) by argo
  moreover have "cast_arg (Arg_bitshift y) (Arg_signed y) 7 = None"
    using shift_defined_iff [OF no_gaps_ok(1) b(1,2) p(2), of 7] b(3) by argo
  ultimately show ?thesis using p by blast
qed

text \<open>
  C39: a spec ID from \<open>2^31\<close> on, which \<open>PopulateSpecMap\<close> gives out like any other, is never
  found: the BPF side takes it for a negative number and fails every fetch.
\<close>

theorem large_spec_ids_fail:
  assumes "i < length ids" "2 ^ 31 \<le> ids ! i" "ctx_cookie ctx = MergeCookies ids user ! i"
  shows "bpf_usdt_arg arch specs ctx n = Some (-1, 0)"
proof -
  have "i < max (length ids) (length user)" using assms(1) by simp
  then have "bpf_usdt_spec_id ctx = ids ! i"
    using cookie_at_split(1) [of ctx ids user i] assms by (simp add: MergeCookies_nth)
  moreover have "sint (ids ! i) < 0"
  proof -
    have "bit (ids ! i) 31"
    proof (rule ccontr)
      assume "\<not> bit (ids ! i) 31"
      then have "ids ! i = take_bit 31 (ids ! i)"
        by (intro bit_word_eqI) (auto simp: bit_simps less_Suc_eq numeral_eq_Suc)
      then have "uint (ids ! i) = take_bit 31 (uint (ids ! i))" by (metis unsigned_take_bit_eq)
      then have "uint (ids ! i) < 2 ^ 31" by (metis take_bit_int_less_exp)
      then show False using assms(2) by (simp add: word_le_def)
    qed
    then show ?thesis by (simp add: sint_uint signed_take_bit_negative_iff bit_uint_iff)
  qed
  ultimately show ?thesis by (simp add: bpf_usdt_arg_def)
qed

theorem large_spec_ids_fail_witness:
  "bpf_usdt_arg ''amd64'' (\<lambda>_. Some (SpecToBytes (spec_with [nine])))
    \<lparr>ctx_regs = [], ctx_cookie = MergeCookies [0x80000000] [] ! 0, ctx_user = (\<lambda>_. None)\<rparr> 0 = Some (-1, 0)"
  by (rule large_spec_ids_fail [of 0 "[0x80000000]" _ "[]"]) simp_all

text \<open>
  C40: ID 0 is not \<open>no spec\<close> for the BPF side: when IDs start at 0 and the first probe has a
  spec, the cookie of every probe without a spec leads to the first probe's spec, and its
  arguments are what a handler of the other probe fetches.
\<close>

theorem spec_id_zero_is_live:
  assumes "PopulateSpecMap arch map_Put m (p # ps) 0 w = (Inr ids, w')" "length (p # ps) \<le> 2 ^ 31"
    and "probe_spec arch p = Some (spec_with xs)" "length xs \<le> 12" "list_all ArgSpec_wf xs"
    and "i < length ps" "probe_spec arch (ps ! i) = None"
    and "ctx_cookie ctx = MergeCookies ids user ! Suc i"
  shows "bpf_usdt_spec_id ctx = 0 \<and> bpf_usdt_arg arch (map_lookup w' m) ctx n =
    (if unat n < length xs then
       case arg_raw arch ctx (xs ! unat n) of
         Inl err \<Rightarrow> Some (err, 0)
       | Inr val \<Rightarrow> map_option (Pair 0)
           (cast_arg (Arg_bitshift (xs ! unat n)) (Arg_signed (xs ! unat n)) val)
     else Some (-1, 0))"
proof -
  have ids: "ids = assigned arch (p # ps) 0"
    using krn.PopulateSpecMap_spec [OF assms(1)] by (simp add: populated_def)
  then have "length ids = Suc (length ps)" by (simp only: length_assigned) simp
  then have "Suc i < max (length ids) (length user)" "Suc i < length ids" using assms(6) by simp_all
  moreover have "ids ! Suc i = 0" using assigned_none [of "Suc i" "p # ps" arch 0] assms(6,7) by (simp add: ids)
  ultimately have id: "bpf_usdt_spec_id ctx = 0"
    using cookie_at_split(1) [of ctx ids user "Suc i"] assms(8) by (simp add: MergeCookies_nth)
  have "map_lookup w' m (ids ! 0) = Some (SpecToBytes (spec_with xs))"
    using krn.PopulateSpecMap_lookup [OF assms(1) _ _, of 0 "spec_with xs"] assms(2,3) by simp
  moreover have "ids ! 0 = 0" using assms(3) by (simp add: ids)
  ultimately have "map_lookup w' m (bpf_usdt_spec_id ctx) = Some (SpecToBytes (spec_with xs))" using id by simp
  then show ?thesis
    using bpf_usdt_arg_stored [of "map_lookup w' m" ctx xs arch n] id assms(4,5) by simp
qed

lemma populate_two:
  assumes "probe_spec goarch p = Some spec" "Arguments q = []"
  shows "PopulateSpecMap goarch map_Put m [p, q] n empty_kernel = (Inr [n, 0], one_stored m n spec)"
  using assms probe_spec_size [OF assms(1)]
  by (simp add: PopulateSpecMap_def probe_spec_Some map_Put_def spec_value_size_def empty_kernel_def
      map_lookup_def BPF_USDT_MAX_SPEC_CNT_def one_stored_def)

theorem spec_id_zero_is_live_witness:
  "bpf_usdt_arg ''amd64'' (map_lookup (one_stored 3 0 (spec_with [nine])) 3)
    \<lparr>ctx_regs = [], ctx_cookie = MergeCookies [0, 0] [] ! 1, ctx_user = (\<lambda>_. None)\<rparr> 0 = Some (0, - 9)"
proof -
  let ?ctx = "\<lparr>ctx_regs = [], ctx_cookie = MergeCookies [0, 0] [] ! 1, ctx_user = (\<lambda>_. None)\<rparr>"
  have "ArgSpec_wf nine" by code_simp
  then have "bpf_usdt_arg ''amd64'' (map_lookup (one_stored 3 0 (spec_with [nine])) 3) ?ctx 0 =
    (case arg_raw ''amd64'' ?ctx nine of
         Inl err \<Rightarrow> Some (err, 0)
       | Inr val \<Rightarrow> map_option (Pair 0) (cast_arg (Arg_bitshift nine) (Arg_signed nine) val))"
    using spec_id_zero_is_live [OF populate_two [OF spec_nine, of "probe_with []" 3 0] _ spec_nine, of 0 ?ctx "[]" 0]
    by (simp add: probe_spec_def cong: sum.case_cong)
  moreover have "arg_raw ''amd64'' ?ctx nine = Inr (- 9)" by (simp add: arg_raw_def nine_def Let_def)
  moreover have "cast_arg (Arg_bitshift nine) (Arg_signed nine) (- 9) = Some (- 9)" by code_simp
  ultimately show ?thesis by simp
qed

end
