(* ===== verification/Session.thy ===== *)
theory Session
  imports Attach_Claims
begin

section \<open>Sessions: storing, attaching and closing in any order\<close>

text \<open>
  A process that uses the package with one spec map that nothing else writes: it stores the specs
  of lists of probes, attaches the probes of lists it has stored and closes what it has attached,
  in any order and any number of times, from any start IDs, also ones it has used before; each
  call can fail.
  \<open>session_step\<close> is one call of \<open>PopulateSpecMap\<close>, \<open>AttachUprobes\<close> or \<open>Close\<close> on the kernel
  objects, and \<open>session_reachable\<close> are the states of a process that begins with any map within
  its bound. Nothing is asked of the IDs; a list of probes stored earlier (\<open>batch\<close>) carries the
  IDs that calls after it may have written, because these are the ones whose specs can be
  another's. \<open>session_inv\<close> holds in all reachable states. A link is closed once: what a second
  \<open>Close\<close> does is not documented by the eBPF library.
\<close>

subsection \<open>States and steps\<close>

text \<open>
  The probes of a successful \<open>PopulateSpecMap\<close> with their IDs; what a successful \<open>AttachUprobes\<close>
  returned, with its batch; and the process.
\<close>

record batch =
  ba_probes :: "Probe list"
  ba_ids :: "u32 list"
  ba_over :: "u32 list"

record call =
  ca_batch :: nat
  ca_exe :: u64
  ca_progs :: "fd list"
  ca_user :: "u64 list"
  ca_links :: "nat ProbeLinks"

record session =
  ses_kernel :: kstate
  ses_batches :: "batch list"
  ses_calls :: "call list"

definition spec_count :: "string \<Rightarrow> Probe list \<Rightarrow> nat" where
  "spec_count arch ps = length (filter (\<lambda>p. probe_spec arch p \<noteq> None) ps)"

text \<open>The IDs that storing writes, unless it fails before: consecutive, wrapping at \<open>2^32\<close>.\<close>

definition used_ids :: "string \<Rightarrow> Probe list \<Rightarrow> u32 \<Rightarrow> u32 list" where
  "used_ids arch ps startID = map (\<lambda>j. startID + of_nat j) [0..<spec_count arch ps]"

definition overwrite :: "u32 list \<Rightarrow> batch \<Rightarrow> batch" where
  "overwrite ids b = b\<lparr>ba_over := ids @ ba_over b\<rparr>"

inductive session_step :: "string \<Rightarrow> fd \<Rightarrow> session \<Rightarrow> session \<Rightarrow> bool" for arch m where
  store:
    "PopulateSpecMap arch map_Put m ps startID (ses_kernel s) = (Inr ids, k) \<Longrightarrow>
     session_step arch m s
       (s\<lparr>ses_kernel := k,
          ses_batches := map (overwrite (used_ids arch ps startID)) (ses_batches s)
            @ [\<lparr>ba_probes = ps, ba_ids = ids, ba_over = []\<rparr>]\<rparr>)"
| store_fails:
    "PopulateSpecMap arch map_Put m ps startID (ses_kernel s) = (Inl err, k) \<Longrightarrow>
     session_step arch m s
       (s\<lparr>ses_kernel := k, ses_batches := map (overwrite (used_ids arch ps startID)) (ses_batches s)\<rparr>)"
| attach:
    "n < length (ses_batches s) \<Longrightarrow> b = ses_batches s ! n \<Longrightarrow>
     AttachUprobes exe_Uprobe link_Close exe (Some m) (ba_probes b) progs
       (Some (MergeCookies (ba_ids b) user)) (ses_kernel s) = (Inr pl, k) \<Longrightarrow>
     session_step arch m s
       (s\<lparr>ses_kernel := k,
          ses_calls := \<lparr>ca_batch = n, ca_exe = exe, ca_progs = progs, ca_user = user, ca_links = pl\<rparr> # ses_calls s\<rparr>)"
| attach_fails:
    "n < length (ses_batches s) \<Longrightarrow> b = ses_batches s ! n \<Longrightarrow>
     AttachUprobes exe_Uprobe link_Close exe (Some m) (ba_probes b) progs
       (Some (MergeCookies (ba_ids b) user)) (ses_kernel s) = (Inl err, k) \<Longrightarrow>
     session_step arch m s (s\<lparr>ses_kernel := k\<rparr>)"
| close:
    "c \<in> set (ses_calls s) \<Longrightarrow>
     Close link_Close map_Delete (ca_links c) (ses_kernel s) = (err, k) \<Longrightarrow>
     session_step arch m s (s\<lparr>ses_kernel := k, ses_calls := remove1 c (ses_calls s)\<rparr>)"

inductive session_reachable :: "string \<Rightarrow> fd \<Rightarrow> session \<Rightarrow> bool" for arch m where
  start: "bounded k \<Longrightarrow> session_reachable arch m \<lparr>ses_kernel = k, ses_batches = [], ses_calls = []\<rparr>"
| step: "session_reachable arch m s \<Longrightarrow> session_step arch m s s' \<Longrightarrow> session_reachable arch m s'"

subsection \<open>The invariant\<close>

text \<open>
  Of a stored probe: an ID that the map knows, and unless the ID was written again, under it the
  bytes of the probe's spec. Of a call: its links, each at its place with its options.
\<close>

definition stored_ok :: "string \<Rightarrow> (u32 \<Rightarrow> bytes option) \<Rightarrow> batch \<Rightarrow> nat \<Rightarrow> bool" where
  "stored_ok arch f b i \<longleftrightarrow>
     (case probe_spec arch (ba_probes b ! i) of
        None \<Rightarrow> ba_ids b ! i = 0
      | Some spec \<Rightarrow> f (ba_ids b ! i) \<noteq> None
          \<and> (length (ba_probes b) \<le> 2 ^ 32 \<longrightarrow> ba_ids b ! i \<notin> set (ba_over b) \<longrightarrow>
              f (ba_ids b ! i) = Some (SpecToBytes spec)))"

definition batch_ok :: "string \<Rightarrow> (u32 \<Rightarrow> bytes option) \<Rightarrow> batch \<Rightarrow> bool" where
  "batch_ok arch f b \<longleftrightarrow> length (ba_ids b) = length (ba_probes b)
     \<and> list_all (stored_ok arch f b) [0..<length (ba_probes b)]"

definition call_options :: "batch \<Rightarrow> u64 list \<Rightarrow> nat \<Rightarrow> UprobeOptions" where
  "call_options b user i = probe_options (Some (MergeCookies (ba_ids b) user)) i (ba_probes b ! i)"

definition call_ok :: "kstate \<Rightarrow> batch list \<Rightarrow> call \<Rightarrow> bool" where
  "call_ok k bs c \<longleftrightarrow> ca_batch c < length bs
     \<and> (let b = bs ! ca_batch c
        in length (Links (ca_links c)) = length (ba_probes b) \<and> SpecIDs (ca_links c) = []
          \<and> list_all (\<lambda>i. link_at k (Links (ca_links c) ! i)
                = Some (ca_exe c, ca_progs c ! i, call_options b (ca_user c) i)) [0..<length (ba_probes b)])"

definition session_inv :: "string \<Rightarrow> fd \<Rightarrow> session \<Rightarrow> bool" where
  "session_inv arch m s \<longleftrightarrow>
     list_all (batch_ok arch (map_lookup (ses_kernel s) m)) (ses_batches s)
     \<and> list_all (call_ok (ses_kernel s) (ses_batches s)) (ses_calls s)
     \<and> distinct (concat (map (\<lambda>c. Links (ca_links c)) (ses_calls s)))
     \<and> bounded (ses_kernel s)"

subsection \<open>What each call changes\<close>

lemma dom_store: "dom (store es f) = dom f \<union> fst ` set es"
proof (induction es arbitrary: f)
  case (Cons e es)
  obtain k p s where "e = (k, p, s)" by (cases e)
  then show ?case by (simp only: store_Cons Cons.IH) auto
qed (simp add: store_def)

lemma spec_count_entries: "length (entries arch ps n) = spec_count arch ps"
  by (induction ps arbitrary: n) (auto simp: spec_count_def split: option.split)

lemma used_ids_entries: "map fst (entries arch ps startID) = used_ids arch ps startID"
  by (simp add: entries_keys used_ids_def spec_count_entries)

text \<open>Storing, failed or not: it touches no link, and of the map only IDs it uses.\<close>

lemma populate_effect:
  assumes pop: "PopulateSpecMap arch map_Put m ps startID k = (res, k1)"
  shows "link_at k1 = link_at k" "bounded k \<Longrightarrow> bounded k1"
    and "dom (map_lookup k m) \<subseteq> dom (map_lookup k1 m)"
    and "x \<notin> set (used_ids arch ps startID) \<Longrightarrow> map_lookup k1 m x = map_lookup k m x"
proof -
  have "\<exists>es rest. entries arch ps startID = es @ rest \<and> map_lookup k1 m = store es (map_lookup k m)"
  proof (cases res)
    case Inl
    then show ?thesis using krn.PopulateSpecMap_spec [OF pop] by (auto simp: populated_def)
  next
    case Inr
    then have "map_lookup k1 m = store (entries arch ps startID) (map_lookup k m)"
      using krn.PopulateSpecMap_spec [OF pop] by (simp add: populated_def)
    then show ?thesis by (intro exI [of _ "entries arch ps startID"] exI [of _ "[]"]) simp
  qed
  then obtain es rest where es: "entries arch ps startID = es @ rest" "map_lookup k1 m = store es (map_lookup k m)"
    by blast
  show "link_at k1 = link_at k" using krn.populate_frame [of arch m ps startID k] pop by simp
  show "bounded k \<Longrightarrow> bounded k1" using populate_bounded [of k arch m ps startID] pop by simp
  show "dom (map_lookup k m) \<subseteq> dom (map_lookup k1 m)" by (simp add: es(2) dom_store)
  show "map_lookup k1 m x = map_lookup k m x" if "x \<notin> set (used_ids arch ps startID)"
    using that store_other [of x es] by (simp add: es used_ids_entries [symmetric])
qed

lemma populate_batch:
  assumes pop: "PopulateSpecMap arch map_Put m ps startID k = (Inr ids, k1)"
  shows "batch_ok arch (map_lookup k1 m) \<lparr>ba_probes = ps, ba_ids = ids, ba_over = []\<rparr>"
    and "set (used_ids arch ps startID) \<subseteq> dom (map_lookup k1 m)"
proof -
  have p: "ids = assigned arch ps startID" "map_lookup k1 m = store (entries arch ps startID) (map_lookup k m)"
    using krn.PopulateSpecMap_spec [OF pop] by (simp_all add: populated_def)
  show keys: "set (used_ids arch ps startID) \<subseteq> dom (map_lookup k1 m)"
    by (simp add: p(2) dom_store used_ids_entries [symmetric])
  have "stored_ok arch (map_lookup k1 m) \<lparr>ba_probes = ps, ba_ids = ids, ba_over = []\<rparr> i" if i: "i < length ps" for i
  proof (cases "probe_spec arch (ps ! i)")
    case None
    then show ?thesis using assigned_none [OF i] by (simp add: stored_ok_def p(1))
  next
    case (Some spec)
    have "ids ! i \<in> fst ` set (entries arch ps startID)"
      using assigned_entry [OF i Some, of startID] by (force simp: p(1))
    then have "map_lookup k1 m (ids ! i) \<noteq> None" using keys by (auto simp: used_ids_entries [symmetric])
    then show ?thesis using Some krn.PopulateSpecMap_lookup [OF pop _ i Some] by (simp add: stored_ok_def)
  qed
  then show "batch_ok arch (map_lookup k1 m) \<lparr>ba_probes = ps, ba_ids = ids, ba_over = []\<rparr>"
    by (simp add: batch_ok_def list_all_iff p(1))
qed

text \<open>Attaching and closing leave the map alone.\<close>

lemma k_maps_frames:
  "k_maps (snd (exe_Uprobe exe nm prog opts w)) = k_maps w" "k_maps (snd (link_Close l w)) = k_maps w"
  by (simp_all add: exe_Uprobe_def link_Close_def Let_def)

lemma attach_bounded:
  "bounded w \<Longrightarrow> bounded (snd (AttachUprobes exe_Uprobe link_Close exe sm ps progs cs w))"
  by (rule AttachUprobes_keeps) (simp_all add: bounded_def k_maps_frames)

lemma map_Delete_bounded: "bounded w \<Longrightarrow> bounded (snd (map_Delete m k w))"
proof -
  assume b: "bounded w"
  then show ?thesis
    by (auto simp: bounded_def map_Delete_def distinct_delete intro: order_trans [OF length_delete_le])
qed

lemma close_bounded: "bounded w \<Longrightarrow> bounded (snd (Close link_Close map_Delete pl w))"
  unfolding Close_def
  by (rule Unload_keeps) (simp_all add: map_Delete_bounded, simp add: bounded_def k_maps_frames)

lemma attach_effect:
  assumes "AttachUprobes exe_Uprobe link_Close exe sm ps progs cs k = (res, k1)"
  shows "map_lookup k1 = map_lookup k" "bounded k \<Longrightarrow> bounded k1"
    and "link_at k l \<noteq> None \<Longrightarrow> link_at k1 l = link_at k l"
proof -
  show "map_lookup k1 = map_lookup k" using krn.attach_frame [of exe sm ps progs cs k] assms by simp
  show "bounded k \<Longrightarrow> bounded k1" using attach_bounded [of k exe sm ps progs cs] assms by simp
  assume l: "link_at k l \<noteq> None"
  show "link_at k1 l = link_at k l"
  proof (cases res)
    case (Inl err)
    then show ?thesis using krn.AttachUprobes_err assms by metis
  next
    case (Inr pl)
    then have "link_at k1 |` (- set (Links pl)) = link_at k" "l \<notin> set (Links pl)"
      using krn.AttachUprobes_ok [OF assms [unfolded Inr]] l by auto
    then show ?thesis by (metis ComplI restrict_in)
  qed
qed

subsection \<open>Every step keeps the invariant\<close>

lemma batch_ok_overwrite:
  assumes "batch_ok arch f b" "dom f \<subseteq> dom f'" "\<And>x. x \<notin> set ids \<Longrightarrow> f' x = f x"
  shows "batch_ok arch f' (overwrite ids b)"
proof -
  have "stored_ok arch f b i \<Longrightarrow> stored_ok arch f' (overwrite ids b) i" for i
    using assms(2) assms(3) [of "ba_ids b ! i"] by (auto simp: stored_ok_def overwrite_def split: option.splits)
  then show ?thesis using assms(1) by (simp add: batch_ok_def overwrite_def list_all_iff)
qed

lemma call_ok_attached:
  "call_ok k bs c \<Longrightarrow> l \<in> set (Links (ca_links c)) \<Longrightarrow> link_at k l \<noteq> None"
  by (auto simp: call_ok_def Let_def list_all_iff in_set_conv_nth)

lemma call_ok_mono:
  assumes "call_ok k bs c" "\<And>l. l \<in> set (Links (ca_links c)) \<Longrightarrow> link_at k' l = link_at k l"
  shows "call_ok k' bs c"
  using assms by (auto simp: call_ok_def Let_def list_all_iff)

lemma calls_mono:
  assumes "list_all (call_ok k bs) cs" "\<And>l. link_at k l \<noteq> None \<Longrightarrow> link_at k' l = link_at k l"
  shows "list_all (call_ok k' bs) cs"
  using assms(1) call_ok_mono call_ok_attached assms(2) unfolding list_all_iff by metis

text \<open>Storing leaves probes and IDs of the batches as they are, and adds batches at the end.\<close>

lemma call_ok_batches:
  assumes "call_ok k bs c"
  shows "call_ok k (map (overwrite ids) bs @ new) c"
proof -
  have "call_options (overwrite ids b) user i = call_options b user i" "ba_probes (overwrite ids b) = ba_probes b"
    for b user i by (simp_all add: call_options_def overwrite_def)
  then show ?thesis using assms by (auto simp: call_ok_def Let_def nth_append)
qed

lemma store_inv:
  assumes pop: "PopulateSpecMap arch map_Put m ps startID (ses_kernel s) = (res, k)"
    and inv: "session_inv arch m s" and new: "list_all (batch_ok arch (map_lookup k m)) new"
  shows "session_inv arch m
    (s\<lparr>ses_kernel := k, ses_batches := map (overwrite (used_ids arch ps startID)) (ses_batches s) @ new\<rparr>)"
proof -
  note p = populate_effect [OF pop]
  have "batch_ok arch (map_lookup k m) (overwrite (used_ids arch ps startID) b)"
    if "batch_ok arch (map_lookup (ses_kernel s) m) b" for b
    using that p(3,4) by (rule batch_ok_overwrite)
  moreover have "call_ok k bs c" if "call_ok (ses_kernel s) bs c" for bs c
    using call_ok_mono [OF that] p(1) by simp
  ultimately show ?thesis
    using inv new p(2) call_ok_batches by (auto simp: session_inv_def list_all_iff)
qed

lemma attach_inv:
  assumes n: "n < length (ses_batches s)" and b: "b = ses_batches s ! n"
    and att: "AttachUprobes exe_Uprobe link_Close exe (Some m) (ba_probes b) progs
       (Some (MergeCookies (ba_ids b) user)) (ses_kernel s) = (Inr pl, k)"
    and inv: "session_inv arch m s"
  shows "session_inv arch m (s\<lparr>ses_kernel := k,
    ses_calls := \<lparr>ca_batch = n, ca_exe = exe, ca_progs = progs, ca_user = user, ca_links = pl\<rparr> # ses_calls s\<rparr>)"
proof -
  let ?c = "\<lparr>ca_batch = n, ca_exe = exe, ca_progs = progs, ca_user = user, ca_links = pl\<rparr>"
  note ok = krn.AttachUprobes_ok [OF att] and a = attach_effect [OF att]
  have old: "list_all (call_ok (ses_kernel s) (ses_batches s)) (ses_calls s)"
    using inv by (simp add: session_inv_def)
  have "list_all (call_ok k (ses_batches s)) (ses_calls s)"
    using old a(3) by (rule calls_mono)
  moreover have "call_ok k (ses_batches s) ?c"
    using ok n by (simp add: call_ok_def Let_def b [symmetric] list_all_iff call_options_def)
  moreover have "set (Links pl) \<inter> (\<Union>c\<in>set (ses_calls s). set (Links (ca_links c))) = {}"
    using ok old call_ok_attached by (fastforce simp: list_all_iff)
  ultimately show ?thesis using inv ok a(1,2) by (auto simp: session_inv_def)
qed

lemma distinct_remove1:
  assumes "distinct (concat (map f xs))" "x \<in> set xs"
  shows "distinct (concat (map f (remove1 x xs)))"
    and "y \<in> set (remove1 x xs) \<Longrightarrow> set (f x) \<inter> set (f y) = {}"
proof -
  obtain ys zs where "xs = ys @ x # zs" "x \<notin> set ys" using assms(2) by (metis split_list_first)
  then show "distinct (concat (map f (remove1 x xs)))"
    and "y \<in> set (remove1 x xs) \<Longrightarrow> set (f x) \<inter> set (f y) = {}"
    using assms(1) by (auto simp: remove1_append)
qed

lemma close_inv:
  assumes c: "c \<in> set (ses_calls s)" and cl: "Close link_Close map_Delete (ca_links c) (ses_kernel s) = (err, k)"
    and inv: "session_inv arch m s"
  shows "session_inv arch m (s\<lparr>ses_kernel := k, ses_calls := remove1 c (ses_calls s)\<rparr>)"
proof -
  let ?k = "ses_kernel s"
  have ok: "call_ok ?k (ses_batches s) c" using c inv by (simp add: session_inv_def list_all_iff)
  have d: "distinct (concat (map (\<lambda>c. Links (ca_links c)) (ses_calls s)))" using inv by (simp add: session_inv_def)
  then have dc: "distinct (Links (ca_links c))" using c by (auto simp: distinct_concat_iff)
  have ids: "SpecIDs (ca_links c) = []" using ok by (simp add: call_ok_def Let_def)
  have "\<exists>k'. Unload link_Close map_Delete (ca_links c) ?k = (None, k')
    \<and> link_at k' = link_at ?k |` (- set (Links (ca_links c)))
    \<and> map_lookup k' = (case SpecMap (ca_links c) of None \<Rightarrow> map_lookup ?k
        | Some m \<Rightarrow> (map_lookup ?k)(m := map_lookup ?k m |` (- (set (SpecIDs (ca_links c)) - {0}))))"
    using call_ok_attached [OF ok] by (intro krn.Unload_present dc) (simp_all add: ids)
  then have u: "link_at k = link_at ?k |` (- set (Links (ca_links c)))" "map_lookup k = map_lookup ?k"
    using cl by (auto simp: Close_def ids restrict_map_def fun_eq_iff split: option.splits)
  have "call_ok k (ses_batches s) c'" if c': "c' \<in> set (remove1 c (ses_calls s))" for c'
  proof (rule call_ok_mono)
    show "call_ok ?k (ses_batches s) c'"
      using inv set_remove1_subset [THEN subsetD, OF c'] by (simp add: session_inv_def list_all_iff)
    show "link_at k l = link_at ?k l" if "l \<in> set (Links (ca_links c'))" for l
      using distinct_remove1(2) [OF d c c'] that by (auto simp: u(1) restrict_map_def)
  qed
  then show ?thesis
    using inv distinct_remove1(1) [OF d c] close_bounded [of ?k "ca_links c"] cl
    by (simp add: session_inv_def u(2) list_all_iff)
qed

lemma session_step_inv:
  assumes "session_step arch m s s'" "session_inv arch m s"
  shows "session_inv arch m s'"
  using assms(1)
proof cases
  case (store ps startID ids k)
  then show ?thesis using store_inv [OF store(2) assms(2)] populate_batch(1) [OF store(2)] by simp
next
  case (store_fails ps startID err k)
  then show ?thesis using store_inv [OF store_fails(2) assms(2), of "[]"] by simp
next
  case (attach n b exe progs user pl k)
  then show ?thesis using attach_inv [OF attach(2-4) assms(2)] by simp
next
  case (attach_fails n b exe progs user err k)
  note a = attach_effect [OF attach_fails(4)]
  have "list_all (call_ok k (ses_batches s)) (ses_calls s)"
    by (rule calls_mono [OF _ a(3)]) (use assms(2) in \<open>simp_all add: session_inv_def\<close>)
  then show ?thesis using assms(2) a(1,2) by (simp add: attach_fails(1) session_inv_def)
next
  case (close c err k)
  then show ?thesis using close_inv [OF close(2,3) assms(2)] by simp
qed

lemma session_reachable_inv: "session_reachable arch m s \<Longrightarrow> session_inv arch m s"
proof (induction rule: session_reachable.induct)
  case (start k)
  then show ?case by (simp add: session_inv_def)
qed (rule session_step_inv)

subsection \<open>The properties\<close>

text \<open>What fetching argument \<open>n\<close> of a probe with a given spec gives, read off the spec.\<close>

definition spec_fetch :: "string \<Rightarrow> bpf_ctx \<Rightarrow> Spec option \<Rightarrow> u64 \<Rightarrow> (int \<times> s64) option" where
  "spec_fetch arch ctx sopt n =
     (case sopt of
        None \<Rightarrow> Some (-1, 0)
      | Some spec \<Rightarrow>
          if unat n < unat (Arg_cnt spec) then
            (case arg_raw arch ctx (Args spec ! unat n) of
               Inl err \<Rightarrow> Some (err, 0)
             | Inr val \<Rightarrow> map_option (Pair 0)
                 (cast_arg (Arg_bitshift (Args spec ! unat n)) (Arg_signed (Args spec ! unat n)) val))
          else Some (-1, 0))"

lemma fetch_stored:
  assumes "probe_spec arch p = Some spec" "specs (bpf_usdt_spec_id ctx) = Some (SpecToBytes spec)"
    and "0 \<le> sint (bpf_usdt_spec_id ctx)"
  shows "bpf_usdt_arg arch specs ctx n = spec_fetch arch ctx (Some spec) n"
proof -
  obtain xs where xs: "length xs \<le> 12" "spec = spec_with xs" "list_all (ArgSpec_valid arch) xs"
    using assms(1) ParseUSDTArguments_valid [of arch "Arguments p" spec] by (auto simp: probe_spec_Some)
  then have wf: "list_all ArgSpec_wf xs" using ArgSpec_valid_wf by (auto simp: list_all_iff)
  have "unat (Arg_cnt spec) = length xs" using xs(1,2) by (simp add: spec_with_def unat_of_nat)
  moreover have "Args spec ! i = xs ! i" if "i < length xs" for i
    using that xs(2) by (simp add: spec_with_def nth_append)
  ultimately show ?thesis
    using bpf_usdt_arg_stored [of specs ctx xs arch n] assms(2,3) xs(1,2) wf
    by (simp add: spec_fetch_def cong: sum.case_cong)
qed

text \<open>
  C19: in every state that a process which alone writes its spec map can reach by storing,
  attaching and closing (what an attachment returned, once) in any order, with any start IDs,
  failed calls included, every probe of a call that is not closed is attached where
  it should be, with its program and a cookie from which the BPF side gets the user's cookie and
  the probe's own ID. If the probe has a spec, the map has one under this ID; it is the probe's
  own, so that the fetches are those of its arguments, provided that the ID is below \<open>2^31\<close>, that
  no call of \<open>PopulateSpecMap\<close> after the one that gave it out used it again, and that this one
  had at most \<open>2^32\<close> probes. If the probe has none, its ID is 0, and the fetch fails provided that
  nothing is stored under 0.
\<close>

theorem session_serves:
  assumes "session_reachable arch m s" "c \<in> set (ses_calls s)" "b = ses_batches s ! ca_batch c"
    and "i < length (ba_probes b)"
  shows "\<exists>opts. link_at (ses_kernel s) (Links (ca_links c) ! i) = Some (ca_exe c, ca_progs c ! i, opts)
    \<and> Address opts = Location (ba_probes b ! i) \<and> RefCtrOffset opts = SemaphoreOffset (ba_probes b ! i)
    \<and> (\<forall>ctx. ctx_cookie ctx = opt_Cookie opts \<longrightarrow>
        bpf_usdt_cookie ctx = (if i < length (ca_user c) then ucast (ca_user c ! i) else 0)
        \<and> bpf_usdt_spec_id ctx = ba_ids b ! i
        \<and> (case probe_spec arch (ba_probes b ! i) of
             None \<Rightarrow> ba_ids b ! i = 0
               \<and> (map_lookup (ses_kernel s) m 0 = None \<longrightarrow>
                    bpf_usdt_arg arch (map_lookup (ses_kernel s) m) ctx n = Some (-1, 0))
           | Some spec \<Rightarrow> map_lookup (ses_kernel s) m (ba_ids b ! i) \<noteq> None
               \<and> (0 \<le> sint (ba_ids b ! i) \<and> ba_ids b ! i \<notin> set (ba_over b) \<and> length (ba_probes b) \<le> 2 ^ 32 \<longrightarrow>
                    bpf_usdt_arg arch (map_lookup (ses_kernel s) m) ctx n = spec_fetch arch ctx (Some spec) n)))"
proof -
  let ?f = "map_lookup (ses_kernel s) m" and ?opts = "call_options b (ca_user c) i"
  have c: "call_ok (ses_kernel s) (ses_batches s) c"
    and bs: "list_all (batch_ok arch ?f) (ses_batches s)"
    using session_reachable_inv [OF assms(1)] assms(2) by (simp_all add: session_inv_def list_all_iff)
  then have "ca_batch c < length (ses_batches s)" by (simp add: call_ok_def)
  then have b: "batch_ok arch ?f b" using bs nth_mem unfolding assms(3) list_all_iff by blast
  then have st: "stored_ok arch ?f b i" and i: "i < length (ba_ids b)"
    using assms(4) by (simp_all add: batch_ok_def list_all_iff)
  have cookie: "opt_Cookie ?opts = cookie_at (ba_ids b) (ca_user c) i"
    using i MergeCookies_nth [of i "ba_ids b" "ca_user c"]
    by (simp add: call_options_def probe_options_def length_MergeCookies less_max_iff_disj)
  have link: "link_at (ses_kernel s) (Links (ca_links c) ! i) = Some (ca_exe c, ca_progs c ! i, ?opts)"
    using c assms(4) by (simp add: call_ok_def Let_def assms(3) [symmetric] list_all_iff)
  have fetch: "bpf_usdt_cookie ctx = (if i < length (ca_user c) then ucast (ca_user c ! i) else 0)
      \<and> bpf_usdt_spec_id ctx = ba_ids b ! i"
    if "ctx_cookie ctx = opt_Cookie ?opts" for ctx
    using cookie_at_split [OF that [unfolded cookie]] i by simp
  show ?thesis
    by (intro exI [of _ ?opts] conjI allI impI link)
      (use fetch st fetch_stored in \<open>auto simp: stored_ok_def call_options_def probe_options_def bpf_usdt_arg_def
        split: option.splits\<close>)
qed

text \<open>The witnesses: one probe stored and attached.\<close>

definition one_call :: call where
  "one_call = \<lparr>ca_batch = 0, ca_exe = 4096, ca_progs = [5], ca_user = [5],
     ca_links = \<lparr>Links = [1], SpecIDs = [], SpecMap = Some 3\<rparr>\<rparr>"

definition one_batch :: "u32 list \<Rightarrow> batch" where
  "one_batch over = \<lparr>ba_probes = [probe_with ''-4@$-9''], ba_ids = [7], ba_over = over\<rparr>"

lemma used_one: "used_ids ''amd64'' [probe_with ''-4@$-9''] startID = [startID]"
  by (simp add: used_ids_def spec_count_def spec_nine)

lemma reach_attached:
  "session_reachable ''amd64'' 3
    \<lparr>ses_kernel = one_attached 1 5 (MergeCookies [7] [5] ! 0) (one_stored 3 7 (spec_with [nine])),
     ses_batches = [one_batch []], ses_calls = [one_call]\<rparr>"
proof -
  have k: "k_links (one_stored 3 7 (spec_with [nine])) = []" by (simp add: one_stored_def)
  have s: "session_reachable ''amd64'' 3 \<lparr>ses_kernel = empty_kernel, ses_batches = [], ses_calls = []\<rparr>"
    by (rule session_reachable.start) (simp add: empty_kernel_def bounded_def)
  have "session_step ''amd64'' 3 \<lparr>ses_kernel = empty_kernel, ses_batches = [], ses_calls = []\<rparr>
    \<lparr>ses_kernel = one_stored 3 7 (spec_with [nine]), ses_batches = [one_batch []], ses_calls = []\<rparr>"
    using session_step.store [of "''amd64''" 3 "[probe_with ''-4@$-9'']" 7
        "\<lparr>ses_kernel = empty_kernel, ses_batches = [], ses_calls = []\<rparr>"] populate_one [OF spec_nine, of 3 7]
    by (simp add: one_batch_def)
  note s = session_reachable.step [OF s this]
  have "session_step ''amd64'' 3
    \<lparr>ses_kernel = one_stored 3 7 (spec_with [nine]), ses_batches = [one_batch []], ses_calls = []\<rparr>
    \<lparr>ses_kernel = one_attached 1 5 (MergeCookies [7] [5] ! 0) (one_stored 3 7 (spec_with [nine])),
     ses_batches = [one_batch []], ses_calls = [one_call]\<rparr>"
    using session_step.attach [of 0
        "\<lparr>ses_kernel = one_stored 3 7 (spec_with [nine]), ses_batches = [one_batch []], ses_calls = []\<rparr>"
        "one_batch []" 4096 3 "[5]" "[5]"]
      attach_one [OF k, of "Some 3" "''-4@$-9''" 5 "MergeCookies [7] [5] ! 0"]
    by (simp add: one_batch_def one_call_def merge_one [symmetric])
  with s show ?thesis by (rule session_reachable.step)
qed

theorem session_serves_witness:
  "bpf_usdt_arg ''amd64''
     (map_lookup (one_attached 1 5 (MergeCookies [7] [5] ! 0) (one_stored 3 7 (spec_with [nine]))) 3)
     \<lparr>ctx_regs = [], ctx_cookie = MergeCookies [7] [5] ! 0, ctx_user = (\<lambda>_. None)\<rparr> 0 = Some (0, - 9)"
proof -
  let ?ctx = "\<lparr>ctx_regs = [], ctx_cookie = MergeCookies [7] [5] ! 0, ctx_user = (\<lambda>_. None)\<rparr>"
  have f: "spec_fetch ''amd64'' ?ctx (Some (spec_with [nine])) 0 = Some (0, - 9)" by code_simp
  have l: "link_at (one_attached 1 5 (MergeCookies [7] [5] ! 0) (one_stored 3 7 (spec_with [nine]))) 1
      = Some (4096, 5, \<lparr>Address = 16, RefCtrOffset = 0, opt_Cookie = MergeCookies [7] [5] ! 0\<rparr>)"
    by (simp add: one_attached_def link_at_def)
  show ?thesis
    using session_serves [OF reach_attached, of one_call "one_batch []" 0 0] l f
    by (auto simp: one_call_def one_batch_def spec_nine)
qed

text \<open>The IDs a batch gave out for specs, and what a full map refuses.\<close>

definition spec_ids :: "string \<Rightarrow> batch \<Rightarrow> u32 list" where
  "spec_ids arch b = map fst (filter (\<lambda>(_, p). probe_spec arch p \<noteq> None) (zip (ba_ids b) (ba_probes b)))"

lemma spec_ids_present: "batch_ok arch f b \<Longrightarrow> set (spec_ids arch b) \<subseteq> dom f"
  by (fastforce simp: batch_ok_def spec_ids_def stored_ok_def set_zip list_all_iff split: option.splits)

lemma bounded_card: "bounded k \<Longrightarrow> finite (dom (map_lookup k m)) \<and> card (dom (map_lookup k m)) \<le> BPF_USDT_MAX_SPEC_CNT"
proof -
  assume b: "bounded k"
  have "card (dom (map_lookup k m)) \<le> card (set (k_maps k m))"
    by (simp add: map_lookup_def [abs_def] dom_map_of_conv_image_fst card_image_le)
  also have "\<dots> \<le> BPF_USDT_MAX_SPEC_CNT"
    using b card_length [of "k_maps k m"] unfolding bounded_def by (meson le_trans)
  finally show ?thesis by (simp add: map_lookup_def [abs_def] finite_dom_map_of)
qed

lemma populate_full_map:
  assumes "bounded k" "card (dom (map_lookup k m)) = BPF_USDT_MAX_SPEC_CNT"
    and "x \<in> set (used_ids arch ps startID)" "map_lookup k m x = None"
  shows "\<exists>err k1. PopulateSpecMap arch map_Put m ps startID k = (Inl err, k1)"
proof -
  obtain res k1 where pop: "PopulateSpecMap arch map_Put m ps startID k = (res, k1)" by fastforce
  note p = populate_effect [OF pop]
  have False if "res = Inr ids" for ids
  proof -
    have "dom (map_lookup k m) \<subset> dom (map_lookup k1 m)"
      using populate_batch(2) [OF pop [unfolded that]] p(3) assms(3,4) by blast
    then have "card (dom (map_lookup k m)) < card (dom (map_lookup k1 m))"
      using bounded_card [OF p(2) [OF assms(1)]] by (blast intro: psubset_card_mono)
    then show False using bounded_card [OF p(2) [OF assms(1)], of m] assms(2) by simp
  qed
  then show ?thesis using pop by (cases res) auto
qed

text \<open>
  C29: specs stay: in every state a process can reach, whatever it has closed, the map has an
  entry under every ID that was given out for a spec, so that these are never more than its 256;
  and in a full map every call of \<open>PopulateSpecMap\<close> fails that would use an ID the map does not
  have yet: one that succeeds uses only IDs the map has, and replaces their specs.
\<close>

theorem session_specs_pile_up:
  assumes "session_reachable arch m s"
  shows "(let given = set (concat (map (spec_ids arch) (ses_batches s)))
      in given \<subseteq> dom (map_lookup (ses_kernel s) m) \<and> card given \<le> BPF_USDT_MAX_SPEC_CNT)
    \<and> (card (dom (map_lookup (ses_kernel s) m)) = BPF_USDT_MAX_SPEC_CNT \<longrightarrow>
        (\<forall>ps startID. \<not> set (used_ids arch ps startID) \<subseteq> dom (map_lookup (ses_kernel s) m) \<longrightarrow>
          (\<exists>err k. PopulateSpecMap arch map_Put m ps startID (ses_kernel s) = (Inl err, k))))"
proof -
  let ?given = "set (concat (map (spec_ids arch) (ses_batches s)))"
  have inv: "session_inv arch m s" using session_reachable_inv [OF assms] .
  then have b: "bounded (ses_kernel s)" and sub: "?given \<subseteq> dom (map_lookup (ses_kernel s) m)"
    using spec_ids_present by (fastforce simp: session_inv_def list_all_iff)+
  have "card ?given \<le> BPF_USDT_MAX_SPEC_CNT"
    using bounded_card [OF b, of m] card_mono [OF _ sub] by linarith
  moreover have "\<exists>err k. PopulateSpecMap arch map_Put m ps startID (ses_kernel s) = (Inl err, k)"
    if full: "card (dom (map_lookup (ses_kernel s) m)) = BPF_USDT_MAX_SPEC_CNT"
      and new: "\<not> set (used_ids arch ps startID) \<subseteq> dom (map_lookup (ses_kernel s) m)" for ps startID
  proof -
    obtain x where "x \<in> set (used_ids arch ps startID)" "map_lookup (ses_kernel s) m x = None"
      using new by blast
    then show ?thesis by (rule populate_full_map [OF b full])
  qed
  ultimately show ?thesis using sub unfolding Let_def by blast
qed

lemma full_bounded: "bounded full_kernel"
proof -
  have "inj_on (of_nat :: nat \<Rightarrow> u32) {0..<256}"
  proof (rule inj_onI)
    fix x y :: nat
    assume "x \<in> {0..<256}" "y \<in> {0..<256}" and e: "of_nat x = (of_nat y :: u32)"
    moreover have "unat (of_nat z :: u32) = z" if "z < 256" for z using that by (simp add: unat_of_nat)
    ultimately show "x = y" by (metis atLeastLessThan_iff)
  qed
  then show ?thesis by (simp add: bounded_def full_kernel_def BPF_USDT_MAX_SPEC_CNT_def distinct_map comp_def)
qed

theorem session_specs_pile_up_witness:
  "(\<exists>s. session_reachable ''amd64'' 3 s \<and> ses_calls s = [] \<and> map_lookup (ses_kernel s) 3 7 \<noteq> None)
   \<and> (\<exists>err k. PopulateSpecMap ''amd64'' map_Put 3 [probe_with ''-4@$-9''] 300 full_kernel = (Inl err, k))"
proof
  let ?k = "one_attached 1 5 (MergeCookies [7] [5] ! 0) (one_stored 3 7 (spec_with [nine]))"
  obtain err k where "Close link_Close map_Delete (ca_links one_call) ?k = (err, k)" by fastforce
  then have "session_step ''amd64'' 3 \<lparr>ses_kernel = ?k, ses_batches = [one_batch []], ses_calls = [one_call]\<rparr>
    \<lparr>ses_kernel = k, ses_batches = [one_batch []], ses_calls = []\<rparr>"
    using session_step.close [of one_call "\<lparr>ses_kernel = ?k, ses_batches = [one_batch []], ses_calls = [one_call]\<rparr>"]
    by simp
  then have r: "session_reachable ''amd64'' 3 \<lparr>ses_kernel = k, ses_batches = [one_batch []], ses_calls = []\<rparr>"
    by (rule session_reachable.step [OF reach_attached])
  have "7 \<in> set (spec_ids ''amd64'' (one_batch []))" by (simp add: spec_ids_def one_batch_def spec_nine)
  then have "map_lookup k 3 7 \<noteq> None" using session_specs_pile_up [OF r] by (auto simp: Let_def)
  with r show "\<exists>s. session_reachable ''amd64'' 3 s \<and> ses_calls s = [] \<and> map_lookup (ses_kernel s) 3 7 \<noteq> None"
    by (intro exI [of _ "\<lparr>ses_kernel = k, ses_batches = [one_batch []], ses_calls = []\<rparr>"]) simp
  have r: "session_reachable ''amd64'' 3 \<lparr>ses_kernel = full_kernel, ses_batches = [], ses_calls = []\<rparr>"
    by (rule session_reachable.start [OF full_bounded])
  have "dom (map_lookup full_kernel 3) = of_nat ` {0..<256}"
    by (simp add: map_lookup_def [abs_def] full_kernel_def dom_map_of_conv_image_fst image_image)
  moreover have "card (of_nat ` {0..<256} :: u32 set) = 256"
    using full_bounded by (simp add: bounded_def full_kernel_def distinct_map comp_def card_image)
  ultimately have full: "card (dom (map_lookup full_kernel 3)) = BPF_USDT_MAX_SPEC_CNT"
    by (simp add: BPF_USDT_MAX_SPEC_CNT_def)
  have "map_lookup full_kernel 3 300 = None" by (rule full_lookup) simp
  then have "\<not> set (used_ids ''amd64'' [probe_with ''-4@$-9''] 300) \<subseteq> dom (map_lookup full_kernel 3)"
    by (auto simp: used_one)
  then show "\<exists>err k. PopulateSpecMap ''amd64'' map_Put 3 [probe_with ''-4@$-9''] 300 full_kernel = (Inl err, k)"
    using session_specs_pile_up [OF r] full by simp
qed

end
