(* ===== verification/Loader.thy ===== *)
theory Loader
  imports Prelude
begin

section \<open>The generated loader: \<open>usdttest_x86_bpfel.go\<close>\<close>

text \<open>
  The Go code bpf2go generates around the compiled test programs; the file for arm64 is in
  \<open>Loader_Arm64\<close>. Loaded programs and maps are numbers.
  \<open>ebpf.LoadCollectionSpecFromReader\<close>, \<open>CollectionSpec.LoadAndAssign\<close> and the \<open>Close\<close> of programs
  and maps are parameters; what closing relies on is the locale \<open>closable\<close>.
\<close>

subsection \<open>Loading\<close>

definition LoadUsdtTest :: "(bytes \<Rightarrow> go_error + 'spec) \<Rightarrow> bytes \<Rightarrow> go_error + 'spec" where
  "LoadUsdtTest load UsdtTestBytes =
     (case load UsdtTestBytes of
        Inl err \<Rightarrow> Inl (LoadCollection err)
      | Inr spec \<Rightarrow> Inr spec)"

definition LoadUsdtTestObjects ::
  "(bytes \<Rightarrow> go_error + 'spec) \<Rightarrow> ('spec \<Rightarrow> 'obj \<Rightarrow> 'opts \<Rightarrow> 'w \<Rightarrow> go_error option \<times> 'w)
    \<Rightarrow> bytes \<Rightarrow> 'obj \<Rightarrow> 'opts \<Rightarrow> 'w \<Rightarrow> go_error option \<times> 'w" where
  "LoadUsdtTestObjects load LoadAndAssign UsdtTestBytes obj opts w =
     (case LoadUsdtTest load UsdtTestBytes of
        Inl err \<Rightarrow> (Some err, w)
      | Inr spec \<Rightarrow> LoadAndAssign spec obj opts w)"

subsection \<open>Names\<close>

text \<open>
  The structs before and after loading: for each field the name in its tag \<open>ebpf:"\<dots>"\<close>, by which
  \<open>Assign\<close> and \<open>LoadAndAssign\<close> find its object. A struct of structs has the fields of its parts.
\<close>

definition UsdtTestProgramSpecs :: "(string \<times> string) list" where
  "UsdtTestProgramSpecs =
     [(''ConstProbe'', ''const_probe''), (''Int32Args'', ''int32_args''), (''Int64Args'', ''int64_args''),
      (''MemoryProbe'', ''memory_probe''), (''MixedProbe'', ''mixed_probe''), (''MixedRefs'', ''mixed_refs''),
      (''SimpleProbe'', ''simple_probe''), (''Uint8Args'', ''uint8_args''), (''UsdtDummyProbe'', ''usdt_dummy_probe''),
      (''UsdtTestMulti'', ''usdt_test_multi'')]"

definition UsdtTestMapSpecs :: "(string \<times> string) list" where
  "UsdtTestMapSpecs =
     [(''BpfUsdtSpecs'', ''__bpf_usdt_specs''), (''UsdtTestResults'', ''usdt_test_results'')]"

definition UsdtTestVariableSpecs :: "(string \<times> string) list" where
  "UsdtTestVariableSpecs =
     [(''WithDebugOutput'', ''with_debug_output'')]"

definition UsdtTestSpecs :: "(string \<times> string) list" where
  "UsdtTestSpecs = UsdtTestProgramSpecs @ UsdtTestMapSpecs @ UsdtTestVariableSpecs"

definition UsdtTestPrograms_fields :: "(string \<times> string) list" where
  "UsdtTestPrograms_fields =
     [(''ConstProbe'', ''const_probe''), (''Int32Args'', ''int32_args''), (''Int64Args'', ''int64_args''),
      (''MemoryProbe'', ''memory_probe''), (''MixedProbe'', ''mixed_probe''), (''MixedRefs'', ''mixed_refs''),
      (''SimpleProbe'', ''simple_probe''), (''Uint8Args'', ''uint8_args''), (''UsdtDummyProbe'', ''usdt_dummy_probe''),
      (''UsdtTestMulti'', ''usdt_test_multi'')]"

definition UsdtTestMaps_fields :: "(string \<times> string) list" where
  "UsdtTestMaps_fields =
     [(''BpfUsdtSpecs'', ''__bpf_usdt_specs''), (''UsdtTestResults'', ''usdt_test_results'')]"

definition UsdtTestVariables_fields :: "(string \<times> string) list" where
  "UsdtTestVariables_fields =
     [(''WithDebugOutput'', ''with_debug_output'')]"

definition UsdtTestObjects_fields :: "(string \<times> string) list" where
  "UsdtTestObjects_fields = UsdtTestPrograms_fields @ UsdtTestMaps_fields @ UsdtTestVariables_fields"

subsection \<open>Closing\<close>

record UsdtTestMaps =
  BpfUsdtSpecs :: nat
  UsdtTestResults :: nat

record UsdtTestPrograms =
  ConstProbe :: nat
  Int32Args :: nat
  Int64Args :: nat
  MemoryProbe :: nat
  MixedProbe :: nat
  MixedRefs :: nat
  SimpleProbe :: nat
  Uint8Args :: nat
  UsdtDummyProbe :: nat
  UsdtTestMulti :: nat

record UsdtTestVariables =
  WithDebugOutput :: nat

record UsdtTestObjects =
  obj_Programs :: UsdtTestPrograms
  obj_Maps :: UsdtTestMaps
  obj_Variables :: UsdtTestVariables

text \<open>A closer is its method \<open>Close\<close>.\<close>

fun UsdtTestClose :: "('w \<Rightarrow> go_error option \<times> 'w) list \<Rightarrow> 'w \<Rightarrow> go_error option \<times> 'w" where
  "UsdtTestClose [] w = (None, w)"
| "UsdtTestClose (c # cs) w =
     (case c w of
        (Some err, w) \<Rightarrow> (Some err, w)
      | (None, w) \<Rightarrow> UsdtTestClose cs w)"

definition UsdtTestMaps_Close ::
  "(nat \<Rightarrow> 'w \<Rightarrow> go_error option \<times> 'w) \<Rightarrow> UsdtTestMaps \<Rightarrow> 'w \<Rightarrow> go_error option \<times> 'w" where
  "UsdtTestMaps_Close close m = UsdtTestClose [close (BpfUsdtSpecs m), close (UsdtTestResults m)]"

definition UsdtTestPrograms_Close ::
  "(nat \<Rightarrow> 'w \<Rightarrow> go_error option \<times> 'w) \<Rightarrow> UsdtTestPrograms \<Rightarrow> 'w \<Rightarrow> go_error option \<times> 'w" where
  "UsdtTestPrograms_Close close p = UsdtTestClose
     [close (ConstProbe p), close (Int32Args p), close (Int64Args p), close (MemoryProbe p),
      close (MixedProbe p), close (MixedRefs p), close (SimpleProbe p), close (Uint8Args p),
      close (UsdtDummyProbe p), close (UsdtTestMulti p)]"

definition UsdtTestObjects_Close ::
  "(nat \<Rightarrow> 'w \<Rightarrow> go_error option \<times> 'w) \<Rightarrow> UsdtTestObjects \<Rightarrow> 'w \<Rightarrow> go_error option \<times> 'w" where
  "UsdtTestObjects_Close close ob = UsdtTestClose
     [UsdtTestPrograms_Close close (obj_Programs ob), UsdtTestMaps_Close close (obj_Maps ob)]"

subsection \<open>The order of closing\<close>

text \<open>All programs and maps of the objects, in the order they are closed.\<close>

definition object_fds :: "UsdtTestObjects \<Rightarrow> nat list" where
  "object_fds ob =
     (let p = obj_Programs ob; m = obj_Maps ob
      in [ConstProbe p, Int32Args p, Int64Args p, MemoryProbe p, MixedProbe p, MixedRefs p, SimpleProbe p,
          Uint8Args p, UsdtDummyProbe p, UsdtTestMulti p, BpfUsdtSpecs m, UsdtTestResults m])"

lemma UsdtTestClose_append:
  "UsdtTestClose (xs @ ys) w =
     (case UsdtTestClose xs w of
        (Some err, w) \<Rightarrow> (Some err, w)
      | (None, w) \<Rightarrow> UsdtTestClose ys w)"
  by (induction xs arbitrary: w) (simp_all split: prod.split option.split)

lemma UsdtTestObjects_Close_fds:
  "UsdtTestObjects_Close close ob w = UsdtTestClose (map close (object_fds ob)) w"
proof -
  have "map close (object_fds ob) =
      map close (take 10 (object_fds ob)) @ map close (drop 10 (object_fds ob))"
    by (simp only: map_append [symmetric] append_take_drop_id)
  moreover have "UsdtTestPrograms_Close close (obj_Programs ob) = UsdtTestClose (map close (take 10 (object_fds ob)))"
    "UsdtTestMaps_Close close (obj_Maps ob) = UsdtTestClose (map close (drop 10 (object_fds ob)))"
    by (simp_all add: UsdtTestPrograms_Close_def UsdtTestMaps_Close_def object_fds_def Let_def)
  ultimately show ?thesis
    by (simp add: UsdtTestObjects_Close_def UsdtTestClose_append split: prod.split option.split)
qed

text \<open>
  \<open>Close\<close> of a program or map of the eBPF library: the object gives up its descriptor before the
  kernel is asked to close it, so that it is closed afterwards even if the kernel reports an
  error, and \<open>Close\<close> of a closed object does nothing and returns nil.
\<close>

definition close_each :: "(nat \<Rightarrow> 'w \<Rightarrow> go_error option \<times> 'w) \<Rightarrow> nat list \<Rightarrow> 'w \<Rightarrow> 'w" where
  "close_each close hs w = fold (\<lambda>h w. snd (close h w)) hs w"

locale closable =
  fixes close :: "nat \<Rightarrow> 'w \<Rightarrow> go_error option \<times> 'w"
    and opened :: "'w \<Rightarrow> nat set"
  assumes close_closed: "h \<notin> opened w \<Longrightarrow> close h w = (None, w)"
    and close_opened: "opened (snd (close h w)) = opened w - {h}"
begin

lemma opened_each: "opened (close_each close hs w) = opened w - set hs"
  by (induction hs arbitrary: w) (auto simp: close_each_def close_opened)

lemma close_all_closed: "set hs \<inter> opened w = {} \<Longrightarrow> UsdtTestClose (map close hs @ cs) w = UsdtTestClose cs w"
  by (induction hs) (simp_all add: close_closed)

text \<open>
  The closers are called in order up to the first error; a second run then finds those closed
  and goes on after them.
\<close>

lemma UsdtTestClose_resumes:
  assumes "UsdtTestClose (map close hs) w = (r, w')"
  shows "case r of
      None \<Rightarrow> w' = close_each close hs w \<and> opened w' = opened w - set hs \<and> UsdtTestClose (map close hs) w' = (None, w')
    | Some err \<Rightarrow> \<exists>pre h rest. hs = pre @ h # rest \<and> w' = close_each close (pre @ [h]) w
        \<and> close h (close_each close pre w) = (Some err, w') \<and> h \<in> opened w
        \<and> opened w' = opened w - set (pre @ [h])
        \<and> UsdtTestClose (map close hs) w' = UsdtTestClose (map close rest) w'"
proof -
  have split: "case r of None \<Rightarrow> w' = close_each close hs w
    | Some err \<Rightarrow> \<exists>pre h rest. hs = pre @ h # rest \<and> close h (close_each close pre w) = (Some err, w')"
    using assms
  proof (induction hs arbitrary: w)
    case (Cons h hs)
    obtain e w1 where c: "close h w = (e, w1)" by fastforce
    show ?case
    proof (cases e)
      case None
      then have "close_each close (h # pre) w = close_each close pre w1" for pre
        using c by (simp add: close_each_def)
      then show ?thesis
        using Cons.IH [of w1] Cons.prems c None by (cases r) (fastforce intro: exI [of _ "h # _"])+
    next
      case (Some err)
      then have "r = Some err" "close h (close_each close [] w) = (Some err, w')"
        using Cons.prems c by (simp_all add: close_each_def)
      then show ?thesis by fastforce
    qed
  qed (simp add: close_each_def)
  show ?thesis
  proof (cases r)
    case None
    then have "w' = close_each close hs w" using split by simp
    then show ?thesis using None opened_each [of hs w] close_all_closed [of hs w' "[]"] by auto
  next
    case (Some err)
    then obtain pre h rest where s: "hs = pre @ h # rest" "close h (close_each close pre w) = (Some err, w')"
      using split by auto
    have w': "w' = close_each close (pre @ [h]) w" using s(2) by (simp add: close_each_def)
    have o: "opened w' = opened w - set (pre @ [h])" unfolding w' by (rule opened_each)
    have "h \<in> opened (close_each close pre w)" using s(2) close_closed by fastforce
    then have "h \<in> opened w" by (simp add: opened_each)
    moreover have "UsdtTestClose (map close hs) w' = UsdtTestClose (map close rest) w'"
      using close_all_closed [of "pre @ [h]" w' "map close rest"] o s(1) by auto
    ultimately show ?thesis using Some s w' o by auto
  qed
qed

end

text \<open>
  Objects with the descriptors they still hold, some of which the kernel will not close without
  an error.
\<close>

record ebpf_objects =
  held_fds :: "nat list"
  bad_fds :: "nat list"

definition ebpf_Close :: "nat \<Rightarrow> ebpf_objects \<Rightarrow> go_error option \<times> ebpf_objects" where
  "ebpf_Close h w =
     (if h \<in> set (held_fds w) then
        (if h \<in> set (bad_fds w) then Some (ExternalError ''input/output error'') else None,
         w\<lparr>held_fds := removeAll h (held_fds w)\<rparr>)
      else (None, w))"

interpretation ebpf: closable ebpf_Close "\<lambda>w. set (held_fds w)"
  by unfold_locales (simp_all add: ebpf_Close_def)

end
