(* ===== verification/Loader_Arm64.thy ===== *)
theory Loader_Arm64
  imports Loader
begin

section \<open>The loader generated for arm64: \<open>usdttest_arm64_bpfel.go\<close>\<close>

text \<open>
  The same generator's output for the other architecture: its tables, its loading and its
  closing, on the records of \<open>Loader\<close>, and the order of closing for both.
\<close>

subsection \<open>Loading\<close>

definition LoadUsdtTest_arm64 :: "(bytes \<Rightarrow> go_error + 'spec) \<Rightarrow> bytes \<Rightarrow> go_error + 'spec" where
  "LoadUsdtTest_arm64 load UsdtTestBytes =
     (case load UsdtTestBytes of
        Inl err \<Rightarrow> Inl (LoadCollection err)
      | Inr spec \<Rightarrow> Inr spec)"

definition LoadUsdtTestObjects_arm64 ::
  "(bytes \<Rightarrow> go_error + 'spec) \<Rightarrow> ('spec \<Rightarrow> 'obj \<Rightarrow> 'opts \<Rightarrow> 'w \<Rightarrow> go_error option \<times> 'w)
    \<Rightarrow> bytes \<Rightarrow> 'obj \<Rightarrow> 'opts \<Rightarrow> 'w \<Rightarrow> go_error option \<times> 'w" where
  "LoadUsdtTestObjects_arm64 load LoadAndAssign UsdtTestBytes obj opts w =
     (case LoadUsdtTest_arm64 load UsdtTestBytes of
        Inl err \<Rightarrow> (Some err, w)
      | Inr spec \<Rightarrow> LoadAndAssign spec obj opts w)"

subsection \<open>Names\<close>

text \<open>
  The structs before and after loading: for each field the name in its tag \<open>ebpf:"\<dots>"\<close>, by which
  \<open>Assign\<close> and \<open>LoadAndAssign\<close> find its object. A struct of structs has the fields of its parts.
\<close>

definition UsdtTestProgramSpecs_arm64 :: "(string \<times> string) list" where
  "UsdtTestProgramSpecs_arm64 =
     [(''ConstProbe'', ''const_probe''), (''Int32Args'', ''int32_args''), (''Int64Args'', ''int64_args''),
      (''MemoryProbe'', ''memory_probe''), (''MixedProbe'', ''mixed_probe''), (''MixedRefs'', ''mixed_refs''),
      (''SimpleProbe'', ''simple_probe''), (''Uint8Args'', ''uint8_args''), (''UsdtDummyProbe'', ''usdt_dummy_probe''),
      (''UsdtTestMulti'', ''usdt_test_multi'')]"

definition UsdtTestMapSpecs_arm64 :: "(string \<times> string) list" where
  "UsdtTestMapSpecs_arm64 =
     [(''BpfUsdtSpecs'', ''__bpf_usdt_specs''), (''UsdtTestResults'', ''usdt_test_results'')]"

definition UsdtTestVariableSpecs_arm64 :: "(string \<times> string) list" where
  "UsdtTestVariableSpecs_arm64 =
     [(''WithDebugOutput'', ''with_debug_output'')]"

definition UsdtTestSpecs_arm64 :: "(string \<times> string) list" where
  "UsdtTestSpecs_arm64 = UsdtTestProgramSpecs_arm64 @ UsdtTestMapSpecs_arm64 @ UsdtTestVariableSpecs_arm64"

definition UsdtTestPrograms_fields_arm64 :: "(string \<times> string) list" where
  "UsdtTestPrograms_fields_arm64 =
     [(''ConstProbe'', ''const_probe''), (''Int32Args'', ''int32_args''), (''Int64Args'', ''int64_args''),
      (''MemoryProbe'', ''memory_probe''), (''MixedProbe'', ''mixed_probe''), (''MixedRefs'', ''mixed_refs''),
      (''SimpleProbe'', ''simple_probe''), (''Uint8Args'', ''uint8_args''), (''UsdtDummyProbe'', ''usdt_dummy_probe''),
      (''UsdtTestMulti'', ''usdt_test_multi'')]"

definition UsdtTestMaps_fields_arm64 :: "(string \<times> string) list" where
  "UsdtTestMaps_fields_arm64 =
     [(''BpfUsdtSpecs'', ''__bpf_usdt_specs''), (''UsdtTestResults'', ''usdt_test_results'')]"

definition UsdtTestVariables_fields_arm64 :: "(string \<times> string) list" where
  "UsdtTestVariables_fields_arm64 =
     [(''WithDebugOutput'', ''with_debug_output'')]"

definition UsdtTestObjects_fields_arm64 :: "(string \<times> string) list" where
  "UsdtTestObjects_fields_arm64 = UsdtTestPrograms_fields_arm64 @ UsdtTestMaps_fields_arm64 @ UsdtTestVariables_fields_arm64"

subsection \<open>Closing\<close>

fun UsdtTestClose_arm64 :: "('w \<Rightarrow> go_error option \<times> 'w) list \<Rightarrow> 'w \<Rightarrow> go_error option \<times> 'w" where
  "UsdtTestClose_arm64 [] w = (None, w)"
| "UsdtTestClose_arm64 (c # cs) w =
     (case c w of
        (Some err, w) \<Rightarrow> (Some err, w)
      | (None, w) \<Rightarrow> UsdtTestClose_arm64 cs w)"

definition UsdtTestMaps_Close_arm64 ::
  "(nat \<Rightarrow> 'w \<Rightarrow> go_error option \<times> 'w) \<Rightarrow> UsdtTestMaps \<Rightarrow> 'w \<Rightarrow> go_error option \<times> 'w" where
  "UsdtTestMaps_Close_arm64 close m = UsdtTestClose_arm64 [close (BpfUsdtSpecs m), close (UsdtTestResults m)]"

definition UsdtTestPrograms_Close_arm64 ::
  "(nat \<Rightarrow> 'w \<Rightarrow> go_error option \<times> 'w) \<Rightarrow> UsdtTestPrograms \<Rightarrow> 'w \<Rightarrow> go_error option \<times> 'w" where
  "UsdtTestPrograms_Close_arm64 close p = UsdtTestClose_arm64
     [close (ConstProbe p), close (Int32Args p), close (Int64Args p), close (MemoryProbe p),
      close (MixedProbe p), close (MixedRefs p), close (SimpleProbe p), close (Uint8Args p),
      close (UsdtDummyProbe p), close (UsdtTestMulti p)]"

definition UsdtTestObjects_Close_arm64 ::
  "(nat \<Rightarrow> 'w \<Rightarrow> go_error option \<times> 'w) \<Rightarrow> UsdtTestObjects \<Rightarrow> 'w \<Rightarrow> go_error option \<times> 'w" where
  "UsdtTestObjects_Close_arm64 close ob = UsdtTestClose_arm64
     [UsdtTestPrograms_Close_arm64 close (obj_Programs ob), UsdtTestMaps_Close_arm64 close (obj_Maps ob)]"

subsection \<open>Both loaders\<close>

lemma UsdtTestClose_arm64_eq: "UsdtTestClose_arm64 cs w = UsdtTestClose cs w"
  by (induction cs arbitrary: w) (simp_all split: prod.split option.split)

lemma LoadUsdtTest_agree: "LoadUsdtTest_arm64 load = LoadUsdtTest load"
  by (rule ext) (simp only: LoadUsdtTest_arm64_def LoadUsdtTest_def)

lemma loaders_agree:
  "LoadUsdtTestObjects_arm64 load assign = LoadUsdtTestObjects load assign"
  "UsdtTestMaps_Close_arm64 = UsdtTestMaps_Close"
  "UsdtTestPrograms_Close_arm64 = UsdtTestPrograms_Close"
  "UsdtTestObjects_Close_arm64 = UsdtTestObjects_Close"
proof -
  show "LoadUsdtTestObjects_arm64 load assign = LoadUsdtTestObjects load assign"
    by (intro ext) (simp only: LoadUsdtTestObjects_arm64_def LoadUsdtTestObjects_def LoadUsdtTest_agree)
  show m: "UsdtTestMaps_Close_arm64 = UsdtTestMaps_Close"
    by (intro ext) (simp only: UsdtTestMaps_Close_arm64_def UsdtTestMaps_Close_def UsdtTestClose_arm64_eq)
  show p: "UsdtTestPrograms_Close_arm64 = UsdtTestPrograms_Close"
    by (intro ext) (simp only: UsdtTestPrograms_Close_arm64_def UsdtTestPrograms_Close_def UsdtTestClose_arm64_eq)
  show "UsdtTestObjects_Close_arm64 = UsdtTestObjects_Close"
    by (intro ext) (simp only: UsdtTestObjects_Close_arm64_def UsdtTestObjects_Close_def UsdtTestClose_arm64_eq m p)
qed

text \<open>Before and after loading, on both architectures, the same names stand for the same fields.\<close>

lemma loader_fields_agree:
  "UsdtTestProgramSpecs = UsdtTestPrograms_fields" "UsdtTestMapSpecs = UsdtTestMaps_fields"
  "UsdtTestVariableSpecs = UsdtTestVariables_fields"
  "UsdtTestProgramSpecs_arm64 = UsdtTestPrograms_fields" "UsdtTestMapSpecs_arm64 = UsdtTestMaps_fields"
  "UsdtTestVariableSpecs_arm64 = UsdtTestVariables_fields"
  "UsdtTestPrograms_fields_arm64 = UsdtTestPrograms_fields" "UsdtTestMaps_fields_arm64 = UsdtTestMaps_fields"
  "UsdtTestVariables_fields_arm64 = UsdtTestVariables_fields"
  by (fact UsdtTestProgramSpecs_def [folded UsdtTestPrograms_fields_def]
      UsdtTestMapSpecs_def [folded UsdtTestMaps_fields_def]
      UsdtTestVariableSpecs_def [folded UsdtTestVariables_fields_def]
      UsdtTestProgramSpecs_arm64_def [folded UsdtTestPrograms_fields_def]
      UsdtTestMapSpecs_arm64_def [folded UsdtTestMaps_fields_def]
      UsdtTestVariableSpecs_arm64_def [folded UsdtTestVariables_fields_def]
      UsdtTestPrograms_fields_arm64_def [folded UsdtTestPrograms_fields_def]
      UsdtTestMaps_fields_arm64_def [folded UsdtTestMaps_fields_def]
      UsdtTestVariables_fields_arm64_def [folded UsdtTestVariables_fields_def])+

lemma loader_names_agree:
  "UsdtTestSpecs = UsdtTestObjects_fields" "UsdtTestSpecs_arm64 = UsdtTestObjects_fields"
  "UsdtTestObjects_fields_arm64 = UsdtTestObjects_fields"
  by (simp_all only: UsdtTestSpecs_def UsdtTestObjects_fields_def UsdtTestSpecs_arm64_def
      UsdtTestObjects_fields_arm64_def loader_fields_agree)

text \<open>
  C37: with the loader of either architecture, \<open>Close\<close> of the loaded objects closes the ten
  programs and then the two maps, in order, up to the first error. Without an error all are
  closed, and closing again does nothing. With one it is that of an object that was open and is
  closed now, as those before it are, while those after it are as they were; calling \<open>Close\<close>
  again goes on with them.
\<close>

theorem UsdtTestObjects_Close_order:
  assumes "\<And>h w. h \<notin> opened w \<Longrightarrow> close h w = (None, w)"
    and "\<And>h w. opened (snd (close h w)) = opened w - {h}"
    and "Close_objects = (if goarch = ''arm64'' then UsdtTestObjects_Close_arm64 else UsdtTestObjects_Close)"
    and "Close_objects close ob w = (r, w')"
  shows "case r of
      None \<Rightarrow> w' = close_each close (object_fds ob) w \<and> opened w' = opened w - set (object_fds ob)
        \<and> Close_objects close ob w' = (None, w')
    | Some err \<Rightarrow> \<exists>pre h rest. object_fds ob = pre @ h # rest \<and> w' = close_each close (pre @ [h]) w
        \<and> close h (close_each close pre w) = (Some err, w') \<and> h \<in> opened w
        \<and> opened w' = opened w - set (pre @ [h])
        \<and> Close_objects close ob w' = UsdtTestClose (map close rest) w'"
proof -
  have c: "closable close opened" by (rule closable.intro [OF assms(1,2)])
  have o: "Close_objects close ob w = UsdtTestClose (map close (object_fds ob)) w" for w
    unfolding assms(3) loaders_agree if_cancel by (rule UsdtTestObjects_Close_fds)
  show ?thesis unfolding o by (rule closable.UsdtTestClose_resumes [OF c assms(4) [unfolded o]])
qed

text \<open>Twelve open objects, the third of which the kernel reports an error for.\<close>

definition loaded_objects :: UsdtTestObjects where
  "loaded_objects = \<lparr>obj_Programs = \<lparr>ConstProbe = 1, Int32Args = 2, Int64Args = 3, MemoryProbe = 4,
       MixedProbe = 5, MixedRefs = 6, SimpleProbe = 7, Uint8Args = 8, UsdtDummyProbe = 9, UsdtTestMulti = 10\<rparr>,
     obj_Maps = \<lparr>BpfUsdtSpecs = 11, UsdtTestResults = 12\<rparr>, obj_Variables = \<lparr>WithDebugOutput = 13\<rparr>\<rparr>"

theorem UsdtTestObjects_Close_order_witness:
  "\<exists>err w'. UsdtTestObjects_Close ebpf_Close loaded_objects \<lparr>held_fds = [1..<13], bad_fds = [3]\<rparr> = (Some err, w')
    \<and> set (held_fds w') = {4..<13} \<and> UsdtTestObjects_Close ebpf_Close loaded_objects w' = (None, \<lparr>held_fds = [], bad_fds = [3]\<rparr>)"
proof -
  let ?w = "\<lparr>held_fds = [1..<13], bad_fds = [3]\<rparr>"
  have r: "fst (UsdtTestObjects_Close ebpf_Close loaded_objects ?w) = Some (ExternalError ''input/output error'')"
    by code_simp
  obtain w' where c: "UsdtTestObjects_Close ebpf_Close loaded_objects ?w = (Some (ExternalError ''input/output error''), w')"
    using r by (metis prod.collapse)
  from UsdtTestObjects_Close_order [of "\<lambda>w. set (held_fds w)" ebpf_Close UsdtTestObjects_Close "''amd64''",
      OF ebpf.close_closed ebpf.close_opened _ c]
  obtain pre h rest where s: "object_fds loaded_objects = pre @ h # rest" "w' = close_each ebpf_Close (pre @ [h]) ?w"
    "ebpf_Close h (close_each ebpf_Close pre ?w) = (Some (ExternalError ''input/output error''), w')"
    "UsdtTestObjects_Close ebpf_Close loaded_objects w' = UsdtTestClose (map ebpf_Close rest) w'"
    by auto
  have bad: "bad_fds (close_each ebpf_Close hs w) = bad_fds w" for hs w
    by (induction hs arbitrary: w) (simp_all add: close_each_def ebpf_Close_def)
  have h: "h = 3" using s(3) bad [of pre ?w] by (auto simp: ebpf_Close_def split: if_splits)
  have "object_fds loaded_objects = [1, 2] @ 3 # [4, 5, 6, 7, 8, 9, 10, 11, 12]"
    by (simp add: object_fds_def loaded_objects_def Let_def)
  then have pre: "pre = [1, 2]" "rest = [4, 5, 6, 7, 8, 9, 10, 11, 12]"
    using s(1) h by (auto simp: append_eq_Cons_conv Cons_eq_append_conv)
  have w': "w' = \<lparr>held_fds = [4..<13], bad_fds = [3]\<rparr>" unfolding s(2) pre h by code_simp
  have "UsdtTestClose (map ebpf_Close rest) w' = (None, \<lparr>held_fds = [], bad_fds = [3]\<rparr>)"
    unfolding pre w' by code_simp
  then show ?thesis using c s(4) by (auto simp: w')
qed

end
