(* ===== verification/Test_Bpf.thy ===== *)
theory Test_Bpf
  imports Attach_Claims Parser_Claims Loader_Arm64
begin

section \<open>The test probes: \<open>probes_linux.go\<close> and \<open>usdt_test.ebpf.c\<close>\<close>

text \<open>
  \<open>CallTestProbes\<close> fires eight probes; the handlers of \<open>usdt_test.ebpf.c\<close> fetch their arguments
  and record in a map whether they are the expected ones. Each handler is a program of its own;
  another, \<open>usdt_test_multi\<close>, serves all probes and picks the handler by the low half of the cookie.
  \<open>progByName\<close> of \<open>usdt_integration_test.go\<close> picks the program of a probe among the loaded
  objects. A handler whose argument needs an undefined shift has no result (\<^term>\<open>None\<close>).
  \<open>DEBUG_PRINT\<close> is off and left out.
\<close>

subsection \<open>The probes that are fired\<close>

text \<open>The C types of the values a probe is fired with; a pointer comes with what it points to.\<close>

datatype c_value =
    Int32 s32
  | Int64 s64
  | UInt64 u64
  | UInt8 u8
  | PtrInt32 s32
  | PtrInt64 s64
  | PtrDouble   \<comment> \<open>no handler reads the double\<close>

type_synonym firing = "string \<times> c_value list"

definition test_simple_probe :: "s32 \<Rightarrow> s64 \<Rightarrow> u64 \<Rightarrow> firing" where
  "test_simple_probe x y z = (''simple_probe'', [Int32 x, Int64 y, UInt64 z])"

definition test_memory_probe :: "s32 \<Rightarrow> s64 \<Rightarrow> firing" where
  "test_memory_probe x y = (''memory_probe'', [PtrInt32 x, PtrInt64 y])"

definition test_const_probe :: firing where
  "test_const_probe = (''const_probe'', [Int32 100])"

definition test_mixed_probe :: "s32 \<Rightarrow> s64 \<Rightarrow> s32 \<Rightarrow> firing" where
  "test_mixed_probe x y c = (''mixed_probe'', [Int32 x, PtrInt64 y, Int32 c, PtrDouble])"

definition test_probe_int32 :: "s32 \<Rightarrow> s32 \<Rightarrow> s32 \<Rightarrow> firing" where
  "test_probe_int32 a b c = (''int32_args'', [Int32 a, Int32 b, Int32 c])"

definition test_probe_int64 :: "s64 \<Rightarrow> s64 \<Rightarrow> firing" where
  "test_probe_int64 a b = (''int64_args'', [Int64 a, Int64 b])"

definition test_probe_mixed_refs :: "s32 \<Rightarrow> s64 \<Rightarrow> s32 \<Rightarrow> firing" where
  "test_probe_mixed_refs a b c = (''mixed_refs'', [PtrInt32 a, PtrInt64 b, Int32 c])"

definition test_probe_uint8 :: "u8 \<Rightarrow> u8 \<Rightarrow> firing" where
  "test_probe_uint8 a b = (''uint8_args'', [UInt8 a, UInt8 b])"

definition CallTestProbes :: "firing list" where
  "CallTestProbes =
     (let x = 42; y = 1234567890; z = 0xDEADBEEF;
          a = 10; b = 20; c = 30;
          p = 100; q = 200;
          u1 = 5; u2 = 10
      in [test_simple_probe x y z, test_memory_probe x y, test_const_probe, test_mixed_probe x y 42,
          test_probe_int32 a b c, test_probe_int64 p q, test_probe_mixed_refs a p c,
          test_probe_uint8 u1 u2])"

subsection \<open>The results map\<close>

text \<open>A hash map of at most 64 entries; a failed update is ignored.\<close>

type_synonym results = "(u32 \<times> u64) list"

definition usdt_test_results_max :: nat where
  "usdt_test_results_max = 64"

definition record_result :: "u32 \<Rightarrow> u64 \<Rightarrow> results \<Rightarrow> results" where
  "record_result probe_id value rs =
     (if map_of rs probe_id = None \<and> usdt_test_results_max \<le> length rs then rs
      else AList.update probe_id value rs)"

subsection \<open>The argument macros of \<open>usdt_args.h\<close>\<close>

text \<open>
  \<open>({ long _x; bpf_usdt_arg(ctx, k, &_x); _x; })\<close>: the value, which is 0 after an error. \<open>BPF_USDT\<close>
  and \<open>BPF_USDT_CALL\<close> fetch as many as the handler has parameters.
\<close>

definition usdt_args_value :: "string \<Rightarrow> (u32 \<Rightarrow> bytes option) \<Rightarrow> bpf_ctx \<Rightarrow> u64 \<Rightarrow> s64 option" where
  "usdt_args_value arch specs ctx k = map_option snd (bpf_usdt_arg arch specs ctx k)"

definition usdt_args1 ::
  "(s64 \<Rightarrow> 'r) \<Rightarrow> string \<Rightarrow> (u32 \<Rightarrow> bytes option) \<Rightarrow> bpf_ctx \<Rightarrow> 'r option" where
  "usdt_args1 f arch specs ctx = do { a \<leftarrow> usdt_args_value arch specs ctx 0; Some (f a) }"

definition usdt_args2 ::
  "(s64 \<Rightarrow> s64 \<Rightarrow> 'r) \<Rightarrow> string \<Rightarrow> (u32 \<Rightarrow> bytes option) \<Rightarrow> bpf_ctx \<Rightarrow> 'r option" where
  "usdt_args2 f arch specs ctx =
     do { a \<leftarrow> usdt_args_value arch specs ctx 0; b \<leftarrow> usdt_args_value arch specs ctx 1; Some (f a b) }"

definition usdt_args3 ::
  "(s64 \<Rightarrow> s64 \<Rightarrow> s64 \<Rightarrow> 'r) \<Rightarrow> string \<Rightarrow> (u32 \<Rightarrow> bytes option) \<Rightarrow> bpf_ctx \<Rightarrow> 'r option" where
  "usdt_args3 f arch specs ctx =
     do { a \<leftarrow> usdt_args_value arch specs ctx 0; b \<leftarrow> usdt_args_value arch specs ctx 1;
          c \<leftarrow> usdt_args_value arch specs ctx 2; Some (f a b c) }"

text \<open>\<open>bpf_probe_read_user\<close> of \<open>n\<close> bytes.\<close>

definition read_user :: "nat \<Rightarrow> bpf_ctx \<Rightarrow> u64 \<Rightarrow> bytes option" where
  "read_user n ctx addr =
     (let cells = map (\<lambda>i. ctx_user ctx (addr + of_nat i)) [0..<n]
      in if None \<in> set cells then None else Some (map the cells))"

subsection \<open>The handlers\<close>

definition verdict :: "u32 \<Rightarrow> bool \<Rightarrow> results \<Rightarrow> int \<times> results" where
  "verdict probe_id ok rs = (0, record_result probe_id (if ok then 1 else 0) rs)"

definition simple_probe :: "results \<Rightarrow> s64 \<Rightarrow> s64 \<Rightarrow> s64 \<Rightarrow> int \<times> results" where
  "simple_probe rs x0 y z =
     (let x = (ucast x0 :: s32) in verdict 1 (x = 42 \<and> y = 1234567890 \<and> z = 0xDEADBEEF) rs)"

definition memory_probe :: "bpf_ctx \<Rightarrow> results \<Rightarrow> s64 \<Rightarrow> s64 \<Rightarrow> int \<times> results" where
  "memory_probe ctx rs ptr0 ptr1 =
     (case read_user 4 ctx ptr0 of
        None \<Rightarrow> (-1, rs)
      | Some m0 \<Rightarrow>
          (case read_user 8 ctx ptr1 of
             None \<Rightarrow> (-1, rs)
           | Some m1 \<Rightarrow>
               (let val0 = (bytes_to_word m0 :: s32); val1 = (bytes_to_word m1 :: s64)
                in verdict 2 (val0 = 42 \<and> val1 = 1234567890) rs)))"

definition const_probe :: "results \<Rightarrow> s64 \<Rightarrow> int \<times> results" where
  "const_probe rs arg0 = verdict 3 (arg0 = 100) rs"

definition mixed_probe :: "bpf_ctx \<Rightarrow> results \<Rightarrow> s64 \<Rightarrow> s64 \<Rightarrow> s64 \<Rightarrow> int \<times> results" where
  "mixed_probe ctx rs a0 ptr1 a2 =
     (let arg0 = (ucast a0 :: s32); arg2 = (ucast a2 :: s32)
      in case read_user 8 ctx ptr1 of
           None \<Rightarrow> (-1, rs)
         | Some m1 \<Rightarrow>
             (let val1 = (bytes_to_word m1 :: s64)
              in verdict 4 (arg0 = 42 \<and> val1 = 1234567890 \<and> arg2 = 42) rs))"

definition int32_args :: "results \<Rightarrow> s64 \<Rightarrow> s64 \<Rightarrow> s64 \<Rightarrow> int \<times> results" where
  "int32_args rs a0 a1 a2 =
     (let arg0 = (ucast a0 :: s32); arg1 = (ucast a1 :: s32); arg2 = (ucast a2 :: s32)
      in verdict 5 (arg0 = 10 \<and> arg1 = 20 \<and> arg2 = 30) rs)"

definition int64_args :: "results \<Rightarrow> s64 \<Rightarrow> s64 \<Rightarrow> int \<times> results" where
  "int64_args rs arg0 arg1 = verdict 6 (arg0 = 100 \<and> arg1 = 200) rs"

definition mixed_refs :: "bpf_ctx \<Rightarrow> results \<Rightarrow> s64 \<Rightarrow> s64 \<Rightarrow> s64 \<Rightarrow> int \<times> results" where
  "mixed_refs ctx rs ptr0 ptr1 a2 =
     (let arg2 = (ucast a2 :: s32)
      in case read_user 4 ctx ptr0 of
           None \<Rightarrow> (-1, rs)
         | Some m0 \<Rightarrow>
             (case read_user 8 ctx ptr1 of
                None \<Rightarrow> (-1, rs)
              | Some m1 \<Rightarrow>
                  (let val0 = (bytes_to_word m0 :: s32); val1 = (bytes_to_word m1 :: s64)
                   in verdict 7 (val0 = 10 \<and> val1 = 100 \<and> arg2 = 30) rs)))"

definition uint8_args :: "results \<Rightarrow> s64 \<Rightarrow> s64 \<Rightarrow> int \<times> results" where
  "uint8_args rs a0 a1 =
     (let arg0 = (ucast a0 :: u8); arg1 = (ucast a1 :: u8) in verdict 8 (arg0 = 5 \<and> arg1 = 10) rs)"

definition usdt_test_multi ::
  "string \<Rightarrow> (u32 \<Rightarrow> bytes option) \<Rightarrow> bpf_ctx \<Rightarrow> results \<Rightarrow> (int \<times> results) option" where
  "usdt_test_multi arch specs ctx rs =
     (let full_cookie = ctx_cookie ctx;
          probe_id = (ucast (full_cookie AND 0xFFFFFFFF) :: u32)
      in if probe_id = 1 then usdt_args3 (simple_probe rs) arch specs ctx
         else if probe_id = 2 then usdt_args2 (memory_probe ctx rs) arch specs ctx
         else if probe_id = 3 then usdt_args1 (const_probe rs) arch specs ctx
         else if probe_id = 4 then usdt_args3 (mixed_probe ctx rs) arch specs ctx
         else if probe_id = 5 then usdt_args3 (int32_args rs) arch specs ctx
         else if probe_id = 6 then usdt_args2 (int64_args rs) arch specs ctx
         else if probe_id = 7 then usdt_args3 (mixed_refs ctx rs) arch specs ctx
         else if probe_id = 8 then usdt_args2 (uint8_args rs) arch specs ctx
         else Some (0, rs))"

subsection \<open>The programs\<close>

text \<open>
  The programs of \<open>usdt_test.ebpf.c\<close> and \<open>usdt.ebpf.c\<close> under their C names, as \<open>BPF_USDT(name, args)\<close>
  and \<open>usdt_dummy_probe\<close> define them. \<open>assigns_by_tag\<close> is what \<open>LoadAndAssign\<close> documents: each field of
  the struct gets the program its tag names.
\<close>

type_synonym program = "string \<Rightarrow> (u32 \<Rightarrow> bytes option) \<Rightarrow> bpf_ctx \<Rightarrow> results \<Rightarrow> (int \<times> results) option"

definition usdt_dummy_probe :: program where
  "usdt_dummy_probe arch specs ctx rs = (let spec_id_key = 0; spec = specs spec_id_key in Some (0, rs))"

definition usdt_test_programs :: "(string \<times> program) list" where
  "usdt_test_programs =
     [(''simple_probe'', \<lambda>arch specs ctx rs. usdt_args3 (simple_probe rs) arch specs ctx),
      (''memory_probe'', \<lambda>arch specs ctx rs. usdt_args2 (memory_probe ctx rs) arch specs ctx),
      (''const_probe'', \<lambda>arch specs ctx rs. usdt_args1 (const_probe rs) arch specs ctx),
      (''mixed_probe'', \<lambda>arch specs ctx rs. usdt_args3 (mixed_probe ctx rs) arch specs ctx),
      (''int32_args'', \<lambda>arch specs ctx rs. usdt_args3 (int32_args rs) arch specs ctx),
      (''int64_args'', \<lambda>arch specs ctx rs. usdt_args2 (int64_args rs) arch specs ctx),
      (''mixed_refs'', \<lambda>arch specs ctx rs. usdt_args3 (mixed_refs ctx rs) arch specs ctx),
      (''uint8_args'', \<lambda>arch specs ctx rs. usdt_args2 (uint8_args rs) arch specs ctx),
      (''usdt_test_multi'', usdt_test_multi),
      (''usdt_dummy_probe'', usdt_dummy_probe)]"

definition progByName :: "(string \<Rightarrow> program) \<Rightarrow> string \<Rightarrow> program option" where
  "progByName objs name =
     (if name = ''simple_probe'' then Some (objs ''SimpleProbe'')
      else if name = ''memory_probe'' then Some (objs ''MemoryProbe'')
      else if name = ''const_probe'' then Some (objs ''ConstProbe'')
      else if name = ''mixed_probe'' then Some (objs ''MixedProbe'')
      else if name = ''int32_args'' then Some (objs ''Int32Args'')
      else if name = ''int64_args'' then Some (objs ''Int64Args'')
      else if name = ''mixed_refs'' then Some (objs ''MixedRefs'')
      else if name = ''uint8_args'' then Some (objs ''Uint8Args'')
      else None)"

definition loader_programs :: "string \<Rightarrow> (string \<times> string) list" where
  "loader_programs arch = (if arch = ''arm64'' then UsdtTestPrograms_fields_arm64 else UsdtTestPrograms_fields)"

definition assigns_by_tag :: "(string \<times> string) list \<Rightarrow> (string \<times> program) list \<Rightarrow> (string \<Rightarrow> program) \<Rightarrow> bool" where
  "assigns_by_tag fs progs objs \<longleftrightarrow> list_all (\<lambda>(f, tag). map_of progs tag = Some (objs f)) fs"

lemma loader_programs_eq: "loader_programs arch = UsdtTestPrograms_fields"
  by (simp add: loader_programs_def UsdtTestPrograms_fields_arm64_def UsdtTestPrograms_fields_def)

subsection \<open>The verdicts\<close>

text \<open>
  The argument a handler fetches for a value: an integer extended to 64 bits by its type, or an
  address at which the pointed-to integer can be read.
\<close>

fun carries :: "bpf_ctx \<Rightarrow> c_value \<Rightarrow> s64 \<Rightarrow> bool" where
  "carries ctx (Int32 v) r = (r = scast v)"
| "carries ctx (Int64 v) r = (r = v)"
| "carries ctx (UInt64 v) r = (r = v)"
| "carries ctx (UInt8 v) r = (r = ucast v)"
| "carries ctx (PtrInt32 v) r = (read_user 4 ctx r = Some (word_to_bytes v))"
| "carries ctx (PtrInt64 v) r = (read_user 8 ctx r = Some (word_to_bytes v))"
| "carries ctx PtrDouble r = True"

fun same_type :: "c_value \<Rightarrow> c_value \<Rightarrow> bool" where
  "same_type (Int32 _) (Int32 _) = True"
| "same_type (Int64 _) (Int64 _) = True"
| "same_type (UInt64 _) (UInt64 _) = True"
| "same_type (UInt8 _) (UInt8 _) = True"
| "same_type (PtrInt32 _) (PtrInt32 _) = True"
| "same_type (PtrInt64 _) (PtrInt64 _) = True"
| "same_type PtrDouble PtrDouble = True"
| "same_type _ _ = False"

lemma same_type_iff [simp]:
  "same_type v (Int32 x) \<longleftrightarrow> (\<exists>y. v = Int32 y)" "same_type v (Int64 x') \<longleftrightarrow> (\<exists>y. v = Int64 y)"
  "same_type v (UInt64 x') \<longleftrightarrow> (\<exists>y. v = UInt64 y)" "same_type v (UInt8 z) \<longleftrightarrow> (\<exists>y. v = UInt8 y)"
  "same_type v (PtrInt32 x) \<longleftrightarrow> (\<exists>y. v = PtrInt32 y)" "same_type v (PtrInt64 x') \<longleftrightarrow> (\<exists>y. v = PtrInt64 y)"
  "same_type v PtrDouble \<longleftrightarrow> v = PtrDouble"
  by (cases v; simp)+

lemma widened [simp]:
  "(ucast (scast (v :: s32) :: s64) :: s32) = v" "(ucast (ucast (u :: u8) :: s64) :: u8) = u"
  "(scast (v :: s32) :: s64) = 100 \<longleftrightarrow> v = 100"
proof -
  show v: "(ucast (scast v :: s64) :: s32) = v" for v :: s32
  proof (rule bit_word_eqI)
    fix n assume "n < LENGTH(32)"
    then show "bit (ucast (scast v :: s64) :: s32) n = bit v n"
      by (cases "n = 31") (simp_all add: bit_simps min_def)
  qed
  show "(ucast (ucast u :: s64) :: u8) = u" by (rule bit_word_eqI) (simp add: bit_simps)
  have "v = 100" if "(scast v :: s64) = 100" using v [of v] by (simp add: that)
  then show "(scast v :: s64) = 100 \<longleftrightarrow> v = 100" by auto
qed

lemmas handler_defs = simple_probe_def memory_probe_def const_probe_def mixed_probe_def int32_args_def
  int64_args_def mixed_refs_def uint8_args_def

lemmas firing_defs = test_simple_probe_def test_memory_probe_def test_const_probe_def test_mixed_probe_def
  test_probe_int32_def test_probe_int64_def test_probe_mixed_refs_def test_probe_uint8_def

lemma CallTestProbes_nth:
  "CallTestProbes ! 0 = (''simple_probe'', [Int32 42, Int64 1234567890, UInt64 0xDEADBEEF])"
  "CallTestProbes ! Suc 0 = (''memory_probe'', [PtrInt32 42, PtrInt64 1234567890])"
  "CallTestProbes ! 2 = (''const_probe'', [Int32 100])"
  "CallTestProbes ! 3 = (''mixed_probe'', [Int32 42, PtrInt64 1234567890, Int32 42, PtrDouble])"
  "CallTestProbes ! 4 = (''int32_args'', [Int32 10, Int32 20, Int32 30])"
  "CallTestProbes ! 5 = (''int64_args'', [Int64 100, Int64 200])"
  "CallTestProbes ! 6 = (''mixed_refs'', [PtrInt32 10, PtrInt64 100, Int32 30])"
  "CallTestProbes ! 7 = (''uint8_args'', [UInt8 5, UInt8 10])"
  by (simp_all add: CallTestProbes_def firing_defs Let_def)

lemma less_8: "j < 8 \<Longrightarrow> j = 0 \<or> j = 1 \<or> j = 2 \<or> j = 3 \<or> j = 4 \<or> j = 5 \<or> j = 6 \<or> j = (7 :: nat)"
  by linarith

text \<open>The program on a context that carries values of the right types.\<close>

lemma multi_verdict:
  assumes j: "j < 8" "bpf_usdt_cookie ctx = of_nat (Suc j)"
    and types: "list_all2 same_type vals (snd (CallTestProbes ! j))"
    and fetch: "\<And>n. n < length vals \<Longrightarrow>
      \<exists>r. bpf_usdt_arg arch specs ctx (of_nat n) = Some (0, r) \<and> carries ctx (vals ! n) r"
  shows "usdt_test_multi arch specs ctx rs
    = Some (verdict (of_nat (Suc j)) (vals = snd (CallTestProbes ! j)) rs)"
proof -
  have args: "\<exists>r. usdt_args_value arch specs ctx (of_nat n) = Some r \<and> carries ctx (vals ! n) r"
    if "n < length vals" for n
    using fetch [OF that] by (auto simp: usdt_args_value_def)
  have id: "(ucast (ctx_cookie ctx AND 0xFFFFFFFF) :: u32) = of_nat (Suc j)"
    using j(2) by (simp add: bpf_usdt_cookie_def)
  from less_8 [OF j(1)] show ?thesis
  proof (elim disjE)
  qed (use types args [of 0] args [of 1] args [of 2] id in
    \<open>auto simp: CallTestProbes_nth list_all2_Cons2 usdt_test_multi_def usdt_args1_def usdt_args2_def
       usdt_args3_def handler_defs le32.dec_enc le64.dec_enc\<close>)
qed

text \<open>The loaded programs; a probe's own one does what the dispatcher does for its ID.\<close>

lemma loaded_programs:
  assumes "assigns_by_tag (loader_programs arch) usdt_test_programs objs"
  shows "objs ''SimpleProbe'' = (\<lambda>arch specs ctx rs. usdt_args3 (simple_probe rs) arch specs ctx)"
    "objs ''MemoryProbe'' = (\<lambda>arch specs ctx rs. usdt_args2 (memory_probe ctx rs) arch specs ctx)"
    "objs ''ConstProbe'' = (\<lambda>arch specs ctx rs. usdt_args1 (const_probe rs) arch specs ctx)"
    "objs ''MixedProbe'' = (\<lambda>arch specs ctx rs. usdt_args3 (mixed_probe ctx rs) arch specs ctx)"
    "objs ''Int32Args'' = (\<lambda>arch specs ctx rs. usdt_args3 (int32_args rs) arch specs ctx)"
    "objs ''Int64Args'' = (\<lambda>arch specs ctx rs. usdt_args2 (int64_args rs) arch specs ctx)"
    "objs ''MixedRefs'' = (\<lambda>arch specs ctx rs. usdt_args3 (mixed_refs ctx rs) arch specs ctx)"
    "objs ''Uint8Args'' = (\<lambda>arch specs ctx rs. usdt_args2 (uint8_args rs) arch specs ctx)"
    "objs ''UsdtTestMulti'' = usdt_test_multi"
  using assms unfolding loader_programs_eq
  by (simp_all add: assigns_by_tag_def UsdtTestPrograms_fields_def usdt_test_programs_def)

lemma own_program:
  assumes "assigns_by_tag (loader_programs arch') usdt_test_programs objs"
    and "j < 8" "bpf_usdt_cookie ctx = of_nat (Suc j)"
  shows "\<exists>own. progByName objs (fst (CallTestProbes ! j)) = Some own
    \<and> own arch specs ctx rs = usdt_test_multi arch specs ctx rs"
proof -
  have id: "(ucast (ctx_cookie ctx AND 0xFFFFFFFF) :: u32) = of_nat (Suc j)"
    using assms(3) by (simp add: bpf_usdt_cookie_def)
  from less_8 [OF assms(2)] show ?thesis
  proof (elim disjE)
  qed (use id in \<open>simp add: CallTestProbes_nth progByName_def usdt_test_multi_def loaded_programs [OF assms(1)]\<close>)+
qed

subsection \<open>The property\<close>

text \<open>
  C20: the test programs tell the truth. When the \<open>j\<close>-th test probe's spec is stored from its
  argument string, its cookie carries \<open>j + 1\<close>, and the string's arguments hold values of the types
  of the probe, then both its own program, the one \<open>progByName\<close> takes from the loaded objects for its
  name, and the loaded dispatcher record 1 for it if the values are those \<open>CallTestProbes\<close> fires it
  with, and 0 otherwise. The objects are those of the loader of either architecture.
\<close>

theorem test_probe_verdicts:
  assumes "PopulateSpecMap arch map_Put m ps startID w = (Inr ids, w')"
    and "unat startID + length ps \<le> 2 ^ 31"
    and "i < length ps" "Arguments (ps ! i) = args_text u g a its v"
    and "tight g a" "arg_wf a" "list_all item_ok its"
    and "list_all is_ascii_space u" "list_all is_ascii_space v" "length its \<le> 11"
    and "list_all2 (\<lambda>a x. denote arch a = Inr x) (a # item_args its) xs"
    and "list_all (\<lambda>a. arg_size (int_value (size_text a))) (a # item_args its)"
    and "ctx_wf arch ctx" "ctx_cookie ctx = MergeCookies ids user ! i"
    and "j < 8" "i < length user" "ucast (user ! i) = (of_nat (Suc j) :: u32)"
    and "list_all2 same_type vals (snd (CallTestProbes ! j))"
    and "list_all2 (\<lambda>a v. \<exists>r. arg_result arch ctx a = (0, r) \<and> carries ctx v r) (a # item_args its) vals"
    and "assigns_by_tag (loader_programs arch) usdt_test_programs objs"
  shows "\<exists>own. progByName objs (fst (CallTestProbes ! j)) = Some own
    \<and> (\<forall>prog \<in> {own, objs ''UsdtTestMulti''}. prog arch (map_lookup w' m) ctx rs =
      Some (0, record_result (of_nat (Suc j)) (if vals = snd (CallTestProbes ! j) then 1 else 0) rs))"
proof -
  have "i < max (length ids) (length user)" using assms(16) by simp
  then have "ctx_cookie ctx = cookie_at ids user i" using assms(14) by (simp add: MergeCookies_nth)
  then have id: "bpf_usdt_cookie ctx = of_nat (Suc j)"
    using cookie_at_split(2) [of ctx ids user i] assms(16,17) by simp
  have len: "length vals = Suc (length its)"
    using list_all2_lengthD [OF assms(19)] by (simp add: item_args_def)
  have "\<exists>r. bpf_usdt_arg arch (map_lookup w' m) ctx (of_nat n) = Some (0, r) \<and> carries ctx (vals ! n) r"
    if n: "n < length vals" for n
  proof -
    have "unat (of_nat n :: u64) = n" using n len assms(10) by (simp add: unat_of_nat)
    moreover have "\<exists>r. arg_result arch ctx ((a # item_args its) ! n) = (0, r) \<and> carries ctx (vals ! n) r"
      using list_all2_nthD2 [OF assms(19) n] .
    ultimately show ?thesis using probe_values [OF assms(1-14), of "of_nat n"] n len by auto
  qed
  from multi_verdict [OF assms(15) id assms(18) this, of rs] own_program [OF assms(20,15) id, of arch "map_lookup w' m" rs]
  show ?thesis by (auto simp: verdict_def loaded_programs(9) [OF assms(20)])
qed

theorem test_probe_verdicts_witness:
  "\<exists>own w. map_of usdt_test_programs ''const_probe'' = Some own \<and> own ''amd64'' (map_lookup w 3)
      \<lparr>ctx_regs = saved (replicate 21 0), ctx_cookie = MergeCookies [7] [3] ! 0, ctx_user = (\<lambda>_. None)\<rparr> []
    = Some (0, [(3, 1)])"
proof -
  let ?ctx = "\<lparr>ctx_regs = saved (replicate 21 0), ctx_cookie = MergeCookies [7] [3] ! 0, ctx_user = (\<lambda>_. None)\<rparr>"
  let ?objs = "\<lambda>f. the (map_of usdt_test_programs (the (map_of UsdtTestPrograms_fields f)))"
  let ?a = "ArgSyntax ''-4'' False (DollarConst ''100'')"
  let ?x = "spec_of ArgConst 100 RegNone (- 4) False"
  have a: "arg_wf ?a" and sz: "arg_size (int_value (size_text ?a))" and d: "denote ''amd64'' ?a = Inr ?x"
    by code_simp+
  have t: "Arguments ([probe_with ''-4@$100''] ! 0) = args_text [] no_gaps ?a [] []"
    by (simp add: args_text_def join_def item_texts_def render_def float_text_def)
  have "ParseUSDTArguments ''amd64'' ''-4@$100'' = Inr (spec_with [?x])" by code_simp
  then have p: "probe_spec ''amd64'' (probe_with ''-4@$100'') = Some (spec_with [?x])" by (simp add: probe_spec_Some)
  have "int_value ''100'' = 100" "int_value ''-4'' = - 4" "resize (- 4) 100 = 100" by code_simp+
  then have r: "arg_result ''amd64'' ?ctx ?a = (0, 100)" by (simp add: arg_result_def)
  have "list_all2 (\<lambda>a x. denote ''amd64'' a = Inr x) (?a # item_args []) [?x]"
    using d by (simp only: item_args_def list.map list_all2_Cons list_all2_Nil simp_thms)
  moreover have "list_all2 same_type [Int32 100] (snd (CallTestProbes ! 2))" by (simp add: CallTestProbes_nth)
  moreover have "list_all2 (\<lambda>a v. \<exists>r. arg_result ''amd64'' ?ctx a = (0, r) \<and> carries ?ctx v r) (?a # item_args []) [Int32 100]"
    using r by (simp add: item_args_def)
  moreover have "ctx_wf ''amd64'' ?ctx" by (simp add: ctx_wf_def sizeof_pt_regs)
  moreover have objs: "assigns_by_tag (loader_programs ''amd64'') usdt_test_programs ?objs"
    unfolding loader_programs_eq by (simp add: assigns_by_tag_def UsdtTestPrograms_fields_def usdt_test_programs_def)
  ultimately have "\<exists>own. progByName ?objs (fst (CallTestProbes ! 2)) = Some own
    \<and> (\<forall>prog \<in> {own, ?objs ''UsdtTestMulti''}. prog ''amd64'' (map_lookup (one_stored 3 7 (spec_with [?x])) 3) ?ctx [] =
      Some (0, record_result (of_nat (Suc 2)) (if [Int32 100] = snd (CallTestProbes ! 2) then 1 else 0) []))"
    using test_probe_verdicts [OF populate_one [OF p, of 3 7] _ _ t, of "[?x]" ?ctx "[3]" 2 "[Int32 100]" ?objs "[]"] a sz
    by (simp add: item_args_def)
  then obtain own where own: "progByName ?objs ''const_probe'' = Some own"
    "own ''amd64'' (map_lookup (one_stored 3 7 (spec_with [?x])) 3) ?ctx [] =
      Some (0, record_result (of_nat (Suc 2)) 1 [])"
    by (auto simp: CallTestProbes_nth)
  have "map_of usdt_test_programs ''const_probe'' = Some own"
    using own(1) loaded_programs(3) [OF objs] by (simp add: progByName_def usdt_test_programs_def)
  then show ?thesis using own(2) by (auto simp: record_result_def usdt_test_results_max_def)
qed

end
