(* ===== verification/Layout.thy ===== *)
theory Layout
  imports Spec_Bytes
begin

section \<open>Constants and layouts shared by three languages\<close>

text \<open>
  The package's types exist four times: in C (\<open>ebpf/usdt_defs.h\<close>), in the list of names
  \<open>types_def.go\<close> from which cgo makes \<open>types.go\<close>, in \<open>types.go\<close> (\<open>Types\<close>), and in the loader
  that bpf2go makes from the compiled C for each architecture (\<open>usdttest_*_bpfel.go\<close>). Here the enumerators get the
  values and the structs the layouts the rules of C and Go give them.
\<close>

subsection \<open>Enumerators\<close>

text \<open>An enumerator without a value is one more than the one before it.\<close>

type_synonym enumerators = "(string \<times> nat option) list"

fun enum_values :: "enumerators \<Rightarrow> nat \<Rightarrow> (string \<times> nat) list" where
  "enum_values [] k = []"
| "enum_values ((n, v) # es) k =
     (let k = (case v of None \<Rightarrow> k | Some k' \<Rightarrow> k') in (n, k) # enum_values es (Suc k))"

definition bpf_usdt_arg_type :: enumerators where
  "bpf_usdt_arg_type =
     [(''BPF_USDT_ARG_CONST'', None), (''BPF_USDT_ARG_REG'', None), (''BPF_USDT_ARG_REG_DEREF'', None)]"

definition bpf_usdt_register :: enumerators where
  "bpf_usdt_register = [
      (''BPF_USDT_REG_NONE'', Some 0), (''BPF_USDT_REG_RAX'', Some 1), (''BPF_USDT_REG_RBX'', Some 2),
      (''BPF_USDT_REG_RCX'', Some 3), (''BPF_USDT_REG_RDX'', Some 4), (''BPF_USDT_REG_RSI'', Some 5),
      (''BPF_USDT_REG_RDI'', Some 6), (''BPF_USDT_REG_RBP'', Some 7), (''BPF_USDT_REG_RSP'', Some 8),
      (''BPF_USDT_REG_R8'', Some 9), (''BPF_USDT_REG_R9'', Some 10), (''BPF_USDT_REG_R10'', Some 11),
      (''BPF_USDT_REG_R11'', Some 12), (''BPF_USDT_REG_R12'', Some 13), (''BPF_USDT_REG_R13'', Some 14),
      (''BPF_USDT_REG_R14'', Some 15), (''BPF_USDT_REG_R15'', Some 16), (''BPF_USDT_REG_RIP'', Some 17),
      (''BPF_USDT_REG_X0'', Some 32), (''BPF_USDT_REG_X1'', Some 33), (''BPF_USDT_REG_X2'', Some 34),
      (''BPF_USDT_REG_X3'', Some 35), (''BPF_USDT_REG_X4'', Some 36), (''BPF_USDT_REG_X5'', Some 37),
      (''BPF_USDT_REG_X6'', Some 38), (''BPF_USDT_REG_X7'', Some 39), (''BPF_USDT_REG_X8'', Some 40),
      (''BPF_USDT_REG_X9'', Some 41), (''BPF_USDT_REG_X10'', Some 42), (''BPF_USDT_REG_X11'', Some 43),
      (''BPF_USDT_REG_X12'', Some 44), (''BPF_USDT_REG_X13'', Some 45), (''BPF_USDT_REG_X14'', Some 46),
      (''BPF_USDT_REG_X15'', Some 47), (''BPF_USDT_REG_X16'', Some 48), (''BPF_USDT_REG_X17'', Some 49),
      (''BPF_USDT_REG_X18'', Some 50), (''BPF_USDT_REG_X19'', Some 51), (''BPF_USDT_REG_X20'', Some 52),
      (''BPF_USDT_REG_X21'', Some 53), (''BPF_USDT_REG_X22'', Some 54), (''BPF_USDT_REG_X23'', Some 55),
      (''BPF_USDT_REG_X24'', Some 56), (''BPF_USDT_REG_X25'', Some 57), (''BPF_USDT_REG_X26'', Some 58),
      (''BPF_USDT_REG_X27'', Some 59), (''BPF_USDT_REG_X28'', Some 60), (''BPF_USDT_REG_X29'', Some 61),
      (''BPF_USDT_REG_X30'', Some 62), (''BPF_USDT_REG_SP'', Some 63), (''BPF_USDT_REG_PC'', Some 64)]"

text \<open>\<open>types_def.go\<close>: the Go constants and the enumerators they stand for.\<close>

definition arg_type_consts :: "(string \<times> string) list" where
  "arg_type_consts =
     [(''ArgConst'', ''BPF_USDT_ARG_CONST''),
      (''ArgReg'', ''BPF_USDT_ARG_REG''),
      (''ArgRegDeref'', ''BPF_USDT_ARG_REG_DEREF'')]"

definition register_consts :: "(string \<times> string) list" where
  "register_consts = [
      (''RegNone'', ''BPF_USDT_REG_NONE''), (''RegRax'', ''BPF_USDT_REG_RAX''),
      (''RegRbx'', ''BPF_USDT_REG_RBX''), (''RegRcx'', ''BPF_USDT_REG_RCX''),
      (''RegRdx'', ''BPF_USDT_REG_RDX''), (''RegRsi'', ''BPF_USDT_REG_RSI''),
      (''RegRdi'', ''BPF_USDT_REG_RDI''), (''RegRbp'', ''BPF_USDT_REG_RBP''),
      (''RegRsp'', ''BPF_USDT_REG_RSP''), (''RegR8'', ''BPF_USDT_REG_R8''),
      (''RegR9'', ''BPF_USDT_REG_R9''), (''RegR10'', ''BPF_USDT_REG_R10''),
      (''RegR11'', ''BPF_USDT_REG_R11''), (''RegR12'', ''BPF_USDT_REG_R12''),
      (''RegR13'', ''BPF_USDT_REG_R13''), (''RegR14'', ''BPF_USDT_REG_R14''),
      (''RegR15'', ''BPF_USDT_REG_R15''), (''RegRip'', ''BPF_USDT_REG_RIP''),
      (''RegX0'', ''BPF_USDT_REG_X0''), (''RegX1'', ''BPF_USDT_REG_X1''),
      (''RegX2'', ''BPF_USDT_REG_X2''), (''RegX3'', ''BPF_USDT_REG_X3''),
      (''RegX4'', ''BPF_USDT_REG_X4''), (''RegX5'', ''BPF_USDT_REG_X5''),
      (''RegX6'', ''BPF_USDT_REG_X6''), (''RegX7'', ''BPF_USDT_REG_X7''),
      (''RegX8'', ''BPF_USDT_REG_X8''), (''RegX9'', ''BPF_USDT_REG_X9''),
      (''RegX10'', ''BPF_USDT_REG_X10''), (''RegX11'', ''BPF_USDT_REG_X11''),
      (''RegX12'', ''BPF_USDT_REG_X12''), (''RegX13'', ''BPF_USDT_REG_X13''),
      (''RegX14'', ''BPF_USDT_REG_X14''), (''RegX15'', ''BPF_USDT_REG_X15''),
      (''RegX16'', ''BPF_USDT_REG_X16''), (''RegX17'', ''BPF_USDT_REG_X17''),
      (''RegX18'', ''BPF_USDT_REG_X18''), (''RegX19'', ''BPF_USDT_REG_X19''),
      (''RegX20'', ''BPF_USDT_REG_X20''), (''RegX21'', ''BPF_USDT_REG_X21''),
      (''RegX22'', ''BPF_USDT_REG_X22''), (''RegX23'', ''BPF_USDT_REG_X23''),
      (''RegX24'', ''BPF_USDT_REG_X24''), (''RegX25'', ''BPF_USDT_REG_X25''),
      (''RegX26'', ''BPF_USDT_REG_X26''), (''RegX27'', ''BPF_USDT_REG_X27''),
      (''RegX28'', ''BPF_USDT_REG_X28''), (''RegX29'', ''BPF_USDT_REG_X29''),
      (''RegX30'', ''BPF_USDT_REG_X30''), (''RegSP'', ''BPF_USDT_REG_SP''),
      (''RegPC'', ''BPF_USDT_REG_PC'')]"

text \<open>The constants of \<open>types.go\<close> by name.\<close>

definition go_consts :: "(string \<times> nat) list" where
  "go_consts = [
      (''ArgConst'', unat ArgConst), (''ArgReg'', unat ArgReg), (''ArgRegDeref'', unat ArgRegDeref),
      (''RegNone'', unat RegNone), (''RegRax'', unat RegRax), (''RegRbx'', unat RegRbx),
      (''RegRcx'', unat RegRcx), (''RegRdx'', unat RegRdx), (''RegRsi'', unat RegRsi),
      (''RegRdi'', unat RegRdi), (''RegRbp'', unat RegRbp), (''RegRsp'', unat RegRsp),
      (''RegR8'', unat RegR8), (''RegR9'', unat RegR9), (''RegR10'', unat RegR10),
      (''RegR11'', unat RegR11), (''RegR12'', unat RegR12), (''RegR13'', unat RegR13),
      (''RegR14'', unat RegR14), (''RegR15'', unat RegR15), (''RegRip'', unat RegRip),
      (''RegX0'', unat RegX0), (''RegX1'', unat RegX1), (''RegX2'', unat RegX2),
      (''RegX3'', unat RegX3), (''RegX4'', unat RegX4), (''RegX5'', unat RegX5),
      (''RegX6'', unat RegX6), (''RegX7'', unat RegX7), (''RegX8'', unat RegX8),
      (''RegX9'', unat RegX9), (''RegX10'', unat RegX10), (''RegX11'', unat RegX11),
      (''RegX12'', unat RegX12), (''RegX13'', unat RegX13), (''RegX14'', unat RegX14),
      (''RegX15'', unat RegX15), (''RegX16'', unat RegX16), (''RegX17'', unat RegX17),
      (''RegX18'', unat RegX18), (''RegX19'', unat RegX19), (''RegX20'', unat RegX20),
      (''RegX21'', unat RegX21), (''RegX22'', unat RegX22), (''RegX23'', unat RegX23),
      (''RegX24'', unat RegX24), (''RegX25'', unat RegX25), (''RegX26'', unat RegX26),
      (''RegX27'', unat RegX27), (''RegX28'', unat RegX28), (''RegX29'', unat RegX29),
      (''RegX30'', unat RegX30), (''RegSP'', unat RegSP), (''RegPC'', unat RegPC)]"

lemma go_consts_enumerators:
  "map (\<lambda>(g, c). (g, map_of (enum_values bpf_usdt_arg_type 0 @ enum_values bpf_usdt_register 0) c))
     (arg_type_consts @ register_consts) = map (\<lambda>(g, v). (g, Some v)) go_consts"
  by code_simp

subsection \<open>Types in memory\<close>

text \<open>
  A scalar has the alignment of its size; the fields of a struct are placed at the next multiple
  of their alignment, and its size is rounded up to its own. C and Go agree on this on amd64 and
  arm64.
\<close>

datatype ctype = Scalar nat | Array ctype nat | Struct "(string \<times> ctype) list"

definition align_up :: "nat \<Rightarrow> nat \<Rightarrow> nat" where
  "align_up n a = a * ((n + a - 1) div a)"

fun alignof :: "ctype \<Rightarrow> nat" and fields_align :: "(string \<times> ctype) list \<Rightarrow> nat" where
  "alignof (Scalar n) = n"
| "alignof (Array t n) = alignof t"
| "alignof (Struct fs) = fields_align fs"
| "fields_align [] = 1"
| "fields_align ((f, t) # fs) = max (alignof t) (fields_align fs)"

fun sizeof :: "ctype \<Rightarrow> nat" and fields_end :: "(string \<times> ctype) list \<Rightarrow> nat \<Rightarrow> nat" where
  "sizeof (Scalar n) = n"
| "sizeof (Array t n) = n * sizeof t"
| "sizeof (Struct fs) = align_up (fields_end fs 0) (fields_align fs)"
| "fields_end [] off = off"
| "fields_end ((f, t) # fs) off = fields_end fs (align_up off (alignof t) + sizeof t)"

text \<open>
  The scalars of a type with their paths, offsets and sizes. Field names are compared without
  case and underscores, since each language has its own spelling.
\<close>

datatype path_step = Field string | Elem nat

definition plain_name :: "string \<Rightarrow> string" where
  "plain_name s =
     map (\<lambda>c. if 65 \<le> (of_char c :: nat) \<and> (of_char c :: nat) \<le> 90 then char_of ((of_char c :: nat) + 32) else c)
       (filter (\<lambda>c. c \<noteq> CHR ''_'') s)"

definition padding :: "string \<Rightarrow> bool" where
  "padding f \<longleftrightarrow> plain_name f \<in> {[], ''pad'', ''xpad'', ''padcgo0''}"

fun leaves :: "path_step list \<Rightarrow> nat \<Rightarrow> ctype \<Rightarrow> (path_step list \<times> nat \<times> nat) list"
  and field_leaves ::
    "path_step list \<Rightarrow> nat \<Rightarrow> nat \<Rightarrow> (string \<times> ctype) list \<Rightarrow> (path_step list \<times> nat \<times> nat) list" where
  "leaves path base (Scalar n) = [(path, base, n)]"
| "leaves path base (Array t n) =
     concat (map (\<lambda>i. leaves (path @ [Elem i]) (base + i * sizeof t) t) [0..<n])"
| "leaves path base (Struct fs) = field_leaves path base 0 fs"
| "field_leaves path base off [] = []"
| "field_leaves path base off ((f, t) # fs) =
     (let off = align_up off (alignof t)
      in (if padding f then [] else leaves (path @ [Field (plain_name f)]) (base + off) t)
         @ field_leaves path base (off + sizeof t) fs)"

definition layout :: "ctype \<Rightarrow> (path_step list \<times> nat \<times> nat) list" where
  "layout t = leaves [] 0 t"

subsection \<open>The structs\<close>

text \<open>\<open>ebpf/usdt_defs.h\<close>.\<close>

definition BPF_USDT_MAX_ARG_CNT :: nat where
  "BPF_USDT_MAX_ARG_CNT = 12"

definition bpf_usdt_arg_spec :: ctype where
  "bpf_usdt_arg_spec = Struct
     [(''val_off'', Scalar 8), (''arg_type'', Scalar 4), (''reg_id'', Scalar 1), (''arg_signed'', Scalar 1),
      (''arg_bitshift'', Scalar 1), (''arg_is_float'', Scalar 1), (''_pad'', Array (Scalar 1) 1)]"

definition bpf_usdt_spec :: ctype where
  "bpf_usdt_spec = Struct
     [(''args'', Array bpf_usdt_arg_spec BPF_USDT_MAX_ARG_CNT), (''usdt_cookie'', Scalar 8),
      (''arg_cnt'', Scalar 2), (''_pad'', Array (Scalar 1) 6)]"

text \<open>\<open>types.go\<close>.\<close>

definition go_ArgSpec :: ctype where
  "go_ArgSpec = Struct
     [(''Val_off'', Scalar 8), (''Arg_type'', Scalar 4), (''Reg_id'', Scalar 1), (''Arg_signed'', Scalar 1),
      (''Arg_bitshift'', Scalar 1), (''Arg_is_float'', Scalar 1), (''X_pad'', Array (Scalar 1) 1),
      (''Pad_cgo_0'', Array (Scalar 1) 7)]"

definition go_Spec :: ctype where
  "go_Spec = Struct
     [(''Args'', Array go_ArgSpec 12), (''Usdt_cookie'', Scalar 8), (''Arg_cnt'', Scalar 2),
      (''X_pad'', Array (Scalar 1) 6)]"

text \<open>The loaders for amd64 and arm64; \<open>structs.HostLayout\<close> has no fields.\<close>

definition UsdtTestBpfUsdtSpec :: ctype where
  "UsdtTestBpfUsdtSpec = Struct
     [(''_'', Struct []),
      (''Args'', Array (Struct
         [(''_'', Struct []), (''ValOff'', Scalar 8), (''ArgType'', Scalar 4), (''RegId'', Scalar 1),
          (''ArgSigned'', Scalar 1), (''ArgBitshift'', Scalar 1), (''ArgIsFloat'', Scalar 1),
          (''Pad'', Array (Scalar 1) 1), (''_'', Array (Scalar 1) 7)]) 12),
      (''UsdtCookie'', Scalar 8), (''ArgCnt'', Scalar 2), (''Pad'', Array (Scalar 1) 6)]"

definition UsdtTestBpfUsdtSpec_arm64 :: ctype where
  "UsdtTestBpfUsdtSpec_arm64 = Struct
     [(''_'', Struct []),
      (''Args'', Array (Struct
         [(''_'', Struct []), (''ValOff'', Scalar 8), (''ArgType'', Scalar 4), (''RegId'', Scalar 1),
          (''ArgSigned'', Scalar 1), (''ArgBitshift'', Scalar 1), (''ArgIsFloat'', Scalar 1),
          (''Pad'', Array (Scalar 1) 1), (''_'', Array (Scalar 1) 7)]) 12),
      (''UsdtCookie'', Scalar 8), (''ArgCnt'', Scalar 2), (''Pad'', Array (Scalar 1) 6)]"

text \<open>The layout all of them have: offsets in an argument and in the struct.\<close>

definition arg_layout :: "(string \<times> nat \<times> nat) list" where
  "arg_layout =
     [(''valoff'', 0, 8), (''argtype'', 8, 4), (''regid'', 12, 1), (''argsigned'', 13, 1),
      (''argbitshift'', 14, 1), (''argisfloat'', 15, 1)]"

definition spec_layout :: "(path_step list \<times> nat \<times> nat) list" where
  "spec_layout =
     concat (map (\<lambda>i. map (\<lambda>(f, off, n). ([Field ''args'', Elem i, Field f], 24 * i + off, n)) arg_layout) [0..<12])
     @ [([Field ''usdtcookie''], 288, 8), ([Field ''argcnt''], 296, 2)]"

lemma layouts:
  "layout bpf_usdt_spec = spec_layout" "layout go_Spec = spec_layout" "layout UsdtTestBpfUsdtSpec = spec_layout"
  "layout UsdtTestBpfUsdtSpec_arm64 = spec_layout"
  by code_simp+

lemma sizes:
  "sizeof bpf_usdt_spec = 304" "sizeof go_Spec = 304" "sizeof UsdtTestBpfUsdtSpec = 304"
  "sizeof UsdtTestBpfUsdtSpec_arm64 = 304"
  "sizeof bpf_usdt_arg_spec = 24" "sizeof go_ArgSpec = 24"
  by code_simp+

subsection \<open>Where \<open>SpecToBytes\<close> puts the fields\<close>

definition arg_field :: "string \<Rightarrow> ArgSpec \<Rightarrow> bytes" where
  "arg_field f a =
     (if f = ''valoff'' then word_to_bytes (Val_off a)
      else if f = ''argtype'' then word_to_bytes (Arg_type a)
      else if f = ''regid'' then [Reg_id a]
      else if f = ''argsigned'' then [of_bool (Arg_signed a)]
      else if f = ''argbitshift'' then [Arg_bitshift a]
      else if f = ''argisfloat'' then [of_bool (Arg_is_float a)]
      else [])"

fun field_bytes :: "path_step list \<Rightarrow> Spec \<Rightarrow> bytes" where
  "field_bytes [Field _, Elem i, Field f] s = arg_field f (Args s ! i)"
| "field_bytes [Field f] s =
     (if f = ''usdtcookie'' then word_to_bytes (Usdt_cookie s)
      else if f = ''argcnt'' then word_to_bytes (Arg_cnt s)
      else [])"
| "field_bytes _ s = []"

definition bytes_at :: "nat \<Rightarrow> nat \<Rightarrow> bytes \<Rightarrow> bytes" where
  "bytes_at off n m = take n (drop off m)"

lemma bytes_at_append:
  "off + n \<le> length a \<Longrightarrow> bytes_at off n (a @ b) = bytes_at off n a"
  "length a \<le> off \<Longrightarrow> bytes_at off n (a @ b) = bytes_at (off - length a) n b"
  by (simp_all add: bytes_at_def)

lemma bytes_at_concat:
  assumes "list_all (\<lambda>x. length (f x) = k) xs" "i < length xs" "off + n \<le> k"
  shows "bytes_at (k * i + off) n (concat (map f xs) @ r) = bytes_at off n (f (xs ! i))"
  using assms(1,2)
proof (induction xs arbitrary: i)
  case (Cons x xs)
  then show ?case using assms(3) by (cases i) (simp_all add: bytes_at_append)
qed simp

lemma arg_layout_bytes:
  assumes "(f, off, n) \<in> set arg_layout"
  shows "off + n \<le> 24" "bytes_at off n (ArgSpec_bytes a) = arg_field f a"
proof -
  define v where "v = word_to_bytes (Val_off a)"
  define t where "t = word_to_bytes (Arg_type a)"
  have l: "length v = 8" "length t = 4" by (simp_all add: v_def t_def)
  show "off + n \<le> 24" using assms by (auto simp: arg_layout_def)
  show "bytes_at off n (ArgSpec_bytes a) = arg_field f a"
  proof -
    have "ArgSpec_bytes a = v @ t @ [Reg_id a, of_bool (Arg_signed a), Arg_bitshift a,
        of_bool (Arg_is_float a)] @ Arg_X_pad a @ Pad_cgo_0 a"
      by (simp add: ArgSpec_bytes_def v_def t_def)
    then have "list_all (\<lambda>(f, off, n). bytes_at off n (ArgSpec_bytes a) = arg_field f a) arg_layout"
      by (simp add: arg_layout_def arg_field_def v_def [symmetric] t_def [symmetric] bytes_at_def l)
    then show ?thesis using assms by (auto simp only: list_all_iff)
  qed
qed

lemma spec_layout_bytes:
  assumes wf: "Spec_wf s" and e: "(path, off, n) \<in> set spec_layout"
  shows "bytes_at off n (SpecToBytes s) = field_bytes path s"
proof -
  have len: "list_all (\<lambda>a. length (ArgSpec_bytes a) = 24) (Args s)" "length (Args s) = 12"
    using wf arg_codec.enc_length by (auto simp: Spec_wf_def list_all_iff)
  then have l288: "length (concat (map ArgSpec_bytes (Args s))) = 288"
    using args_codec.arr.enc_length [of "Args s"] wf by (simp add: Spec_wf_def)
  consider i f o' where "i < 12" "(f, o', n) \<in> set arg_layout" "path = [Field ''args'', Elem i, Field f]" "off = 24 * i + o'"
    | "(path, off, n) \<in> {([Field ''usdtcookie''], 288, 8), ([Field ''argcnt''], 296, 2)}"
    using e by (auto simp: spec_layout_def)
  then show ?thesis
  proof cases
    case 1
    then show ?thesis
      using bytes_at_concat [OF len(1), of i o' n "word_to_bytes (Usdt_cookie s) @ word_to_bytes (Arg_cnt s) @ Spec_X_pad s"]
        arg_layout_bytes [OF 1(2)] len(2)
      by (simp add: SpecToBytes_def)
  next
    case 2
    then show ?thesis by (auto simp: SpecToBytes_def bytes_at_def l288)
  qed
qed

subsection \<open>The property\<close>

text \<open>
  C21: the four sources of the types agree. Every constant of \<open>types.go\<close> has the value of the
  enumerator \<open>types_def.go\<close> names; the structs of the header, of \<open>types.go\<close> and of the loaders have
  their fields at the same offsets with the same sizes, 304 bytes in all; and \<open>SpecToBytes\<close> puts
  every field of a spec there.
\<close>

theorem types_in_sync:
  assumes "Spec_wf s"
  shows "map (\<lambda>(g, c). (g, map_of (enum_values bpf_usdt_arg_type 0 @ enum_values bpf_usdt_register 0) c))
      (arg_type_consts @ register_consts) = map (\<lambda>(g, v). (g, Some v)) go_consts
    \<and> layout go_Spec = layout bpf_usdt_spec \<and> layout UsdtTestBpfUsdtSpec = layout bpf_usdt_spec
    \<and> layout UsdtTestBpfUsdtSpec_arm64 = layout bpf_usdt_spec
    \<and> sizeof go_Spec = length (SpecToBytes s) \<and> sizeof bpf_usdt_spec = length (SpecToBytes s)
    \<and> sizeof UsdtTestBpfUsdtSpec = length (SpecToBytes s) \<and> sizeof UsdtTestBpfUsdtSpec_arm64 = length (SpecToBytes s)
    \<and> list_all (\<lambda>(path, off, n). take n (drop off (SpecToBytes s)) = field_bytes path s) (layout bpf_usdt_spec)"
proof (intro conjI)
  show "list_all (\<lambda>(path, off, n). take n (drop off (SpecToBytes s)) = field_bytes path s) (layout bpf_usdt_spec)"
    using spec_layout_bytes [OF assms] by (auto simp only: layouts list_all_iff bytes_at_def)
qed (simp_all only: go_consts_enumerators layouts sizes spec_codec.enc_length [OF assms])

theorem types_in_sync_witness:
  "take 2 (drop 296 (SpecToBytes (zero_Spec\<lparr>Arg_cnt := 5\<rparr>))) = [5, 0]"
proof -
  have "Spec_wf (zero_Spec\<lparr>Arg_cnt := 5\<rparr>)" using zero_Spec_wf by (simp add: Spec_wf_def)
  then have "list_all (\<lambda>(path, off, n). take n (drop off (SpecToBytes (zero_Spec\<lparr>Arg_cnt := 5\<rparr>)))
      = field_bytes path (zero_Spec\<lparr>Arg_cnt := 5\<rparr>)) (layout bpf_usdt_spec)"
    using types_in_sync by blast
  moreover have "([Field ''argcnt''], 296, 2) \<in> set (layout bpf_usdt_spec)"
    by (simp add: layouts(1) spec_layout_def)
  ultimately have "take 2 (drop 296 (SpecToBytes (zero_Spec\<lparr>Arg_cnt := 5\<rparr>)))
      = field_bytes [Field ''argcnt''] (zero_Spec\<lparr>Arg_cnt := 5\<rparr>)"
    by (auto simp: list_all_iff)
  also have "\<dots> = [5, 0]" by code_simp
  finally show ?thesis .
qed

end
