(* ===== verification/Spec2Isabelle.thy ===== *)
theory Spec2Isabelle
  imports Cli_Claims Fetch_Claims Session Test_Bpf Layout Loader_Arm64
begin

text \<open>
  \<^bold>\<open>USDT probes for Go: parser, ELF notes, attachment and BPF argument fetching\<close>

  A program with user statically-defined tracing (USDT) probes carries, in the ELF section
  \<open>.note.stapsdt\<close>, one note for each probe: its location, its provider and name, and an argument
  string such as \<open>-4@%edi 8@-16(%rbp) -4@$7\<close>. The package does four things with them, and this
  development follows them in that order.

  \<^item> \<^emph>\<open>Reading notes.\<close> \<open>OpenELF\<close>, \<open>Sections\<close> and \<open>LoadSegments\<close> (\<open>elfreader.go\<close>) open a file
    and list its sections and loadable segments; \<open>ParseProbes\<close> (\<open>elfparse.go\<close>) walks the notes,
    undoes prelinking and turns addresses into file offsets.
  \<^item> \<^emph>\<open>Parsing arguments.\<close> \<open>ParseUSDTArguments\<close> (\<open>args.go\<close>) splits an argument string, matches each
    argument against seven regular expressions and fills a \<open>Spec\<close>: up to twelve arguments, each
    a constant, a register or a memory cell at a register plus an offset.
  \<^item> \<^emph>\<open>Attaching.\<close> \<open>PopulateSpecMap\<close> stores the serialised specs under consecutive IDs in a BPF
    map, \<open>MergeCookies\<close> packs an ID and a user cookie into 64 bits, and \<open>AttachUprobes\<close> attaches a
    program at each probe with that cookie (\<open>attach.go\<close>); \<open>Close\<close> and \<open>Unload\<close> undo it.
  \<^item> \<^emph>\<open>Fetching.\<close> When a probe is hit, \<open>bpf_usdt_arg\<close> (\<open>ebpf/usdt_args.h\<close>) takes the ID out of
    the cookie, looks the spec up and reads the argument from the saved registers.

  The command \<open>usdt\<close> (\<open>cmd/usdt/main.go\<close>) prints what the first two steps find, and a test
  program (\<open>ebpf/usdt_test.ebpf.c\<close>, \<open>internal/testbpf\<close>) drives all four.

  \<^bold>\<open>Conventions.\<close> A Go string or \<open>[]byte\<close> is a list of bytes. Integers are words of their width, so
  arithmetic wraps as in Go and C; \<^const>\<open>sint\<close> and \<^const>\<open>unat\<close> read them. A pair of a result
  and an \<open>error\<close> is a sum, \<^const>\<open>Inl\<close> the error (\<^typ>\<open>go_error\<close> in \<open>Prelude\<close> has a constructor
  for every error the code makes or wraps); a run-time panic, or undefined behaviour in C, is
  \<^const>\<open>None\<close>. What lives outside a function (open files, kernel maps and links) is a state that is
  passed in and returned. No fuel is used: every loop is a structural recursion or a \<open>function\<close>
  with a measure, and the one whose progress depends on input, the note loop, is also kept as
  a \<^const>\<open>while_option\<close> that is proved to stop. Definitions keep the names of the source.

  \<^bold>\<open>Theories and sources.\<close>

  \<^item> \<open>Prelude\<close>: types, errors, slices and indexing that can panic, and the lemmas on them that the
    other theories share.
  \<^item> \<open>Go_Std\<close>, \<open>Utf8\<close>, \<open>Regex\<close>, \<open>Codec\<close>, \<open>Go_Cmd\<close>: what the code uses of Go itself.
    \<open>strconv.ParseInt\<close>, \<open>strings.TrimSpace\<close> and \<open>strings.Split\<close>; ranging over a string as runes;
    the regular expressions of \<open>regexp\<close>, with a matcher that follows its priorities and an
    inductive language it is proved to decide; little-endian integers and the locales
    \<open>fixed_codec\<close> and \<open>array_codec\<close> for encodings of fixed width; \<open>flag\<close>, \<open>text/tabwriter\<close> and
    the verbs of \<open>fmt\<close>.
  \<^item> \<open>Types\<close>, \<open>Registers\<close>: the constants and structs of \<open>types.go\<close>, \<open>types_def.go\<close>, \<open>probe.go\<close> and
    \<open>usdt_defs.h\<close>, and the register tables of \<open>args.go\<close> with \<open>lookupRegister\<close>; \<open>runtime.GOARCH\<close>
    is an argument.
  \<^item> \<open>Arg_Parser\<close>: the seven patterns of \<open>args.go\<close> in their order, the seven branches of
    \<open>ParseUSDTArgSpec\<close>, and their specification: an abstract syntax of arguments
    (\<open>arg_syntax\<close>), its printer and its meaning \<open>denote\<close>.
  \<^item> \<open>Arguments\<close>: \<open>splitUSDTArgs\<close> as a state machine over the runes, and \<open>ParseUSDTArguments\<close>.
  \<^item> \<open>Spec_Bytes\<close>: \<open>SpecToBytes\<close> and the C view of the bytes.
  \<^item> \<open>Parser_Claims\<close>: the properties of the three theories before it.
  \<^item> \<open>Elf_Parse\<close>: \<open>elfparse.go\<close>. \<open>Elf_Notes\<close>: notes as data, encoded by the test helper
    \<open>buildStapsdtNote\<close> of \<open>elfparse_test.go\<close>, and what the loop makes of them. \<open>Elf_Loop\<close>: the loop as
    a loop. \<open>Elf_Reader\<close>:
    \<open>elfreader.go\<close>, with the locale \<open>elf_reader\<close> (the interface \<open>ELFReader\<close>, interpreted on the
    reader over \<open>debug/elf\<close>) and the locale \<open>file_system\<close> (opening and closing, interpreted on a
    table of open files). \<open>Elf_Claims\<close>: their properties.
  \<^item> \<open>Attach\<close>: \<open>attach.go\<close>. \<open>Attach_Spec\<close>: the locales \<open>spec_map\<close>, \<open>uprobes\<close> and \<open>kernel\<close>, the laws
    of the methods of \<open>cilium/ebpf\<close> the code calls and the lemmas that follow from them.
    \<open>Kernel\<close>: the map \<open>__bpf_usdt_specs\<close> as \<open>usdt.ebpf.c\<close> declares it and a table of links, on which
    the locales are interpreted.
  \<^item> \<open>Bpf_Args\<close>: \<open>usdt_args.h\<close> and the \<open>struct pt_regs\<close> of \<open>kernel.h\<close>; the locale \<open>register_file\<close>
    relates the two switch statements to the Go tables and is interpreted for both
    architectures.
  \<^item> \<open>Pipeline\<close>: the lemmas that carry a value from the argument string to the handler.
    \<open>Attach_Claims\<close> and \<open>Fetch_Claims\<close>: the properties of attaching and fetching.
  \<^item> \<open>Session\<close>: a process that stores, attaches and closes in any order and from any start IDs,
    each call failing or not, as an inductive step relation, with an invariant on its reachable
    states.
  \<^item> \<open>Error_Text\<close>: the text of every error, from the formats of \<open>args.go\<close>, \<open>attach.go\<close> and the loaders.
    \<open>Cli\<close>, \<open>Cli_Claims\<close>: \<open>main\<close>, its commands and what they print.
  \<^item> \<open>Loader\<close>, \<open>Loader_Arm64\<close>: the two generated loaders \<open>usdttest_*_bpfel.go\<close>: loading, closing, and the
    names by which their fields get the programs and maps of the C sources. The locale \<open>closable\<close>
    holds the laws of \<open>Close\<close> of programs and maps, interpreted on a list of open descriptors.
  \<^item> \<open>Test_Bpf\<close>: \<open>CallTestProbes\<close> of \<open>probes_linux.go\<close>, the handlers and programs of
    \<open>usdt_test.ebpf.c\<close>, and how \<open>usdt_integration_test.go\<close> picks the program of a probe.
    \<open>Layout\<close>: the enumerators and struct layouts of the C header, the cgo input, \<open>types.go\<close> and
    the loaders.
  \<^item> this theory: the properties that span the program, from an ELF file, or from any probe's
    argument string, to the value its handler receives.

  \<^bold>\<open>What is shown.\<close>

  \<^item> \<^emph>\<open>Parser.\<close> \<open>ParseUSDTArgSpec\<close> accepts exactly the texts of the argument syntax, gives
    their meaning, and fails with the error that fits. The order of the
    patterns matters for one pair only, a bare constant and a register. An argument list parses to the specs of its arguments whatever space stands
    between and inside them; splitting loses nothing but separators; an argument string is
    refused exactly when it has more than twelve arguments or a bad one, and the first bad one is
    reported.
  \<^item> \<^emph>\<open>Serialisation.\<close> The C struct read back from \<open>SpecToBytes\<close> is the spec; the four
    declarations of the types agree in their values and layouts.
  \<^item> \<^emph>\<open>Notes.\<close> Any sequence of notes comes back from its encoding, cut off or not; no input makes \<open>ParseProbes\<close> panic or run forever; file offsets are exact, do
    not depend on prelinking and fail only outside every segment; every opened file is closed.
  \<^item> \<^emph>\<open>Attachment.\<close> A successful call stores every spec and attaches every probe with its
    cookie; a failed one leaves the links as they were; \<open>Close\<close> takes the links back but leaves the specs,
    since \<open>SpecIDs\<close> is never filled; recording them would undo everything. In a process that calls
    these in any order, a probe keeps its own spec as long as no later call uses its ID again,
    every ID given out keeps an entry, and a full map takes no new one.
  \<^item> \<^emph>\<open>Fetching.\<close> Each handler gets each argument's value with its size and sign. Spec ID 0 is
    looked up as any other; IDs from \<open>2^31\<close> on fail; the shift of a parsed argument is defined
    exactly for sizes 1 to 8 modulo 32.
  \<^item> \<^emph>\<open>Command line and test program.\<close> The printed table, lines and error messages, the exit code, and the verdict of
    each test program on the probes the test fires; flags after the path of \<open>usdt list\<close> are
    refused; loaded objects are closed in order, up to the first error.

  \<^bold>\<open>Bounds.\<close> Those of the code: 12 arguments, 256 entries in the spec map (what \<open>usdt.ebpf.c\<close>
  defines unless a build has defined \<open>BPF_USDT_MAX_SPEC_CNT\<close> itself), IDs below \<open>2^31\<close>
  where a value is to be fetched, 64 entries in the test program's result map. The theorems are not restricted
  otherwise: strings, sections and lists of probes have any length Go can give them.

  \<^bold>\<open>Parameters.\<close> Code outside the repository is an argument of the definitions that use it:
  \<open>elf.NewFile\<close> and the opening and closing of files; \<open>Map.Put\<close>, \<open>Map.Delete\<close>,
  \<open>Executable.Uprobe\<close>, \<open>Link.Close\<close>, \<open>LoadCollectionSpecFromReader\<close>, \<open>LoadAndAssign\<close>,
  \<open>Program.Close\<close>, \<open>Map.Close\<close>. What is
  assumed of them is stated by the locales named above.

  \<^bold>\<open>Not modelled.\<close> The quoting (\<open>%q\<close>) of a flag value that is no boolean, which depends on Unicode
  tables (standard error holds the value itself there); \<open>DEBUG_PRINT\<close> and the other debug output
  of the BPF programs; the \<open>go:generate\<close> files; the big-endian branch of \<open>bpf_usdt_arg\<close>, as both architectures are little-endian;
  concurrent handlers, which share no state but the spec map they only read.
\<close>

section \<open>The program as a whole\<close>

text \<open>
  C1: from a file to a handler. An ELF file whose note section was built with one note per probe is
  opened, read and closed; the specs of its probes are stored, and the probes attached with merged
  cookies. If the \<open>i\<close>-th note has a well-formed list of up to twelve arguments, then the \<open>i\<close>-th
  link holds the \<open>i\<close>-th program at the file offset of the note's address, and in every context with
  the link's cookie the program finds the user's cookie and, for every argument, the value the
  text in the file names, or -1 beyond the last.
\<close>

theorem file_to_handler:
  assumes "os_files sys path = Inr data" "newfile data = Inr \<lparr>file_Sections = hs, file_Progs = progs\<rparr>"
    and "unreadable hs = None" "named ''.note.stapsdt'' hs = Some h" "hdr_Contents h = Inr (build_notes notes)"
    and "list_all note_ok notes"
    and "ParseProbesFromFile os_Open os_Close os_content newfile path sys = (Some (Inr ps), sys')"
    and "PopulateSpecMap arch map_Put m ps startID w = (Inr ids, w1)" "unat startID + length ps \<le> 2 ^ 31"
    and "AttachUprobes exe_Uprobe link_Close exe (Some m) ps bpf_progs (Some (MergeCookies ids user)) w1 = (Inr pl, w2)"
    and "i < length notes" "notes ! i = (l, b, s, pr, nm, args_text u g a its v)"
    and "tight g a" "arg_wf a" "list_all item_ok its"
    and "list_all is_ascii_space u" "list_all is_ascii_space v" "length its \<le> 11"
    and "list_all2 (\<lambda>a x. denote arch a = Inr x) (a # item_args its) xs"
    and "list_all (\<lambda>a. arg_size (int_value (size_text a))) (a # item_args its)"
  shows "os_handles sys' = os_handles sys \<and> length ps = length notes
    \<and> (\<exists>opts. link_at w2 (Links pl ! i) = Some (exe, bpf_progs ! i, opts)
        \<and> Address opts = location_offset (load_segments progs) (fst (prelink (base_address hs) b l s))
        \<and> (\<forall>ctx. ctx_wf arch ctx \<and> ctx_cookie ctx = opt_Cookie opts \<longrightarrow>
            bpf_usdt_cookie ctx = (if i < length user then ucast (user ! i) else 0)
            \<and> bpf_usdt_arg arch (map_lookup w2 m) ctx n =
                Some (if unat n < Suc (length its) then arg_result arch ctx ((a # item_args its) ! unat n)
                      else (-1, 0))))"
proof -
  obtain sys1 where f: "ParseProbesFromFile os_Open os_Close os_content newfile path sys =
      (path_probes newfile (os_files sys path), sys1)" "os_handles sys1 = os_handles sys"
    using os.ParseProbesFromFile_ok [of newfile path sys] by blast
  have ps: "ps = map (\<lambda>(l, b, s, p, n, a). located (base_address hs) (load_segments progs) l b s p n a) notes"
    and sys: "sys' = sys1"
    using assms(7) f(1) parse_built [OF assms(6), of "base_address hs" "load_segments progs"]
    by (simp_all add: path_probes_def file_probes_def assms(1-5))
  have len: "length ps = length notes" by (simp add: ps)
  have i: "i < length ps" using assms(11) len by simp
  have p: "ps ! i = located (base_address hs) (load_segments progs) l b s pr nm (args_text u g a its v)"
    using assms(11,12) by (simp add: ps)
  have args: "Arguments (ps ! i) = args_text u g a its v"
    and addr: "Location (ps ! i) = location_offset (load_segments progs) (fst (prelink (base_address hs) b l s))"
    by (simp_all add: p located_def case_prod_beta Let_def)
  note att = krn.AttachUprobes_ok [OF assms(10)]
  have frame: "map_lookup w2 = map_lookup w1"
    using krn.attach_frame [of exe "Some m" ps bpf_progs "Some (MergeCookies ids user)" w1] assms(10) by simp
  let ?opts = "probe_options (Some (MergeCookies ids user)) i (ps ! i)"
  have ids: "i < length ids"
    using krn.PopulateSpecMap_spec [OF assms(8)] i by (simp add: populated_def)
  have cookie: "opt_Cookie ?opts = MergeCookies ids user ! i"
    using ids by (simp add: probe_options_def length_MergeCookies less_max_iff_disj)
  have at: "MergeCookies ids user ! i = cookie_at ids user i"
    using ids by (intro MergeCookies_nth) simp
  have "bpf_usdt_cookie ctx = (if i < length user then ucast (user ! i) else 0)
      \<and> bpf_usdt_arg arch (map_lookup w2 m) ctx n =
          Some (if unat n < Suc (length its) then arg_result arch ctx ((a # item_args its) ! unat n) else (-1, 0))"
    if "ctx_wf arch ctx" "ctx_cookie ctx = opt_Cookie ?opts" for ctx
    using probe_values [OF assms(8,9) i args assms(13-20) that(1) that(2) [unfolded cookie], of n]
      cookie_at_split(2) [OF that(2) [unfolded cookie at]]
    by (simp add: frame)
  moreover have "link_at w2 (Links pl ! i) = Some (exe, bpf_progs ! i, ?opts)" using att i by blast
  ultimately show ?thesis using f(2) sys len addr by (auto simp: probe_options_def)
qed

theorem file_to_handler_witness:
  "\<exists>sys' opts. ParseProbesFromFile os_Open os_Close os_content
      (\<lambda>_. Inr \<lparr>file_Sections = [\<lparr>hdr_Name = ''.note.stapsdt'', hdr_Addr = 0,
         hdr_Contents = Inr (build_notes [(16, 0, 0, ''p'', ''n'', ''-4@$-9'')])\<rparr>], file_Progs = []\<rparr>)
      ''bin'' \<lparr>os_files = \<lambda>_. Inr [], os_open = []\<rparr> = (Some (Inr [probe_with ''-4@$-9'']), sys')
    \<and> os_handles sys' = {}
    \<and> link_at (one_attached 1 5 (MergeCookies [7] [5] ! 0) (one_stored 3 7 (spec_with [nine]))) 1 = Some (4096, 5, opts)
    \<and> Address opts = 16
    \<and> bpf_usdt_arg ''amd64''
        (map_lookup (one_attached 1 5 (MergeCookies [7] [5] ! 0) (one_stored 3 7 (spec_with [nine]))) 3)
        \<lparr>ctx_regs = saved (replicate 21 0), ctx_cookie = opt_Cookie opts, ctx_user = (\<lambda>_. None)\<rparr> 0 = Some (0, - 9)"
proof -
  let ?a = "ArgSyntax ''-4'' False (DollarConst ''-9'')"
  let ?note = "(16, 0, 0, ''p'', ''n'', ''-4@$-9'')"
  let ?sys = "\<lparr>os_files = \<lambda>_. Inr [], os_open = []\<rparr>"
  let ?hs = "[\<lparr>hdr_Name = ''.note.stapsdt'', hdr_Addr = 0, hdr_Contents = Inr (build_notes [?note])\<rparr>]"
  let ?newfile = "\<lambda>_. Inr \<lparr>file_Sections = ?hs, file_Progs = []\<rparr>"
  let ?w1 = "one_stored 3 7 (spec_with [nine])"
  have hs: "unreadable ?hs = None" "named ''.note.stapsdt'' ?hs = Some (hd ?hs)" "base_address ?hs = 0"
    by (simp_all add: unreadable_def named_def base_address_def)
  have note_wf: "list_all note_ok [?note]" by (simp add: note_ok_def no_nul_def)
  have loc: "located 0 [] 16 0 0 ''p'' ''n'' ''-4@$-9'' = probe_with ''-4@$-9''"
    by (simp add: located_def prelink_def location_offset_def semaphore_offset_def probe_with_def)
  have "path_probes ?newfile (os_files ?sys ''bin'') = Some (Inr [probe_with ''-4@$-9''])"
    using parse_built [OF note_wf, of 0 "[]"] hs by (simp add: path_probes_def file_probes_def load_segments_def loc)
  then obtain sys' where sys: "ParseProbesFromFile os_Open os_Close os_content ?newfile ''bin'' ?sys =
      (Some (Inr [probe_with ''-4@$-9'']), sys')"
    using os.ParseProbesFromFile_ok [of ?newfile "''bin''" ?sys] by auto
  have k: "k_links ?w1 = []" by (simp add: one_stored_def)
  note att = attach_one [OF k, of "Some 3" "''-4@$-9''" 5 "MergeCookies [7] [5] ! 0", folded merge_one]
  let ?opts = "\<lparr>Address = 16, RefCtrOffset = 0, opt_Cookie = MergeCookies [7] [5] ! 0\<rparr>"
  let ?w2 = "one_attached 1 5 (MergeCookies [7] [5] ! 0) ?w1"
  let ?ctx = "\<lparr>ctx_regs = saved (replicate 21 0), ctx_cookie = opt_Cookie ?opts, ctx_user = (\<lambda>_. None)\<rparr>"
  have link: "link_at ?w2 1 = Some (4096, 5, ?opts)" by (simp add: one_attached_def link_at_def)
  have n: "[?note] ! 0 = (16, 0, 0, ''p'', ''n'', args_text [] no_gaps ?a [] [])" by (simp add: nine_text)
  have v: "list_all2 (\<lambda>a x. denote ''amd64'' a = Inr x) (?a # item_args []) [nine]"
    using nine_syntax(3) by (simp only: item_args_def list.map list_all2_Cons list_all2_Nil simp_thms)
  have "ctx_wf ''amd64'' ?ctx" by (simp add: ctx_wf_def sizeof_pt_regs)
  then have "os_handles sys' = {} \<and> bpf_usdt_arg ''amd64'' (map_lookup ?w2 3) ?ctx 0 = Some (arg_result ''amd64'' ?ctx ?a)"
    using file_to_handler [where n = 0 and data = "[]", OF _ _ hs(1,2) _ note_wf sys populate_one [OF spec_nine, of 3 7]
      _ att _ n tight_no_gaps nine_syntax(1) _ _ _ _ v] nine_syntax(2) link
    by (simp add: os_handles_def item_args_def)
  then show ?thesis using sys link nine_result by auto
qed

text \<open>
  C2: what a handler of a probe fetches. For a probe whose argument string is any well-formed
  list of up to twelve arguments of one, two, four or eight bytes: once its spec is stored and
  its cookie merged, \<open>bpf_usdt_arg\<close> in a context with that cookie gives for each argument the
  constant, register or memory value the argument names, cut to its size and extended by its
  sign, or the error of a faulting read; and -1 for any number beyond the last argument. This
  holds for every spec ID below \<open>2^31\<close> and on both architectures.
\<close>

theorem fetched_argument_values:
  assumes "PopulateSpecMap arch map_Put m ps startID w = (Inr ids, w')"
    and "unat startID + length ps \<le> 2 ^ 31"
    and "i < length ps" "Arguments (ps ! i) = args_text u g a its v"
    and "tight g a" "arg_wf a" "list_all item_ok its"
    and "list_all is_ascii_space u" "list_all is_ascii_space v" "length its \<le> 11"
    and "list_all2 (\<lambda>a x. denote arch a = Inr x) (a # item_args its) xs"
    and "list_all (\<lambda>a. arg_size (int_value (size_text a))) (a # item_args its)"
    and "ctx_wf arch ctx" "ctx_cookie ctx = MergeCookies ids user ! i"
  shows "bpf_usdt_arg arch (map_lookup w' m) ctx n =
      Some (if unat n < Suc (length its) then arg_result arch ctx ((a # item_args its) ! unat n)
            else (-1, 0))"
  using assms by (rule probe_values)

theorem fetched_argument_values_witness:
  "bpf_usdt_arg ''amd64'' (map_lookup (one_stored 3 7 (spec_with [nine])) 3)
    \<lparr>ctx_regs = saved (replicate 21 0), ctx_cookie = MergeCookies [7] [5] ! 0, ctx_user = (\<lambda>_. None)\<rparr> 0 = Some (0, - 9)"
proof -
  let ?ctx = "\<lparr>ctx_regs = saved (replicate 21 0), ctx_cookie = MergeCookies [7] [5] ! 0, ctx_user = (\<lambda>_. None)\<rparr>"
  let ?a = "ArgSyntax ''-4'' False (DollarConst ''-9'')"
  have t: "Arguments ([probe_with ''-4@$-9''] ! 0) = args_text [] no_gaps ?a [] []" by (simp add: nine_text)
  have "bpf_usdt_arg ''amd64'' (map_lookup (one_stored 3 7 (spec_with [nine])) 3) ?ctx 0 =
      Some (arg_result ''amd64'' ?ctx ?a)"
    using fetched_argument_values [OF populate_one [OF spec_nine, of 3 7] _ _ t, of "[nine]" ?ctx "[5]" 0] nine_syntax
    by (simp add: item_args_def ctx_wf_def sizeof_pt_regs)
  also have "arg_result ''amd64'' ?ctx ?a = (0, - 9)" by (rule nine_result)
  finally show ?thesis .
qed

end
